theory Spec2Isabelle
  imports Main
begin

section \<open>The IR substrate: types, affine maps, values\<close>

text \<open>
  The contraction operation \<open>MultiMmaOp\<close> of \<open>IREEGPUOps.cpp\<close> and the rewrite patterns
  of \<open>Transforms.cpp\<close> work on an intermediate representation that the repository
  consumes from its compiler substrate. The part of it that the verified functions read
  is written out here: shaped types, affine maps over dimension expressions, SSA values.
  Whatever aborts the compiler (a failed \<open>assert\<close>, a failed \<open>cast\<close>, an index outside an
  array) is a value of type \<open>crash\<close>; the functions that can abort return
  \<open>crash + 'a\<close>.
\<close>

datatype crash = AssertionFailed | IndexOutOfRange | CastFailed | DanglingValue

datatype LogicalResult = success | failure string

text \<open>\<open>ShapedType::kDynamic\<close> is the smallest 64-bit integer; a dimension of that size
  is dynamic.\<close>

definition kDynamic :: int where
  "kDynamic = - 9223372036854775808"

definition isDynamic :: "int \<Rightarrow> bool" where
  "isDynamic dimSize = (dimSize = kDynamic)"

definition isDynamicShape :: "int list \<Rightarrow> bool" where
  "isDynamicShape sizes = list_ex isDynamic sizes"

datatype ShapedKind = RankedTensorType | VectorType

record ShapedType =
  getShapedKind :: ShapedKind
  getShape :: "int list"
  getElementType :: string

definition getRank :: "ShapedType \<Rightarrow> nat" where
  "getRank t = length (getShape t)"

datatype AffineExprKind = Add | Mul | Mod | FloorDiv | CeilDiv

datatype AffineExpr =
    AffineDimExpr nat
  | AffineSymbolExpr nat
  | AffineConstantExpr int
  | AffineBinaryOpExpr AffineExprKind AffineExpr AffineExpr

record AffineMap =
  getNumDims :: nat
  getNumSymbols :: nat
  getResults :: "AffineExpr list"

definition getNumResults :: "AffineMap \<Rightarrow> nat" where
  "getNumResults m = length (getResults m)"

text \<open>
  Modelled from the spec: the affine-map library's query \<open>isProjectedPermutation\<close> is
  not part of the repository's sources. A map is a projected permutation of its input
  dimensions when it has no symbols, no more results than inputs, and every result is a
  plain dimension expression (no compound expression) that no other result repeats.
\<close>

fun projectedResults :: "nat list \<Rightarrow> AffineExpr list \<Rightarrow> bool" where
  "projectedResults seen [] = True"
| "projectedResults seen (AffineDimExpr p # es) =
     (if p \<in> set seen then False else projectedResults (p # seen) es)"
| "projectedResults seen (e # es) = False"

definition isProjectedPermutation :: "AffineMap \<Rightarrow> bool" where
  "isProjectedPermutation m =
     (if getNumSymbols m > 0 then False
      else if getNumResults m > getNumDims m then False
      else projectedResults [] (getResults m))"

datatype IteratorType = parallel | reduction

text \<open>The intrinsic kind: the element types and the native vector types of the three
  operand roles.\<close>

record MmaInterfaceAttr =
  getABCElementTypes :: "string \<times> string \<times> string"
  getABCVectorTypes :: "ShapedType \<times> ShapedType \<times> ShapedType"

text \<open>An SSA value is a handle with a type. A handle is a value defined outside the
  rewritten operation, the result of the \<open>n\<close>-th operation a rewrite created, or the
  \<open>n\<close>-th argument of a block.\<close>

datatype ValueId = Defined nat | OpResult nat | BlockArgument nat

record Value =
  getValueId :: ValueId
  getType :: ShapedType

section \<open>MultiMmaOp\<close>

text \<open>
  The operation holds its three operands, the indexing maps, the iterator kinds, the
  intrinsic kind and its result type. The operands are ranked tensors or vectors by the
  operation's declaration, so their types are \<open>ShapedType\<close>s.
\<close>

record MultiMmaOp =
  getLhs :: Value
  getRhs :: Value
  getAcc :: Value
  getIndexingMapsArray :: "AffineMap list"
  getIteratorTypes :: "IteratorType list"
  getKind :: MmaInterfaceAttr
  getResultType :: ShapedType

definition getLhsType :: "MultiMmaOp \<Rightarrow> ShapedType" where
  "getLhsType op = getType (getLhs op)"

definition getRhsType :: "MultiMmaOp \<Rightarrow> ShapedType" where
  "getRhsType op = getType (getRhs op)"

definition getAccType :: "MultiMmaOp \<Rightarrow> ShapedType" where
  "getAccType op = getType (getAcc op)"

definition getOperand :: "MultiMmaOp \<Rightarrow> nat \<Rightarrow> Value" where
  "getOperand op i = (if i = 0 then getLhs op else if i = 1 then getRhs op else getAcc op)"

subsection \<open>getResultIndex and getIterationBounds\<close>

text \<open>\<open>getResultIndex\<close> returns the first result position holding the expression, or
  \<open>-1\<close>. The loop counter is the first argument.\<close>

fun getResultIndexFrom :: "int \<Rightarrow> AffineExpr list \<Rightarrow> AffineExpr \<Rightarrow> int" where
  "getResultIndexFrom i [] targetExpr = - 1"
| "getResultIndexFrom i (e # es) targetExpr =
     (if targetExpr = e then i else getResultIndexFrom (i + 1) es targetExpr)"

definition getResultIndex :: "AffineMap \<Rightarrow> AffineExpr \<Rightarrow> int" where
  "getResultIndex m targetExpr = getResultIndexFrom 0 (getResults m) targetExpr"

text \<open>Reading an array: the index must be inside.\<close>

definition at :: "'a list \<Rightarrow> int \<Rightarrow> crash + 'a" where
  "at xs i = (if 0 \<le> i \<and> i < int (length xs) then Inr (xs ! nat i) else Inl IndexOutOfRange)"

text \<open>
  One step of the loop of \<open>getIterationBounds\<close>: the bound of iterator \<open>index\<close> of kind
  \<open>iteratorType\<close>. A reduction dimension is looked up among the results of the lhs map
  (\<open>indexingMaps[0]\<close>) and read from the lhs shape, any other among the results of the
  accumulator map (\<open>indexingMaps[2]\<close>) and read from the result type's shape. The
  \<open>assert\<close> on the position found aborts when the dimension is not there.
\<close>

definition iterationBound :: "MultiMmaOp \<Rightarrow> nat \<Rightarrow> IteratorType \<Rightarrow> crash + int" where
  "iterationBound op index iteratorType =
     (let targetExpr = AffineDimExpr index in
      if iteratorType = reduction then
        (case at (getIndexingMapsArray op) 0 of
           Inl c \<Rightarrow> Inl c
         | Inr lhsMap \<Rightarrow>
             (let lhsDimIndex = getResultIndex lhsMap targetExpr in
              if lhsDimIndex \<ge> 0 then at (getShape (getLhsType op)) lhsDimIndex
              else Inl AssertionFailed))
      else
        (case at (getIndexingMapsArray op) 2 of
           Inl c \<Rightarrow> Inl c
         | Inr accMap \<Rightarrow>
             (let resDimIndex = getResultIndex accMap targetExpr in
              if resDimIndex \<ge> 0 then at (getShape (getResultType op)) resDimIndex
              else Inl AssertionFailed)))"

fun iterationBoundsFrom :: "MultiMmaOp \<Rightarrow> nat \<Rightarrow> IteratorType list \<Rightarrow> crash + int list" where
  "iterationBoundsFrom op index [] = Inr []"
| "iterationBoundsFrom op index (t # ts) =
     (case iterationBound op index t of
        Inl c \<Rightarrow> Inl c
      | Inr b \<Rightarrow>
          (case iterationBoundsFrom op (Suc index) ts of
             Inl c \<Rightarrow> Inl c
           | Inr bs \<Rightarrow> Inr (b # bs)))"

definition getIterationBounds :: "MultiMmaOp \<Rightarrow> crash + int list" where
  "getIterationBounds op = iterationBoundsFrom op 0 (getIteratorTypes op)"

definition getShapeForUnroll :: "MultiMmaOp \<Rightarrow> crash + int list option" where
  "getShapeForUnroll op =
     (case getIterationBounds op of Inl c \<Rightarrow> Inl c | Inr shape \<Rightarrow> Inr (Some shape))"

subsection \<open>verify\<close>

text \<open>
  The diagnostics carry the fixed part of the message the verifier emits; the operand
  number and the types it prints into the message are left out.

  The body of the loop over the indexing maps: \<open>index\<close> is the operand number, \<open>map\<close>
  its map. \<open>take_back (rank - numResults)\<close> of the shape is what is left after dropping
  the first \<open>numResults\<close> sizes, since here \<open>numResults < rank\<close>.
\<close>

definition verifyIndexingMap :: "MultiMmaOp \<Rightarrow> nat \<Rightarrow> nat \<Rightarrow> AffineMap \<Rightarrow> LogicalResult" where
  "verifyIndexingMap op numIterators index indexingMap =
     (if getNumSymbols indexingMap \<noteq> 0 then failure ''expected indexing map to have no symbols''
      else
        let shapedType = getType (getOperand op index);
            rank = getRank shapedType in
        if getNumDims indexingMap \<noteq> numIterators
          then failure ''expected indexing map to have numIterators number of inputs''
        else if getNumResults indexingMap \<ge> rank
          then failure ''expected indexing map to have fewer than rank number of outputs''
        else if \<not> isProjectedPermutation indexingMap
          then failure ''expected indexing map to be a projected permutation of its inputs''
        else if list_ex isDynamic (drop (getNumResults indexingMap) (getShape shapedType))
          then failure ''Unexpected dynamic inner dim for operand''
        else success)"

fun verifyIndexingMapsFrom ::
  "MultiMmaOp \<Rightarrow> nat \<Rightarrow> nat \<Rightarrow> AffineMap list \<Rightarrow> LogicalResult" where
  "verifyIndexingMapsFrom op numIterators index [] = success"
| "verifyIndexingMapsFrom op numIterators index (indexingMap # maps) =
     (case verifyIndexingMap op numIterators index indexingMap of
        failure msg \<Rightarrow> failure msg
      | success \<Rightarrow> verifyIndexingMapsFrom op numIterators (Suc index) maps)"

text \<open>
  The lambda \<open>verifyOperandShape\<close>: \<open>llvm::zip\<close> stops at the shorter of the map's results
  and the shape; \<open>cast<AffineDimExpr>\<close> aborts on a result that is no dimension
  expression, and \<open>bounds[dimIdx]\<close> on a position outside the bounds.
\<close>

fun verifyOperandShapeZip :: "int list \<Rightarrow> (AffineExpr \<times> int) list \<Rightarrow> crash + LogicalResult" where
  "verifyOperandShapeZip bounds [] = Inr success"
| "verifyOperandShapeZip bounds ((AffineDimExpr dimIdx, dimSize) # rest) =
     (case at bounds (int dimIdx) of
        Inl c \<Rightarrow> Inl c
      | Inr b \<Rightarrow> if dimSize \<noteq> b then Inr (failure []) else verifyOperandShapeZip bounds rest)"
| "verifyOperandShapeZip bounds ((e, dimSize) # rest) = Inl CastFailed"

definition verifyOperandShape :: "int list \<Rightarrow> ShapedType \<Rightarrow> AffineMap \<Rightarrow> crash + LogicalResult" where
  "verifyOperandShape bounds type indexingMap =
     verifyOperandShapeZip bounds (zip (getResults indexingMap) (getShape type))"

definition failed :: "LogicalResult \<Rightarrow> bool" where
  "failed r = (r \<noteq> success)"

text \<open>
  \<open>linalg::inferContractionDims\<close> belongs to the compiler substrate and is a parameter of
  the verifier here: \<open>inferContractionDims maps\<close> holds when the inference succeeds on
  the maps.
\<close>

definition verifyElementTypes :: "MultiMmaOp \<Rightarrow> LogicalResult" where
  "verifyElementTypes op =
     (case getABCElementTypes (getKind op) of (lType, rType, aType) \<Rightarrow>
        if lType \<noteq> getElementType (getLhsType op)
          then failure ''lhs element type does not match expected element type for intrinsic''
        else if rType \<noteq> getElementType (getRhsType op)
          then failure ''rhs element type does not match expected element type for intrinsic''
        else if aType \<noteq> getElementType (getAccType op)
          then failure ''accumulator element type does not match expected element type for intrinsic''
        else success)"

definition verifyShapes :: "MultiMmaOp \<Rightarrow> AffineMap list \<Rightarrow> int list \<Rightarrow> crash + LogicalResult" where
  "verifyShapes op indexingMaps bounds =
     (case verifyOperandShape bounds (getLhsType op) (indexingMaps ! 0) of
        Inl c \<Rightarrow> Inl c
      | Inr (failure m) \<Rightarrow> Inr (failure ''lhs shape does not match iteration bounds'')
      | Inr success \<Rightarrow>
     (case verifyOperandShape bounds (getRhsType op) (indexingMaps ! 1) of
        Inl c \<Rightarrow> Inl c
      | Inr (failure m) \<Rightarrow> Inr (failure ''rhs shape does not match iteration bounds'')
      | Inr success \<Rightarrow>
     (case verifyOperandShape bounds (getAccType op) (indexingMaps ! 2) of
        Inl c \<Rightarrow> Inl c
      | Inr (failure m) \<Rightarrow>
          Inr (failure ''accumulator shape does not match iteration bounds'')
      | Inr success \<Rightarrow> Inr (verifyElementTypes op))))"

definition verify :: "(AffineMap list \<Rightarrow> bool) \<Rightarrow> MultiMmaOp \<Rightarrow> crash + LogicalResult" where
  "verify inferContractionDims op =
     (let indexingMaps = getIndexingMapsArray op in
      if length indexingMaps \<noteq> 3
        then Inr (failure ''expected an indexing map for each operand'')
      else
        let numIterators = length (getIteratorTypes op) in
        case verifyIndexingMapsFrom op numIterators 0 indexingMaps of
          failure msg \<Rightarrow> Inr (failure msg)
        | success \<Rightarrow>
            if \<not> inferContractionDims indexingMaps
              then Inr (failure ''failed to infer contraction dims'')
            else
              (case getIterationBounds op of
                 Inl c \<Rightarrow> Inl c
               | Inr bounds \<Rightarrow> verifyShapes op indexingMaps bounds))"

subsection \<open>Two operations to run the definitions on\<close>

text \<open>
  \<open>mma_2x3x4\<close> is a matrix multiplication with iterators \<open>(m, n, k)\<close> of kinds parallel,
  parallel, reduction and bounds \<open>2, 3, 4\<close>: the lhs is indexed by \<open>(m, k)\<close>, the rhs by
  \<open>(k, n)\<close>, the accumulator by \<open>(m, n)\<close>, and every operand has one inner dimension of
  four elements. \<open>mma_2x2\<close> has one parallel and one reduction iterator, both of bound
  \<open>2\<close>.
\<close>

definition vectorOf :: "int list \<Rightarrow> string \<Rightarrow> ShapedType" where
  "vectorOf shape elementType =
     \<lparr>getShapedKind = VectorType, getShape = shape, getElementType = elementType\<rparr>"

definition tensorOf :: "int list \<Rightarrow> string \<Rightarrow> ShapedType" where
  "tensorOf shape elementType =
     \<lparr>getShapedKind = RankedTensorType, getShape = shape, getElementType = elementType\<rparr>"

definition affineMapOf :: "nat \<Rightarrow> nat list \<Rightarrow> AffineMap" where
  "affineMapOf numDims positions =
     \<lparr>getNumDims = numDims, getNumSymbols = 0, getResults = map AffineDimExpr positions\<rparr>"

definition mfma_f16 :: MmaInterfaceAttr where
  "mfma_f16 =
     \<lparr>getABCElementTypes = (''f16'', ''f16'', ''f32''),
      getABCVectorTypes = (vectorOf [4] ''f16'', vectorOf [4] ''f16'', vectorOf [4] ''f32'')\<rparr>"

definition mma_2x3x4 :: MultiMmaOp where
  "mma_2x3x4 =
     \<lparr>getLhs = \<lparr>getValueId = Defined 0, getType = vectorOf [2, 4, 4] ''f16''\<rparr>,
      getRhs = \<lparr>getValueId = Defined 1, getType = vectorOf [4, 3, 4] ''f16''\<rparr>,
      getAcc = \<lparr>getValueId = Defined 2, getType = vectorOf [2, 3, 4] ''f32''\<rparr>,
      getIndexingMapsArray = [affineMapOf 3 [0, 2], affineMapOf 3 [2, 1], affineMapOf 3 [0, 1]],
      getIteratorTypes = [parallel, parallel, reduction],
      getKind = mfma_f16,
      getResultType = vectorOf [2, 3, 4] ''f32''\<rparr>"

definition mma_2x2 :: MultiMmaOp where
  "mma_2x2 =
     \<lparr>getLhs = \<lparr>getValueId = Defined 0, getType = vectorOf [2, 2, 4] ''f16''\<rparr>,
      getRhs = \<lparr>getValueId = Defined 1, getType = vectorOf [2, 4] ''f16''\<rparr>,
      getAcc = \<lparr>getValueId = Defined 2, getType = vectorOf [2, 4] ''f32''\<rparr>,
      getIndexingMapsArray = [affineMapOf 2 [0, 1], affineMapOf 2 [1], affineMapOf 2 [0]],
      getIteratorTypes = [parallel, reduction],
      getKind = mfma_f16,
      getResultType = vectorOf [2, 4] ''f32''\<rparr>"

section \<open>The rewriter and the operations the patterns create\<close>

text \<open>
  The patterns of \<open>Transforms.cpp\<close> build new operations through a rewriter and replace
  the matched operation by a value. The rewriter is the list of the operations created
  so far, in the order of their creation, and the replacement of the matched operation
  once it is made. The result of the \<open>n\<close>-th created operation is the value
  \<open>OpResult n\<close>, with the type the operation's builder gives it.
\<close>

datatype Operation =
    ExtractOp Value "int list"
  | ExtractStridedSliceOp Value "int list" "int list" "int list"
  | InsertStridedSliceOp Value Value "int list" "int list"
  | ConstantZeroOp ShapedType
  | BroadcastOp ShapedType Value
  | MultiMma MultiMmaOp

fun resultTypeOf :: "Operation \<Rightarrow> ShapedType" where
  "resultTypeOf (ExtractOp source position) =
     (getType source)\<lparr>getShape := drop (length position) (getShape (getType source))\<rparr>"
| "resultTypeOf (ExtractStridedSliceOp source offsets sizes strides) =
     (getType source)\<lparr>getShape := sizes @ drop (length offsets) (getShape (getType source))\<rparr>"
| "resultTypeOf (InsertStridedSliceOp source dest offsets strides) = getType dest"
| "resultTypeOf (ConstantZeroOp type) = type"
| "resultTypeOf (BroadcastOp type source) = type"
| "resultTypeOf (MultiMma op) = getResultType op"

record PatternRewriter =
  created :: "Operation list"
  replacement :: "Value option"

definition valueAt :: "nat \<Rightarrow> Operation \<Rightarrow> Value" where
  "valueAt n operation = \<lparr>getValueId = OpResult n, getType = resultTypeOf operation\<rparr>"

definition create :: "PatternRewriter \<Rightarrow> Operation \<Rightarrow> Value \<times> PatternRewriter" where
  "create rewriter operation =
     (valueAt (length (created rewriter)) operation,
      rewriter\<lparr>created := created rewriter @ [operation]\<rparr>)"

definition replaceOp :: "PatternRewriter \<Rightarrow> Value \<Rightarrow> PatternRewriter" where
  "replaceOp rewriter newValue = rewriter\<lparr>replacement := Some newValue\<rparr>"

definition andThen :: "crash + 'a \<Rightarrow> ('a \<Rightarrow> crash + 'b) \<Rightarrow> crash + 'b" where
  "andThen r f = (case r of Inl c \<Rightarrow> Inl c | Inr x \<Rightarrow> f x)"

text \<open>
  Modelled from the spec: the queries of the operation's declaration, which is not part
  of the repository's sources (the operation's public query surface: the tensor or
  vector semantics flag and the split of each operand's rank into outer and inner
  dimensions). An operation has tensor semantics when its result is a tensor; the outer
  rank of an operand is the number of results of its map, the inner shape what follows
  the outer dimensions.
\<close>

definition hasTensorSemantics :: "MultiMmaOp \<Rightarrow> bool" where
  "hasTensorSemantics op = (getShapedKind (getResultType op) = RankedTensorType)"

definition getLhsOuterRank :: "MultiMmaOp \<Rightarrow> crash + nat" where
  "getLhsOuterRank op = andThen (at (getIndexingMapsArray op) 0) (\<lambda>m. Inr (getNumResults m))"

definition getRhsOuterRank :: "MultiMmaOp \<Rightarrow> crash + nat" where
  "getRhsOuterRank op = andThen (at (getIndexingMapsArray op) 1) (\<lambda>m. Inr (getNumResults m))"

definition getAccOuterRank :: "MultiMmaOp \<Rightarrow> crash + nat" where
  "getAccOuterRank op = andThen (at (getIndexingMapsArray op) 2) (\<lambda>m. Inr (getNumResults m))"

definition getAccInnerShape :: "MultiMmaOp \<Rightarrow> crash + int list" where
  "getAccInnerShape op =
     andThen (getAccOuterRank op) (\<lambda>outerRank. Inr (drop outerRank (getShape (getAccType op))))"

text \<open>The builder of \<open>MultiMmaOp\<close> from operands, maps, iterator kinds and intrinsic kind:
  the result type is the accumulator's type.\<close>

definition buildMultiMmaOp ::
  "Value \<Rightarrow> Value \<Rightarrow> Value \<Rightarrow> AffineMap list \<Rightarrow> IteratorType list \<Rightarrow> MmaInterfaceAttr \<Rightarrow> MultiMmaOp" where
  "buildMultiMmaOp lhs rhs acc indexingMaps iteratorTypes kind =
     \<lparr>getLhs = lhs, getRhs = rhs, getAcc = acc, getIndexingMapsArray = indexingMaps,
      getIteratorTypes = iteratorTypes, getKind = kind, getResultType = getType acc\<rparr>"

section \<open>DropMultiMmaUnitDimsPattern\<close>

definition dropLeadUnitDims :: "PatternRewriter \<Rightarrow> Value \<Rightarrow> nat \<Rightarrow> Value \<times> PatternRewriter" where
  "dropLeadUnitDims rewriter operand numDims =
     (if numDims = 0 then (operand, rewriter)
      else
        let droppedDimIndices = replicate numDims 0 in
        create rewriter (ExtractOp operand droppedDimIndices))"

definition emptyAffineMap :: AffineMap where
  "emptyAffineMap = \<lparr>getNumDims = 0, getNumSymbols = 0, getResults = []\<rparr>"

definition DropMultiMmaUnitDimsPattern ::
  "MultiMmaOp \<Rightarrow> PatternRewriter \<Rightarrow> crash + (LogicalResult \<times> PatternRewriter)" where
  "DropMultiMmaUnitDimsPattern mmaOp rewriter =
     (if hasTensorSemantics mmaOp
        then Inr (failure ''unimplemented: unit dim dropping for tensor mma ops'', rewriter)
      else
        andThen (getIterationBounds mmaOp) (\<lambda>bounds.
        if bounds = [] then Inr (failure ''no dimensions to fold'', rewriter)
        else if \<not> list_all (\<lambda>b. b = 1) bounds
          then Inr (failure ''not all iteration bounds are unit'', rewriter)
        else
          andThen (getLhsOuterRank mmaOp) (\<lambda>lhsOuterRank.
          case dropLeadUnitDims rewriter (getLhs mmaOp) lhsOuterRank of (newLhs, rewriter1) \<Rightarrow>
          andThen (getRhsOuterRank mmaOp) (\<lambda>rhsOuterRank.
          case dropLeadUnitDims rewriter1 (getRhs mmaOp) rhsOuterRank of (newRhs, rewriter2) \<Rightarrow>
          andThen (getAccOuterRank mmaOp) (\<lambda>accOuterRank.
          case dropLeadUnitDims rewriter2 (getAcc mmaOp) accOuterRank of (newAcc, rewriter3) \<Rightarrow>
          let empty = emptyAffineMap in
          case create rewriter3
                 (MultiMma (buildMultiMmaOp newLhs newRhs newAcc [empty, empty, empty] []
                    (getKind mmaOp))) of
            (newMmaOp, rewriter4) \<Rightarrow>
          case create rewriter4 (BroadcastOp (getResultType mmaOp) newMmaOp) of
            (broadcast, rewriter5) \<Rightarrow>
          Inr (success, replaceOp rewriter5 broadcast))))))"

section \<open>UnrollMultiMmaPattern\<close>

subsection \<open>The index utilities the pattern calls\<close>

text \<open>
  Modelled from the spec: the index utilities of the compiler substrate, which are not
  part of the repository's sources. \<open>computeShapeRatio\<close> divides a shape by a sub-shape
  aligned at the trailing dimensions (the sub-shape is filled up with ones in front): it
  gives the quotients when every division is exact and nothing when one is not (or when
  the sub-shape is the longer one); the sizes of both are expected to be positive. \<open>applyPermutationMap\<close> reads a vector through a
  projected permutation. \<open>StaticTileOffsetRange\<close> enumerates the offsets of the tiles of
  a shape, by default row-major, otherwise with the loops in the given order (the last
  one of the order running fastest).
\<close>

definition padTileShapeToSize :: "int list \<Rightarrow> nat \<Rightarrow> int list" where
  "padTileShapeToSize tileShape n = replicate (n - length tileShape) 1 @ tileShape"

definition computeShapeRatio :: "int list \<Rightarrow> int list \<Rightarrow> crash + int list option" where
  "computeShapeRatio shape subShape =
     (if length shape < length subShape then Inr None
      else if \<not> list_all (\<lambda>s. s > 0) shape \<or> \<not> list_all (\<lambda>s. s > 0) subShape
        then Inl AssertionFailed
      else
        let aligned = padTileShapeToSize subShape (length shape) in
        if list_all (\<lambda>(dimSize, subSize). dimSize mod subSize = 0) (zip shape aligned)
          then Inr (Some (map (\<lambda>(dimSize, subSize). dimSize div subSize) (zip shape aligned)))
        else Inr None)"

fun applyPermutationResults :: "AffineExpr list \<Rightarrow> int list \<Rightarrow> crash + int list" where
  "applyPermutationResults [] source = Inr []"
| "applyPermutationResults (AffineDimExpr p # es) source =
     andThen (at source (int p)) (\<lambda>x.
     andThen (applyPermutationResults es source) (\<lambda>xs. Inr (x # xs)))"
| "applyPermutationResults (e # es) source = Inl AssertionFailed"

definition applyPermutationMap :: "AffineMap \<Rightarrow> int list \<Rightarrow> crash + int list" where
  "applyPermutationMap m source =
     (if \<not> isProjectedPermutation m then Inl AssertionFailed
      else if getNumDims m \<noteq> length source then Inl AssertionFailed
      else applyPermutationResults (getResults m) source)"

definition isPermutationVector :: "int list \<Rightarrow> bool" where
  "isPermutationVector order =
     (distinct order \<and> list_all (\<lambda>i. 0 \<le> i \<and> i < int (length order)) order)"

definition applyPermutation :: "int list \<Rightarrow> int list \<Rightarrow> int list" where
  "applyPermutation input permutation = map (\<lambda>p. input ! nat p) permutation"

fun indexOf :: "int list \<Rightarrow> int \<Rightarrow> nat" where
  "indexOf [] x = 0"
| "indexOf (y # ys) x = (if x = y then 0 else Suc (indexOf ys x))"

definition invertPermutationVector :: "int list \<Rightarrow> int list" where
  "invertPermutationVector permutation =
     map (\<lambda>i. int (indexOf permutation (int i))) [0..<length permutation]"

fun computeStrides :: "int list \<Rightarrow> int list" where
  "computeStrides [] = []"
| "computeStrides (s # sizes) = prod_list sizes # computeStrides sizes"

fun delinearize :: "int \<Rightarrow> int list \<Rightarrow> int list" where
  "delinearize linearIndex [] = []"
| "delinearize linearIndex (stride # strides) =
     (linearIndex div stride) # delinearize (linearIndex mod stride) strides"

definition StaticTileOffsetRange :: "int list \<Rightarrow> int list \<Rightarrow> int list \<Rightarrow> crash + int list list" where
  "StaticTileOffsetRange shape tileShape loopOrder =
     andThen (computeShapeRatio shape tileShape) (\<lambda>shapeRatio.
     case shapeRatio of
       None \<Rightarrow> Inl AssertionFailed
     | Some ratio \<Rightarrow>
         if \<not> (isPermutationVector loopOrder \<and> length loopOrder = length shape)
           then Inl AssertionFailed
         else
           let paddedTileShape = padTileShapeToSize tileShape (length shape);
               inverseLoopOrder = invertPermutationVector loopOrder;
               maxLinearIndex = prod_list ratio;
               sliceStrides = computeStrides (applyPermutation ratio loopOrder)
           in Inr (map (\<lambda>linearIndex.
                     map2 (*) (applyPermutation (delinearize (int linearIndex) sliceStrides)
                                 inverseLoopOrder)
                          paddedTileShape)
                   [0..<nat maxLinearIndex]))"

subsection \<open>The options, the accumulator cache and the clone\<close>

record UnrollVectorOptions =
  filterConstraint :: "(MultiMmaOp \<Rightarrow> LogicalResult) option"
  nativeShape :: "(MultiMmaOp \<Rightarrow> int list option) option"
  traversalOrderCallback :: "(MultiMmaOp \<Rightarrow> int list option) option"

definition getUnrollOrder :: "nat \<Rightarrow> MultiMmaOp \<Rightarrow> UnrollVectorOptions \<Rightarrow> int list" where
  "getUnrollOrder numLoops op options =
     (let loopOrder = map int [0..<numLoops] in
      case traversalOrderCallback options of
        None \<Rightarrow> loopOrder
      | Some callback \<Rightarrow> (case callback op of None \<Rightarrow> loopOrder | Some order \<Rightarrow> order))"

text \<open>
  \<open>accCache\<close> is a \<open>MapVector\<close> from offsets to values: a map that keeps its entries in
  the order in which their keys were first inserted. Assigning to a key that is there
  overwrites its value in place, assigning to a new key appends an entry.
\<close>

type_synonym accCacheT = "(int list \<times> Value) list"

definition mapVectorFind :: "('k \<times> 'v) list \<Rightarrow> 'k \<Rightarrow> 'v option" where
  "mapVectorFind entries key = map_of entries key"

fun mapVectorSet :: "('k \<times> 'v) list \<Rightarrow> 'k \<Rightarrow> 'v \<Rightarrow> ('k \<times> 'v) list" where
  "mapVectorSet [] key v = [(key, v)]"
| "mapVectorSet ((k, w) # entries) key v =
     (if k = key then (k, v) # entries else (k, w) # mapVectorSet entries key v)"

text \<open>
  \<open>mlir::clone (rewriter, op, newResultTypes, newOperands)\<close> builds an operation of the
  same name with the new operands and result types and with the attributes of \<open>op\<close>: the
  call passes the operands and the result type and nothing else, so the indexing maps,
  the iterator kinds and the intrinsic kind of the clone are those of the original.
\<close>

definition clone :: "MultiMmaOp \<Rightarrow> ShapedType \<Rightarrow> Value list \<Rightarrow> MultiMmaOp" where
  "clone op newResultType newOperands =
     op\<lparr>getLhs := newOperands ! 0, getRhs := newOperands ! 1, getAcc := newOperands ! 2,
        getResultType := newResultType\<rparr>"

subsection \<open>The pattern\<close>

text \<open>The slice \<open>extractOperand\<close> creates: the strides are all one.\<close>

definition sliceOf :: "Value \<Rightarrow> int list \<Rightarrow> int list \<Rightarrow> Operation" where
  "sliceOf operand offsets sizes =
     ExtractStridedSliceOp operand offsets sizes (replicate (length offsets) 1)"

definition extractOperand ::
  "PatternRewriter \<Rightarrow> int list \<Rightarrow> Value \<Rightarrow> AffineMap \<Rightarrow> int list \<Rightarrow> crash + (Value \<times> PatternRewriter)" where
  "extractOperand rewriter targetShape operand permutationMap operandOffets =
     andThen (applyPermutationMap permutationMap targetShape) (\<lambda>operandShape.
     Inr (create rewriter (sliceOf operand operandOffets operandShape)))"

text \<open>The body of the loop over the tile offsets; the state is the rewriter and the
  accumulator cache.\<close>

definition unrollTile ::
  "MultiMmaOp \<Rightarrow> int list \<Rightarrow> ShapedType \<Rightarrow> int list \<Rightarrow> AffineMap \<times> AffineMap \<times> AffineMap \<Rightarrow>
   int list \<Rightarrow> PatternRewriter \<times> accCacheT \<Rightarrow> crash + (PatternRewriter \<times> accCacheT)" where
  "unrollTile mmaOp targetShape dstVecType innerAccShape permutationMaps offsets st =
     (case permutationMaps of (lhsPermutationMap, rhsPermutationMap, accPermutationMap) \<Rightarrow>
      case st of (rewriter, accCache) \<Rightarrow>
      andThen (applyPermutationMap lhsPermutationMap offsets) (\<lambda>lhsOffets.
      andThen (extractOperand rewriter targetShape (getLhs mmaOp) lhsPermutationMap lhsOffets)
        (\<lambda>(lhsSlice, rewriter1).
      andThen (applyPermutationMap rhsPermutationMap offsets) (\<lambda>rhsOffets.
      andThen (extractOperand rewriter1 targetShape (getRhs mmaOp) rhsPermutationMap rhsOffets)
        (\<lambda>(rhsSlice, rewriter2).
      andThen (applyPermutationMap accPermutationMap offsets) (\<lambda>accOffets.
      andThen (case mapVectorFind accCache accOffets of
                 Some cached \<Rightarrow> Inr (cached, rewriter2)
               | None \<Rightarrow>
                   extractOperand rewriter2 targetShape (getAcc mmaOp) accPermutationMap accOffets)
        (\<lambda>(accSlice, rewriter3).
      andThen (applyPermutationMap accPermutationMap targetShape) (\<lambda>permutedShape.
      let dstShape = permutedShape @ innerAccShape;
          targetType = vectorOf dstShape (getElementType dstVecType) in
      case create rewriter3 (MultiMma (clone mmaOp targetType [lhsSlice, rhsSlice, accSlice])) of
        (newOp, rewriter4) \<Rightarrow>
      andThen (applyPermutationMap accPermutationMap offsets) (\<lambda>dstOffets.
      Inr (rewriter4, mapVectorSet accCache dstOffets newOp))))))))))"

fun unrollTiles ::
  "MultiMmaOp \<Rightarrow> int list \<Rightarrow> ShapedType \<Rightarrow> int list \<Rightarrow> AffineMap \<times> AffineMap \<times> AffineMap \<Rightarrow>
   int list list \<Rightarrow> PatternRewriter \<times> accCacheT \<Rightarrow> crash + (PatternRewriter \<times> accCacheT)" where
  "unrollTiles mmaOp targetShape dstVecType innerAccShape permutationMaps [] st = Inr st"
| "unrollTiles mmaOp targetShape dstVecType innerAccShape permutationMaps (offsets # rest) st =
     andThen (unrollTile mmaOp targetShape dstVecType innerAccShape permutationMaps offsets st)
       (unrollTiles mmaOp targetShape dstVecType innerAccShape permutationMaps rest)"

text \<open>Assembling the accumulator: the loop over the entries of the cache, in their
  order.\<close>

fun assembleAccumulator ::
  "nat \<Rightarrow> accCacheT \<Rightarrow> Value \<times> PatternRewriter \<Rightarrow> Value \<times> PatternRewriter" where
  "assembleAccumulator innerRank [] st = st"
| "assembleAccumulator innerRank ((offsets, partialResult) # rest) st =
     (case st of (result, rewriter) \<Rightarrow>
      let dstStrides = replicate (length offsets + innerRank) 1;
          fullOffsets = offsets @ replicate innerRank 0 in
      assembleAccumulator innerRank rest
        (create rewriter (InsertStridedSliceOp partialResult result fullOffsets dstStrides)))"

definition UnrollMultiMmaPattern ::
  "UnrollVectorOptions \<Rightarrow> MultiMmaOp \<Rightarrow> PatternRewriter \<Rightarrow>
   crash + (LogicalResult \<times> PatternRewriter)" where
  "UnrollMultiMmaPattern options mmaOp rewriter =
     (if (case filterConstraint options of None \<Rightarrow> False | Some f \<Rightarrow> failed (f mmaOp))
        then Inr (failure ''unrolling filter'', rewriter)
      else
        case nativeShape options of
          None \<Rightarrow> Inl AssertionFailed
        | Some nativeShapeFn \<Rightarrow>
        andThen (getShapeForUnroll mmaOp) (\<lambda>maybeUnrollShape.
        case maybeUnrollShape of
          None \<Rightarrow> Inr (failure ''unexpected failure to get unroll shape'', rewriter)
        | Some unrollShape \<Rightarrow>
        case nativeShapeFn mmaOp of
          None \<Rightarrow> Inr (failure ''unspecified native unroll shape'', rewriter)
        | Some targetShape \<Rightarrow>
        andThen (computeShapeRatio unrollShape targetShape) (\<lambda>maybeShapeRatio.
        case maybeShapeRatio of
          None \<Rightarrow>
            Inr (failure ''operation unroll shape not divisible by target shape'', rewriter)
        | Some shapeRatio \<Rightarrow>
        if list_all (\<lambda>v. v = 1) shapeRatio
          then Inr (failure ''operation already unrolled to native shape'', rewriter)
        else if getShapedKind (getResultType mmaOp) \<noteq> VectorType then Inl CastFailed
        else
          let dstVecType = getResultType mmaOp;
              originalSize = unrollShape;
              accCache = [];
              loopOrder = getUnrollOrder (length (getIteratorTypes mmaOp)) mmaOp options in
          andThen (at (getIndexingMapsArray mmaOp) 0) (\<lambda>lhsPermutationMap.
          andThen (at (getIndexingMapsArray mmaOp) 1) (\<lambda>rhsPermutationMap.
          andThen (at (getIndexingMapsArray mmaOp) 2) (\<lambda>accPermutationMap.
          andThen (getAccInnerShape mmaOp) (\<lambda>innerAccShape.
          andThen (StaticTileOffsetRange originalSize targetShape loopOrder) (\<lambda>tiles.
          andThen (unrollTiles mmaOp targetShape dstVecType innerAccShape
                     (lhsPermutationMap, rhsPermutationMap, accPermutationMap) tiles
                     (rewriter, accCache)) (\<lambda>(rewriter1, accCache1).
          case assembleAccumulator (length innerAccShape) accCache1
                 (create rewriter1 (ConstantZeroOp dstVecType)) of
            (result, rewriter2) \<Rightarrow>
          Inr (success, replaceOp rewriter2 result))))))))))"

subsection \<open>What a rewrite created\<close>

text \<open>
  For the statements about the unrolling: the contraction operations among a list of
  operations, the operations a pattern leaves in the rewriter, the attributes a clone
  shares with its original, and the destination of the \<open>j\<close>-th insertion of the
  assembly (the zero-initialised buffer first, then the result of the insertion before).
\<close>

fun multiMmaOps :: "Operation list \<Rightarrow> MultiMmaOp list" where
  "multiMmaOps [] = []"
| "multiMmaOps (MultiMma op # operations) = op # multiMmaOps operations"
| "multiMmaOps (operation # operations) = multiMmaOps operations"

definition createdBy :: "crash + (LogicalResult \<times> PatternRewriter) \<Rightarrow> Operation list" where
  "createdBy outcome = (case outcome of Inl c \<Rightarrow> [] | Inr (result, rewriter) \<Rightarrow> created rewriter)"

definition isClone :: "MultiMmaOp \<Rightarrow> MultiMmaOp \<Rightarrow> bool" where
  "isClone mmaOp newOp \<longleftrightarrow>
     getIndexingMapsArray newOp = getIndexingMapsArray mmaOp \<and>
     getIteratorTypes newOp = getIteratorTypes mmaOp \<and> getKind newOp = getKind mmaOp"

definition destOf :: "Value \<Rightarrow> nat \<Rightarrow> nat \<Rightarrow> Value" where
  "destOf result base j =
     (if j = 0 then result
      else \<lparr>getValueId = OpResult (base + j - 1), getType = getType result\<rparr>)"

text \<open>A pattern that returned \<open>success\<close>, and a computation that did not abort.\<close>

definition succeeded :: "crash + (LogicalResult \<times> 'a) \<Rightarrow> bool" where
  "succeeded outcome = (case outcome of Inr (success, rewriter) \<Rightarrow> True | _ \<Rightarrow> False)"


definition emptyRewriter :: PatternRewriter where
  "emptyRewriter = \<lparr>created = [], replacement = None\<rparr>"

definition unrollTo :: "int list \<Rightarrow> UnrollVectorOptions" where
  "unrollTo shape =
     \<lparr>filterConstraint = None, nativeShape = Some (\<lambda>op. Some shape),
      traversalOrderCallback = None\<rparr>"




definition unrolled_2x2 :: PatternRewriter where
  "unrolled_2x2 = snd (projr (UnrollMultiMmaPattern (unrollTo [1, 1]) mma_2x2 emptyRewriter))"



text \<open>\<open>mma_1x1x1\<close> is \<open>mma_2x3x4\<close> unrolled to its native shape: every bound is one.\<close>

definition mma_1x1x1 :: MultiMmaOp where
  "mma_1x1x1 =
     \<lparr>getLhs = \<lparr>getValueId = Defined 0, getType = vectorOf [1, 1, 4] ''f16''\<rparr>,
      getRhs = \<lparr>getValueId = Defined 1, getType = vectorOf [1, 1, 4] ''f16''\<rparr>,
      getAcc = \<lparr>getValueId = Defined 2, getType = vectorOf [1, 1, 4] ''f32''\<rparr>,
      getIndexingMapsArray = [affineMapOf 3 [0, 2], affineMapOf 3 [2, 1], affineMapOf 3 [0, 1]],
      getIteratorTypes = [parallel, parallel, reduction],
      getKind = mfma_f16,
      getResultType = vectorOf [1, 1, 4] ''f32''\<rparr>"

definition folded_1x1x1 :: PatternRewriter where
  "folded_1x1x1 = snd (projr (DropMultiMmaUnitDimsPattern mma_1x1x1 emptyRewriter))"

section \<open>Tensor-level IR for the shuffle lowering and the forall fusion\<close>

text \<open>
  \<open>LowerShuffleTensor\<close> and \<open>fuseForallIntoSlice\<close> edit a block of operations in place:
  they create operations at an insertion point, inline a block in front of an
  operation, replace the uses of a value and erase operations. An operation has an
  identity (a number, standing for its address), and a value is a result of an
  operation or an argument of a block, both named by the identity of their owner; a
  value held in a local variable of the rewrite is such a name, and stays what it is
  when uses are replaced in the IR. The types of the values play no part in the two
  rewrites and are left out.

  An \<open>OpFoldResult\<close> is an integer attribute or a value. \<open>MulAdd a b c\<close> is the value of
  \<open>affine::makeComposedFoldedAffineApply\<close> for the expression \<open>d0 * d1 + d2\<close> on the
  operands \<open>a\<close>, \<open>b\<close>, \<open>c\<close>: the library composes, folds and materialises the application
  as it sees fit, and what it returns denotes that index.
\<close>

datatype SSAValue = OpResultOf nat nat | BlockArgumentOf nat nat

datatype OpFoldResult =
    IntegerAttr int
  | ValueOf SSAValue
  | MulAdd OpFoldResult OpFoldResult OpFoldResult

datatype Op =
    ExtractSliceOp SSAValue "OpFoldResult list" "OpFoldResult list" "OpFoldResult list"
  | InsertSliceOp SSAValue SSAValue "OpFoldResult list" "OpFoldResult list" "OpFoldResult list"
  | ParallelInsertSliceOp SSAValue SSAValue "OpFoldResult list" "OpFoldResult list"
      "OpFoldResult list"
  | ValueBarrierOp SSAValue
  | YieldOp SSAValue
  | ConstantIndexOp int
  | AffineDelinearizeIndexOp OpFoldResult "SSAValue list"
  | OtherOp string "SSAValue list"

record ShuffleTensorOp =
  getSource :: SSAValue
  getDest :: SSAValue
  getMixedOffsets :: "OpFoldResult list"
  getMixedSizes :: "OpFoldResult list"
  getMixedStrides :: "OpFoldResult list"
  getBodyBlock :: nat
  getBody :: "(nat \<times> Op) list"

text \<open>An item of a block: a plain operation, the terminator \<open>scf.forall.in_parallel\<close> with
  the operations of its region, or a \<open>ShuffleTensorOp\<close> with its body. The number is the
  identity of the operation.\<close>

datatype Item =
    Plain nat Op
  | InParallel nat "(nat \<times> Op) list"
  | ShuffleTensor nat ShuffleTensorOp

fun itemId :: "Item \<Rightarrow> nat" where
  "itemId (Plain i operation) = i"
| "itemId (InParallel i yielding) = i"
| "itemId (ShuffleTensor i shuffleOp) = i"

subsection \<open>Uses and their replacement\<close>

fun valuesOfFoldResult :: "OpFoldResult \<Rightarrow> SSAValue list" where
  "valuesOfFoldResult (IntegerAttr i) = []"
| "valuesOfFoldResult (ValueOf v) = [v]"
| "valuesOfFoldResult (MulAdd a b c) =
     valuesOfFoldResult a @ valuesOfFoldResult b @ valuesOfFoldResult c"

definition valuesOfFoldResults :: "OpFoldResult list \<Rightarrow> SSAValue list" where
  "valuesOfFoldResults mixed = concat (map valuesOfFoldResult mixed)"

fun getOperands :: "Op \<Rightarrow> SSAValue list" where
  "getOperands (ExtractSliceOp source offsets sizes strides) =
     source # valuesOfFoldResults offsets @ valuesOfFoldResults sizes @ valuesOfFoldResults strides"
| "getOperands (InsertSliceOp source dest offsets sizes strides) =
     source # dest # valuesOfFoldResults offsets @ valuesOfFoldResults sizes @ valuesOfFoldResults strides"
| "getOperands (ParallelInsertSliceOp source dest offsets sizes strides) =
     source # dest # valuesOfFoldResults offsets @ valuesOfFoldResults sizes @ valuesOfFoldResults strides"
| "getOperands (ValueBarrierOp input) = [input]"
| "getOperands (YieldOp v) = [v]"
| "getOperands (ConstantIndexOp i) = []"
| "getOperands (AffineDelinearizeIndexOp linearIndex basis) =
     valuesOfFoldResult linearIndex @ basis"
| "getOperands (OtherOp name operands) = operands"

definition replaceValue :: "SSAValue \<Rightarrow> SSAValue \<Rightarrow> SSAValue \<Rightarrow> SSAValue" where
  "replaceValue from to v = (if v = from then to else v)"

fun replaceInFoldResult :: "SSAValue \<Rightarrow> SSAValue \<Rightarrow> OpFoldResult \<Rightarrow> OpFoldResult" where
  "replaceInFoldResult from to (IntegerAttr i) = IntegerAttr i"
| "replaceInFoldResult from to (ValueOf v) = ValueOf (replaceValue from to v)"
| "replaceInFoldResult from to (MulAdd a b c) =
     MulAdd (replaceInFoldResult from to a) (replaceInFoldResult from to b)
       (replaceInFoldResult from to c)"

fun replaceUsesOfWith :: "SSAValue \<Rightarrow> SSAValue \<Rightarrow> Op \<Rightarrow> Op" where
  "replaceUsesOfWith from to (ExtractSliceOp source offsets sizes strides) =
     ExtractSliceOp (replaceValue from to source) (map (replaceInFoldResult from to) offsets)
       (map (replaceInFoldResult from to) sizes) (map (replaceInFoldResult from to) strides)"
| "replaceUsesOfWith from to (InsertSliceOp source dest offsets sizes strides) =
     InsertSliceOp (replaceValue from to source) (replaceValue from to dest)
       (map (replaceInFoldResult from to) offsets) (map (replaceInFoldResult from to) sizes)
       (map (replaceInFoldResult from to) strides)"
| "replaceUsesOfWith from to (ParallelInsertSliceOp source dest offsets sizes strides) =
     ParallelInsertSliceOp (replaceValue from to source) (replaceValue from to dest)
       (map (replaceInFoldResult from to) offsets) (map (replaceInFoldResult from to) sizes)
       (map (replaceInFoldResult from to) strides)"
| "replaceUsesOfWith from to (ValueBarrierOp input) = ValueBarrierOp (replaceValue from to input)"
| "replaceUsesOfWith from to (YieldOp v) = YieldOp (replaceValue from to v)"
| "replaceUsesOfWith from to (ConstantIndexOp i) = ConstantIndexOp i"
| "replaceUsesOfWith from to (AffineDelinearizeIndexOp linearIndex basis) =
     AffineDelinearizeIndexOp (replaceInFoldResult from to linearIndex)
       (map (replaceValue from to) basis)"
| "replaceUsesOfWith from to (OtherOp name operands) =
     OtherOp name (map (replaceValue from to) operands)"

text \<open>Replacing the uses of a value in a list of operations, but not in the operations
  whose identity is excepted.\<close>

definition replaceUsesInOps ::
  "nat list \<Rightarrow> SSAValue \<Rightarrow> SSAValue \<Rightarrow> (nat \<times> Op) list \<Rightarrow> (nat \<times> Op) list" where
  "replaceUsesInOps except from to operations =
     map (\<lambda>(i, operation).
            if i \<in> set except then (i, operation)
            else (i, replaceUsesOfWith from to operation)) operations"

fun replaceUsesInItem :: "nat list \<Rightarrow> SSAValue \<Rightarrow> SSAValue \<Rightarrow> Item \<Rightarrow> Item" where
  "replaceUsesInItem except from to (Plain i operation) =
     (if i \<in> set except then Plain i operation
      else Plain i (replaceUsesOfWith from to operation))"
| "replaceUsesInItem except from to (InParallel i yielding) =
     InParallel i (replaceUsesInOps except from to yielding)"
| "replaceUsesInItem except from to (ShuffleTensor i shuffleOp) =
     ShuffleTensor i
       (if i \<in> set except then shuffleOp\<lparr>getBody := replaceUsesInOps except from to (getBody shuffleOp)\<rparr>
        else shuffleOp
          \<lparr>getSource := replaceValue from to (getSource shuffleOp),
           getDest := replaceValue from to (getDest shuffleOp),
           getMixedOffsets := map (replaceInFoldResult from to) (getMixedOffsets shuffleOp),
           getMixedSizes := map (replaceInFoldResult from to) (getMixedSizes shuffleOp),
           getMixedStrides := map (replaceInFoldResult from to) (getMixedStrides shuffleOp),
           getBody := replaceUsesInOps except from to (getBody shuffleOp)\<rparr>)"

subsection \<open>The rewriter on a block\<close>

text \<open>
  The state of a rewrite: the block that is edited, the identity of the next operation
  or block to be created, the blocks and the operations outside the edited block that
  were erased, and the operations that were created at an insertion point outside the
  edited block.
\<close>

datatype InsertionPoint = Before nat | After nat | StartOfBlock nat

record IRRewriter =
  irBlock :: "Item list"
  nextId :: nat
  erasedBlocks :: "nat list"
  erasedOps :: "nat list"
  createdElsewhere :: "(InsertionPoint \<times> Item) list"

fun insertBefore :: "nat \<Rightarrow> Item list \<Rightarrow> Item list \<Rightarrow> Item list" where
  "insertBefore anchor new [] = []"
| "insertBefore anchor new (item # items) =
     (if itemId item = anchor then new @ item # items
      else item # insertBefore anchor new items)"

fun insertAfter :: "nat \<Rightarrow> Item list \<Rightarrow> Item list \<Rightarrow> Item list" where
  "insertAfter anchor new [] = []"
| "insertAfter anchor new (item # items) =
     (if itemId item = anchor then item # new @ items
      else item # insertAfter anchor new items)"

definition insertAt :: "InsertionPoint \<Rightarrow> Item \<Rightarrow> IRRewriter \<Rightarrow> IRRewriter" where
  "insertAt point item rewriter =
     (case point of
        Before anchor \<Rightarrow>
          if anchor \<in> set (map itemId (irBlock rewriter))
            then rewriter\<lparr>irBlock := insertBefore anchor [item] (irBlock rewriter)\<rparr>
          else rewriter\<lparr>createdElsewhere := createdElsewhere rewriter @ [(point, item)]\<rparr>
      | After anchor \<Rightarrow>
          if anchor \<in> set (map itemId (irBlock rewriter))
            then rewriter\<lparr>irBlock := insertAfter anchor [item] (irBlock rewriter)\<rparr>
          else rewriter\<lparr>createdElsewhere := createdElsewhere rewriter @ [(point, item)]\<rparr>
      | StartOfBlock b \<Rightarrow>
          rewriter\<lparr>createdElsewhere := createdElsewhere rewriter @ [(point, item)]\<rparr>)"

text \<open>Creating a plain operation at an insertion point; its first result is returned.\<close>

definition createOp :: "InsertionPoint \<Rightarrow> Op \<Rightarrow> IRRewriter \<Rightarrow> SSAValue \<times> IRRewriter" where
  "createOp point operation rewriter =
     (OpResultOf (nextId rewriter) 0,
      insertAt point (Plain (nextId rewriter) operation)
        (rewriter\<lparr>nextId := Suc (nextId rewriter)\<rparr>))"

definition replaceAllUsesExcept :: "SSAValue \<Rightarrow> SSAValue \<Rightarrow> nat list \<Rightarrow> IRRewriter \<Rightarrow> IRRewriter" where
  "replaceAllUsesExcept from to except rewriter =
     rewriter\<lparr>irBlock := map (replaceUsesInItem except from to) (irBlock rewriter),
              createdElsewhere :=
                map (\<lambda>(point, item). (point, replaceUsesInItem except from to item))
                  (createdElsewhere rewriter)\<rparr>"

definition replaceAllUsesWith :: "SSAValue \<Rightarrow> SSAValue \<Rightarrow> IRRewriter \<Rightarrow> IRRewriter" where
  "replaceAllUsesWith from to rewriter = replaceAllUsesExcept from to [] rewriter"

text \<open>Erasing an operation: out of the edited block when it is there (also out of the
  region of an \<open>in_parallel\<close> of the block), noted as erased otherwise.\<close>

fun eraseInItem :: "nat \<Rightarrow> Item \<Rightarrow> Item" where
  "eraseInItem i (InParallel j yielding) = InParallel j (filter (\<lambda>(k, operation). k \<noteq> i) yielding)"
| "eraseInItem i item = item"

definition eraseOp :: "nat \<Rightarrow> IRRewriter \<Rightarrow> IRRewriter" where
  "eraseOp i rewriter =
     rewriter\<lparr>irBlock := map (eraseInItem i) (filter (\<lambda>item. itemId item \<noteq> i) (irBlock rewriter)),
              erasedOps := erasedOps rewriter @ [i]\<rparr>"

text \<open>
  \<open>inlineBlockBefore (source, op, argValues)\<close>: the uses of the arguments of the source
  block are replaced by the given values, one argument after the other, in the
  operations of the block, which are then moved in front of \<open>op\<close>; the source block is
  erased. The operations of the source block are passed with the block, and are
  returned as they are after the replacement.
\<close>

fun replaceBlockArguments :: "nat \<Rightarrow> nat \<Rightarrow> SSAValue list \<Rightarrow> Item list \<Rightarrow> Item list" where
  "replaceBlockArguments block k [] items = items"
| "replaceBlockArguments block k (v # argValues) items =
     replaceBlockArguments block (Suc k) argValues
       (map (replaceUsesInItem [] (BlockArgumentOf block k) v) items)"

definition inlineBlockBefore ::
  "nat \<Rightarrow> nat \<Rightarrow> Item list \<Rightarrow> nat \<Rightarrow> SSAValue list \<Rightarrow> IRRewriter \<Rightarrow>
   crash + (Item list \<times> IRRewriter)" where
  "inlineBlockBefore block numArguments blockItems anchor argValues rewriter =
     (if length argValues \<noteq> numArguments then Inl AssertionFailed
      else
        let inlined = replaceBlockArguments block 0 argValues blockItems in
        Inr (inlined,
             (if anchor \<in> set (map itemId (irBlock rewriter))
                then rewriter\<lparr>irBlock := insertBefore anchor inlined (irBlock rewriter)\<rparr>
              else rewriter\<lparr>createdElsewhere :=
                     createdElsewhere rewriter @ map (\<lambda>item. (Before anchor, item)) inlined\<rparr>)
             \<lparr>erasedBlocks := erasedBlocks rewriter @ [block]\<rparr>))"

text \<open>\<open>setInsertionPointAfterValue\<close>: after the operation that defines the value, or at
  the start of the block whose argument it is. An argument of an erased block is a
  dangling value.\<close>

definition setInsertionPointAfterValue :: "SSAValue \<Rightarrow> IRRewriter \<Rightarrow> crash + InsertionPoint" where
  "setInsertionPointAfterValue v rewriter =
     (case v of
        OpResultOf i k \<Rightarrow> Inr (After i)
      | BlockArgumentOf b k \<Rightarrow>
          if b \<in> set (erasedBlocks rewriter) then Inl DanglingValue else Inr (StartOfBlock b))"

section \<open>LowerShuffleTensor\<close>

text \<open>
  The pattern is applied to the \<open>ShuffleTensorOp\<close> of identity \<open>shuffleId\<close> in the edited
  block, with the insertion point in front of it. The terminator of the body is its
  last operation. After the body is inlined the shuffle operation is left in the block
  with its region emptied and its result unused.
\<close>

definition getTerminator :: "(nat \<times> Op) list \<Rightarrow> crash + (nat \<times> Op)" where
  "getTerminator body = (if body = [] then Inl AssertionFailed else Inr (last body))"

definition emptyBodyOf :: "nat \<Rightarrow> Item \<Rightarrow> Item" where
  "emptyBodyOf shuffleId item =
     (case item of
        ShuffleTensor i shuffleOp \<Rightarrow>
          if i = shuffleId then ShuffleTensor i (shuffleOp\<lparr>getBody := []\<rparr>) else item
      | _ \<Rightarrow> item)"

definition LowerShuffleTensor ::
  "nat \<Rightarrow> ShuffleTensorOp \<Rightarrow> IRRewriter \<Rightarrow> crash + (LogicalResult \<times> IRRewriter)" where
  "LowerShuffleTensor shuffleId shuffleOp rewriter =
     (let sourceOffsets = getMixedOffsets shuffleOp;
          sourceSizes = getMixedSizes shuffleOp;
          sourceStrides = getMixedStrides shuffleOp in
      case createOp (Before shuffleId)
             (InsertSliceOp (getSource shuffleOp) (getDest shuffleOp) sourceOffsets sourceSizes
                sourceStrides) rewriter of
        (insertedSlice, rewriter1) \<Rightarrow>
      case createOp (Before shuffleId) (ValueBarrierOp insertedSlice) rewriter1 of
        (writeBarrier, rewriter2) \<Rightarrow>
      andThen (getTerminator (getBody shuffleOp)) (\<lambda>terminator.
      andThen (at (getOperands (snd terminator)) 0) (\<lambda>replacement.
      andThen (inlineBlockBefore (getBodyBlock shuffleOp) 1
                 (map (\<lambda>(i, operation). Plain i operation) (getBody shuffleOp)) shuffleId
                 [writeBarrier]
                 (rewriter2\<lparr>irBlock := map (emptyBodyOf shuffleId) (irBlock rewriter2)\<rparr>))
        (\<lambda>(inlined, rewriter3).
      andThen (setInsertionPointAfterValue replacement rewriter3) (\<lambda>point.
      case createOp point (ValueBarrierOp replacement) rewriter3 of
        (barrier, rewriter4) \<Rightarrow>
      Inr (success,
           eraseOp (fst terminator)
             (replaceAllUsesWith (OpResultOf shuffleId 0) barrier rewriter4)))))))"

section \<open>Forall fusion\<close>

text \<open>
  Modelled from the spec: the worker-parallel region \<open>scf::ForallOp\<close> is declared by the
  compiler substrate. It has, per axis, a lower bound, an upper bound and a step, each
  static or dynamic (the static arrays hold \<open>kDynamic\<close> where the entry is dynamic, and
  the dynamic values are listed apart); a mapping label per axis; results and the
  outputs they come from; and a body whose block arguments are the induction variables
  followed by the outputs, ended by the terminator \<open>in_parallel\<close> that holds the
  partial writes.
\<close>

datatype DeviceMappingAttr =
    GPUThreadMappingAttr nat
  | GPUWarpMappingAttr nat
  | OtherMappingAttr nat

record ForallOp =
  getForallId :: nat
  getStaticLowerBound :: "int list"
  getStaticUpperBound :: "int list"
  getStaticStep :: "int list"
  getDynamicLowerBound :: "SSAValue list"
  getDynamicUpperBound :: "SSAValue list"
  getDynamicStep :: "SSAValue list"
  getMappingAttr :: "DeviceMappingAttr list"
  getNumOpResults :: nat
  getOutputs :: "SSAValue list"
  getForallBlock :: nat
  getForallBody :: "(nat \<times> Op) list"
  getTerminatorId :: nat
  getYieldingOps :: "(nat \<times> Op) list"

definition getForallRank :: "ForallOp \<Rightarrow> nat" where
  "getForallRank loop = length (getStaticLowerBound loop)"

definition getInductionVars :: "ForallOp \<Rightarrow> SSAValue list" where
  "getInductionVars loop = map (BlockArgumentOf (getForallBlock loop)) [0..<getForallRank loop]"

text \<open>\<open>getMixedValues\<close>: the static entries as attributes, with the dynamic values in the
  places of the \<open>kDynamic\<close> entries.\<close>

fun getMixedValues :: "int list \<Rightarrow> SSAValue list \<Rightarrow> crash + OpFoldResult list" where
  "getMixedValues [] dynamicValues = Inr []"
| "getMixedValues (staticValue # staticValues) dynamicValues =
     (if isDynamic staticValue then
        (case dynamicValues of
           [] \<Rightarrow> Inl IndexOutOfRange
         | v # rest \<Rightarrow>
             andThen (getMixedValues staticValues rest) (\<lambda>mixed. Inr (ValueOf v # mixed)))
      else
        andThen (getMixedValues staticValues dynamicValues)
          (\<lambda>mixed. Inr (IntegerAttr staticValue # mixed)))"

definition getMixedLowerBound :: "ForallOp \<Rightarrow> crash + OpFoldResult list" where
  "getMixedLowerBound loop = getMixedValues (getStaticLowerBound loop) (getDynamicLowerBound loop)"

definition getMixedUpperBound :: "ForallOp \<Rightarrow> crash + OpFoldResult list" where
  "getMixedUpperBound loop = getMixedValues (getStaticUpperBound loop) (getDynamicUpperBound loop)"

definition getMixedStep :: "ForallOp \<Rightarrow> crash + OpFoldResult list" where
  "getMixedStep loop = getMixedValues (getStaticStep loop) (getDynamicStep loop)"

subsection \<open>getTripCount and compareWorkerCountsAndTypes\<close>

text \<open>
  \<open>getTripCount\<close> computes in \<open>int64_t\<close>. The bounds and the steps are integers of that
  range; what the arithmetic produces is brought back into the range by \<open>wrap64\<close>, the
  wrap-around of two's complement: the difference of the bounds, the value of
  \<open>mlir::ceilDiv\<close> and the running product of the trip count.

  \<open>mlir::ceilDiv\<close> divides with the division of C++, which rounds towards zero; it
  expects a divisor that is not zero.
\<close>

definition wrap64 :: "int \<Rightarrow> int" where
  "wrap64 x = (x + 2 ^ 63) mod 2 ^ 64 - 2 ^ 63"

definition truncDiv :: "int \<Rightarrow> int \<Rightarrow> int" where
  "truncDiv a b = sgn a * sgn b * (\<bar>a\<bar> div \<bar>b\<bar>)"

definition ceilDiv :: "int \<Rightarrow> int \<Rightarrow> crash + int" where
  "ceilDiv lhs rhs =
     (if rhs = 0 then Inl AssertionFailed
      else
        let x = (if rhs > 0 then - 1 else 1) in
        Inr (if lhs \<noteq> 0 \<and> ((lhs > 0) = (rhs > 0))
               then wrap64 (truncDiv (wrap64 (lhs + x)) rhs + 1)
             else wrap64 (- truncDiv (wrap64 (- lhs)) rhs)))"

fun tripCountLoop :: "int \<Rightarrow> (int \<times> int \<times> int) list \<Rightarrow> crash + int" where
  "tripCountLoop tripCount [] = Inr tripCount"
| "tripCountLoop tripCount ((lb, ub, step) # rest) =
     andThen (ceilDiv (wrap64 (ub - lb)) step)
       (\<lambda>count. tripCountLoop (wrap64 (tripCount * count)) rest)"

text \<open>\<open>llvm::zip_equal\<close> asserts that its ranges have the same length.\<close>

definition zip_equal :: "'a list \<Rightarrow> 'b list \<Rightarrow> crash + ('a \<times> 'b) list" where
  "zip_equal xs ys = (if length xs = length ys then Inr (zip xs ys) else Inl AssertionFailed)"

definition getTripCount :: "ForallOp \<Rightarrow> crash + int option" where
  "getTripCount loop =
     (let lbs = getStaticLowerBound loop;
          ubs = getStaticUpperBound loop;
          steps = getStaticStep loop in
      if isDynamicShape lbs \<or> isDynamicShape ubs \<or> isDynamicShape steps then Inr None
      else
        andThen (zip_equal ubs steps) (\<lambda>ubsSteps.
        andThen (zip_equal lbs ubsSteps) (\<lambda>triples.
        andThen (tripCountLoop 1 triples) (\<lambda>tripCount. Inr (Some tripCount)))))"

definition checkMappingTypes :: "DeviceMappingAttr list \<Rightarrow> bool" where
  "checkMappingTypes array =
     (list_all (\<lambda>a. case a of GPUThreadMappingAttr d \<Rightarrow> True | _ \<Rightarrow> False) array \<or>
      list_all (\<lambda>a. case a of GPUWarpMappingAttr d \<Rightarrow> True | _ \<Rightarrow> False) array)"

definition compareWorkerCountsAndTypes :: "ForallOp \<Rightarrow> ForallOp \<Rightarrow> crash + LogicalResult" where
  "compareWorkerCountsAndTypes producer consumer =
     andThen (getTripCount producer) (\<lambda>producerTripCount.
     andThen (getTripCount consumer) (\<lambda>consumerTripCount.
     if producerTripCount = None \<or> consumerTripCount = None \<or>
        the producerTripCount \<noteq> the consumerTripCount
       then Inr (failure [])
     else if getMappingAttr producer \<noteq> getMappingAttr consumer \<or>
             \<not> checkMappingTypes (getMappingAttr producer) \<or>
             \<not> checkMappingTypes (getMappingAttr consumer)
       then Inr (failure [])
     else Inr success))"

subsection \<open>replaceConsumerChain and fuseForallIntoSlice\<close>

text \<open>
  \<open>isConstantIntValue\<close> of an attribute compares its integer; of a value it asks whether
  a constant operation defines the value, which \<open>constantOf\<close> answers.
\<close>

definition isConstantIntValue :: "(SSAValue \<Rightarrow> int option) \<Rightarrow> OpFoldResult \<Rightarrow> int \<Rightarrow> bool" where
  "isConstantIntValue constantOf ofr cmp =
     (case ofr of
        IntegerAttr i \<Rightarrow> i = cmp
      | ValueOf v \<Rightarrow> constantOf v = Some cmp
      | MulAdd a b c \<Rightarrow> False)"

definition isAll :: "(SSAValue \<Rightarrow> int option) \<Rightarrow> OpFoldResult list \<Rightarrow> int \<Rightarrow> bool" where
  "isAll constantOf array cmp = list_all (\<lambda>val. isConstantIntValue constantOf val cmp) array"

text \<open>The loop that folds the linear worker id:
  \<open>linearId = makeComposedFoldedAffineApply (d0 * d1 + d2, {linearId, workerCount, inductionVar})\<close>.\<close>

fun foldLinearId :: "OpFoldResult \<Rightarrow> (OpFoldResult \<times> OpFoldResult) list \<Rightarrow> OpFoldResult" where
  "foldLinearId linearId [] = linearId"
| "foldLinearId linearId ((inductionVar, workerCount) # rest) =
     foldLinearId (MulAdd linearId workerCount inductionVar) rest"

definition getValueOrCreateConstantIndexOp ::
  "InsertionPoint \<Rightarrow> OpFoldResult \<Rightarrow> IRRewriter \<Rightarrow> OpFoldResult \<times> IRRewriter" where
  "getValueOrCreateConstantIndexOp point ofr rewriter =
     (case ofr of
        IntegerAttr i \<Rightarrow>
          (case createOp point (ConstantIndexOp i) rewriter of (v, rewriter1) \<Rightarrow> (ValueOf v, rewriter1))
      | _ \<Rightarrow> (ofr, rewriter))"

fun createRanges :: "InsertionPoint \<Rightarrow> int list \<Rightarrow> IRRewriter \<Rightarrow> SSAValue list \<times> IRRewriter" where
  "createRanges point [] rewriter = ([], rewriter)"
| "createRanges point (workerCount # rest) rewriter =
     (case createOp point (ConstantIndexOp workerCount) rewriter of
        (v, rewriter1) \<Rightarrow>
          (case createRanges point rest rewriter1 of (vs, rewriter2) \<Rightarrow> (v # vs, rewriter2)))"

text \<open>Creating the delinearization: it has one result per range.\<close>

definition createDelinearizeIndex ::
  "InsertionPoint \<Rightarrow> OpFoldResult \<Rightarrow> SSAValue list \<Rightarrow> IRRewriter \<Rightarrow> SSAValue list \<times> IRRewriter" where
  "createDelinearizeIndex point linearIndex ranges rewriter =
     (map (OpResultOf (nextId rewriter)) [0..<length ranges],
      insertAt point (Plain (nextId rewriter) (AffineDelinearizeIndexOp linearIndex ranges))
        (rewriter\<lparr>nextId := Suc (nextId rewriter)\<rparr>))"

text \<open>Moving an operation of the edited block to the end of a list of operations.\<close>

definition takeFromBlock :: "nat \<Rightarrow> IRRewriter \<Rightarrow> IRRewriter" where
  "takeFromBlock i rewriter =
     rewriter\<lparr>irBlock := filter (\<lambda>item. itemId item \<noteq> i) (irBlock rewriter)\<rparr>"

definition replaceConsumerChain ::
  "InsertionPoint \<Rightarrow> SSAValue \<Rightarrow> Op \<Rightarrow> (nat \<times> Op) list \<Rightarrow> IRRewriter \<Rightarrow> crash + IRRewriter" where
  "replaceConsumerChain point source parallelInsert consumerChain rewriter =
     (case (parallelInsert, snd (last consumerChain)) of
        (ParallelInsertSliceOp insertSource insertDest offsets sizes strides,
         ExtractSliceOp sliceSource sliceOffsets sliceSizes sliceStrides) \<Rightarrow>
          let extractSliceId = fst (last consumerChain);
              shuffleId = nextId rewriter;
              bodyBlock = Suc (nextId rewriter);
              terminatorId = Suc (Suc (nextId rewriter));
              terminator = (terminatorId, YieldOp (OpResultOf extractSliceId 0));
              moved = foldl (\<lambda>r consumer. takeFromBlock (fst consumer) r)
                        (rewriter\<lparr>nextId := Suc (Suc (Suc (nextId rewriter)))\<rparr>) consumerChain;
              chain = (fst (hd consumerChain),
                       replaceUsesOfWith source (BlockArgumentOf bodyBlock 0)
                         (snd (hd consumerChain))) # tl consumerChain;
              shuffleOp = \<lparr>getSource = insertSource, getDest = insertDest,
                           getMixedOffsets = offsets, getMixedSizes = sizes,
                           getMixedStrides = strides, getBodyBlock = bodyBlock,
                           getBody = chain @ [terminator]\<rparr>
          in Inr (replaceAllUsesExcept (OpResultOf extractSliceId 0) (OpResultOf shuffleId 0)
                    [terminatorId]
                    (insertAt point (ShuffleTensor shuffleId shuffleOp) moved))
      | _ \<Rightarrow> Inl CastFailed)"

definition fuseForallIntoSlice ::
  "(SSAValue \<Rightarrow> int option) \<Rightarrow> IRRewriter \<Rightarrow> ForallOp \<Rightarrow> ForallOp \<Rightarrow> (nat \<times> Op) list \<Rightarrow>
   crash + (LogicalResult \<times> IRRewriter)" where
  "fuseForallIntoSlice constantOf rewriter producer consumer consumerChain =
     (if consumerChain = [] then Inr (failure [], rewriter)
      else
        case snd (last consumerChain) of
          ExtractSliceOp sliceSource sliceOffsets sliceSizes sliceStrides \<Rightarrow>
            let slice = fst (last consumerChain) in
            if getNumOpResults producer \<noteq> 1 then Inr (failure [], rewriter)
            else
              andThen (compareWorkerCountsAndTypes producer consumer) (\<lambda>compared.
              if failed compared then Inr (failure [], rewriter)
              else
                andThen (getMixedStep producer) (\<lambda>producerStep.
                andThen (getMixedLowerBound producer) (\<lambda>producerLowerBound.
                andThen (getMixedStep consumer) (\<lambda>consumerStep.
                andThen (getMixedLowerBound consumer) (\<lambda>consumerLowerBound.
                if \<not> isAll constantOf producerStep 1 \<or>
                   \<not> isAll constantOf producerLowerBound 0 \<or>
                   \<not> isAll constantOf consumerStep 1 \<or>
                   \<not> isAll constantOf consumerLowerBound 0
                  then Inr (failure [], rewriter)
                else
                  andThen (getMixedUpperBound consumer) (\<lambda>consumerUpperBound.
                  andThen (zip_equal (map ValueOf (getInductionVars consumer)) consumerUpperBound)
                    (\<lambda>idsAndCounts.
                  let linearId = foldLinearId (IntegerAttr 0) idsAndCounts in
                  case getValueOrCreateConstantIndexOp (Before slice) linearId rewriter of
                    (linearThreadIdVal, rewriter1) \<Rightarrow>
                  case createRanges (Before slice) (getStaticUpperBound producer) rewriter1 of
                    (ranges, rewriter2) \<Rightarrow>
                  case createDelinearizeIndex (Before slice) linearThreadIdVal ranges rewriter2 of
                    (newIds, rewriter3) \<Rightarrow>
                  let bbArgReplacements = newIds @ getOutputs producer;
                      terminator = getTerminatorId producer in
                  andThen (inlineBlockBefore (getForallBlock producer)
                             (getForallRank producer + length (getOutputs producer))
                             (map (\<lambda>(i, operation). Plain i operation) (getForallBody producer) @
                              [InParallel terminator (getYieldingOps producer)])
                             slice bbArgReplacements rewriter3) (\<lambda>(inlined, rewriter4).
                  case last inlined of
                    InParallel i [] \<Rightarrow> Inl AssertionFailed
                  | InParallel i (parallelInsert # moreYielding) \<Rightarrow>
                  andThen (replaceConsumerChain (After terminator)
                             (OpResultOf (getForallId producer) 0) (snd parallelInsert)
                             consumerChain rewriter4) (\<lambda>rewriter5.
                  Inr (success,
                       eraseOp (getForallId producer)
                         (eraseOp terminator (eraseOp (fst parallelInsert) rewriter5))))
                  | _ \<Rightarrow> Inl CastFailed))))))))
        | _ \<Rightarrow> Inr (failure [], rewriter))"

subsection \<open>Well-formed bounds\<close>

text \<open>
  A worker-parallel region has as many lower bounds as upper bounds and steps, and its
  static steps are not zero: \<open>getTripCount\<close> divides by them. An operation is a slice
  extraction when \<open>dyn_cast<tensor::ExtractSliceOp>\<close> succeeds on it.
\<close>

definition hasValidBounds :: "ForallOp \<Rightarrow> bool" where
  "hasValidBounds loop \<longleftrightarrow>
     length (getStaticLowerBound loop) = length (getStaticUpperBound loop) \<and>
     length (getStaticUpperBound loop) = length (getStaticStep loop) \<and>
     0 \<notin> set (getStaticStep loop)"

definition isExtractSliceOp :: "Op \<Rightarrow> bool" where
  "isExtractSliceOp operation =
     (case operation of ExtractSliceOp source offsets sizes strides \<Rightarrow> True | _ \<Rightarrow> False)"

subsection \<open>The result of the fusion\<close>

text \<open>
  The index that an \<open>OpFoldResult\<close> denotes when the values are given integers:
  \<open>MulAdd a b c\<close> denotes \<open>a * b + c\<close>, the expression \<open>d0 * d1 + d2\<close> that
  \<open>fuseForallIntoSlice\<close> passes to \<open>makeComposedFoldedAffineApply\<close>.
\<close>

fun evalFoldResult :: "(SSAValue \<Rightarrow> int) \<Rightarrow> OpFoldResult \<Rightarrow> int" where
  "evalFoldResult env (IntegerAttr i) = i"
| "evalFoldResult env (ValueOf v) = env v"
| "evalFoldResult env (MulAdd a b c) =
     evalFoldResult env a * evalFoldResult env b + evalFoldResult env c"

text \<open>
  What \<open>inlineBlockBefore\<close> makes of the operations of the inlined block: the uses of
  the arguments of the block are replaced by the given values, one argument after the
  other (\<open>replaceBlockArguments\<close> on a list of operations).
\<close>

fun substituteArguments :: "nat \<Rightarrow> nat \<Rightarrow> SSAValue list \<Rightarrow> (nat \<times> Op) list \<Rightarrow> (nat \<times> Op) list" where
  "substituteArguments block k [] operations = operations"
| "substituteArguments block k (v # argValues) operations =
     substituteArguments block (Suc k) argValues
       (replaceUsesInOps [] (BlockArgumentOf block k) v operations)"

text \<open>
  The identities stand for addresses, so they are unique: the operations of the
  producer (the region, its terminator, the operations of its body and of the region of
  its terminator) have distinct identities, none of them is the identity of an operation
  of the edited block, and all are below the identity of the next operation created.
\<close>

fun opIds :: "Item \<Rightarrow> nat list" where
  "opIds (Plain i operation) = [i]"
| "opIds (InParallel i yielding) = i # map fst yielding"
| "opIds (ShuffleTensor i shuffleOp) = i # map fst (getBody shuffleOp)"

definition producerIds :: "ForallOp \<Rightarrow> nat list" where
  "producerIds producer =
     getForallId producer # getTerminatorId producer #
     map fst (getForallBody producer) @ map fst (getYieldingOps producer)"

definition uniqueIds :: "IRRewriter \<Rightarrow> ForallOp \<Rightarrow> bool" where
  "uniqueIds rewriter producer \<longleftrightarrow>
     distinct (producerIds producer) \<and>
     list_all (\<lambda>i. i < nextId rewriter)
       (producerIds producer @ concat (map opIds (irBlock rewriter))) \<and>
     list_all (\<lambda>i. i \<notin> set (concat (map opIds (irBlock rewriter)))) (producerIds producer)"

subsection \<open>Regions to run the definitions on\<close>

text \<open>
  \<open>identityShuffle\<close> is a \<open>ShuffleTensorOp\<close> whose body yields its block argument;
  \<open>sliceShuffle\<close> has a body that extracts a slice of the argument and yields it. Both
  sit in a block (as operation \<open>10\<close>) in front of an operation that uses their result.
  \<open>producer4\<close> and \<open>consumer4\<close> are two worker-parallel regions of four threads along
  one axis; the producer writes what it computes into its output, the body of the
  consumer extracts a slice of the producer's result and uses it.
\<close>

definition identityShuffle :: ShuffleTensorOp where
  "identityShuffle =
     \<lparr>getSource = OpResultOf 1 0, getDest = OpResultOf 2 0,
      getMixedOffsets = [IntegerAttr 0], getMixedSizes = [IntegerAttr 4],
      getMixedStrides = [IntegerAttr 1], getBodyBlock = 11,
      getBody = [(12, YieldOp (BlockArgumentOf 11 0))]\<rparr>"

definition sliceShuffle :: ShuffleTensorOp where
  "sliceShuffle =
     \<lparr>getSource = OpResultOf 1 0, getDest = OpResultOf 2 0,
      getMixedOffsets = [IntegerAttr 0], getMixedSizes = [IntegerAttr 4],
      getMixedStrides = [IntegerAttr 1], getBodyBlock = 11,
      getBody = [(12, ExtractSliceOp (BlockArgumentOf 11 0) [IntegerAttr 0] [IntegerAttr 2]
                        [IntegerAttr 1]),
                 (13, YieldOp (OpResultOf 12 0))]\<rparr>"

definition blockWith :: "ShuffleTensorOp \<Rightarrow> IRRewriter" where
  "blockWith shuffleOp =
     \<lparr>irBlock = [ShuffleTensor 10 shuffleOp, Plain 14 (OtherOp ''use'' [OpResultOf 10 0])],
      nextId = 20, erasedBlocks = [], erasedOps = [], createdElsewhere = []\<rparr>"

definition producer4 :: ForallOp where
  "producer4 =
     \<lparr>getForallId = 30,
      getStaticLowerBound = [0], getStaticUpperBound = [4], getStaticStep = [1],
      getDynamicLowerBound = [], getDynamicUpperBound = [], getDynamicStep = [],
      getMappingAttr = [GPUThreadMappingAttr 0], getNumOpResults = 1,
      getOutputs = [OpResultOf 1 0], getForallBlock = 31,
      getForallBody = [(32, OtherOp ''compute'' [BlockArgumentOf 31 0])],
      getTerminatorId = 33,
      getYieldingOps =
        [(34, ParallelInsertSliceOp (OpResultOf 32 0) (BlockArgumentOf 31 1)
                [ValueOf (BlockArgumentOf 31 0)] [IntegerAttr 1] [IntegerAttr 1])]\<rparr>"

definition consumer4 :: ForallOp where
  "consumer4 =
     \<lparr>getForallId = 40,
      getStaticLowerBound = [0], getStaticUpperBound = [4], getStaticStep = [1],
      getDynamicLowerBound = [], getDynamicUpperBound = [], getDynamicStep = [],
      getMappingAttr = [GPUThreadMappingAttr 0], getNumOpResults = 1,
      getOutputs = [OpResultOf 3 0], getForallBlock = 41,
      getForallBody = [], getTerminatorId = 44, getYieldingOps = []\<rparr>"

definition slice42 :: "nat \<times> Op" where
  "slice42 =
     (42, ExtractSliceOp (OpResultOf 30 0) [ValueOf (BlockArgumentOf 41 0)] [IntegerAttr 1]
            [IntegerAttr 1])"

definition consumerBlock :: IRRewriter where
  "consumerBlock =
     \<lparr>irBlock = [Plain (fst slice42) (snd slice42), Plain 43 (OtherOp ''use'' [OpResultOf 42 0])],
      nextId = 50, erasedBlocks = [], erasedOps = [], createdElsewhere = []\<rparr>"

definition noConstants :: "SSAValue \<Rightarrow> int option" where
  "noConstants v = None"


definition producerDynamic :: ForallOp where
  "producerDynamic =
     producer4\<lparr>getStaticUpperBound := [kDynamic], getDynamicUpperBound := [OpResultOf 4 0]\<rparr>"

text \<open>The producer with \<open>2 ^ 32\<close> workers along each of two axes: the product of its
  counts is \<open>2 ^ 64\<close>, which is zero in \<open>int64_t\<close>.\<close>

definition producerHuge :: ForallOp where
  "producerHuge =
     producer4\<lparr>getStaticLowerBound := [0, 0], getStaticUpperBound := [2 ^ 32, 2 ^ 32],
               getStaticStep := [1, 1]\<rparr>"

section \<open>Iteration bounds\<close>

lemma getResultIndexFrom_found:
  assumes "0 \<le> i" "0 \<le> getResultIndexFrom i es e"
  shows "\<exists>k. getResultIndexFrom i es e = i + int k \<and> k < length es \<and> es ! k = e \<and> (\<forall>j<k. es ! j \<noteq> e)"
  using assms
proof (induction es arbitrary: i)
  case Nil
  then show ?case by simp
next
  case (Cons x es)
  show ?case
  proof (cases "e = x")
    case True
    then show ?thesis by (intro exI[of _ 0]) simp
  next
    case False
    with Cons.prems have "0 \<le> getResultIndexFrom (i + 1) es e" by simp
    with Cons.IH[of "i + 1"] Cons.prems obtain k where
      k: "getResultIndexFrom (i + 1) es e = i + 1 + int k" "k < length es" "es ! k = e" "\<forall>j<k. es ! j \<noteq> e"
      by auto
    show ?thesis
      using k False by (intro exI[of _ "Suc k"]) (auto simp: less_Suc_eq_0_disj)
  qed
qed

lemma getResultIndexFrom_first:
  assumes "k < length es" "es ! k = e" "\<forall>j<k. es ! j \<noteq> e"
  shows "getResultIndexFrom i es e = i + int k"
  using assms
proof (induction es arbitrary: i k)
  case Nil
  then show ?case by simp
next
  case (Cons x es)
  show ?case
  proof (cases k)
    case 0
    with Cons.prems show ?thesis by simp
  next
    case (Suc k')
    with Cons.prems have "x \<noteq> e" by auto
    moreover have "getResultIndexFrom (i + 1) es e = i + 1 + int k'"
      using Cons.prems Suc by (intro Cons.IH) auto
    ultimately show ?thesis using Suc by simp
  qed
qed

lemma iterationBoundsFrom_Inr:
  "iterationBoundsFrom op idx ts = Inr bs \<longleftrightarrow>
     length bs = length ts \<and> (\<forall>i<length ts. iterationBound op (idx + i) (ts ! i) = Inr (bs ! i))"
proof (induction ts arbitrary: idx bs)
  case Nil
  then show ?case by auto
next
  case (Cons t ts)
  show ?case
  proof (cases bs)
    case Nil
    then show ?thesis by (auto split: sum.splits)
  next
    case (Cons b bs')
    then show ?thesis
      using Cons.IH[of "Suc idx" bs']
      by (auto split: sum.splits simp: less_Suc_eq_0_disj)
  qed
qed


lemma getResultIndex_nonneg_iff:
  "0 \<le> getResultIndex m e \<and> getResultIndex m e = int k \<longleftrightarrow>
     k < length (getResults m) \<and> getResults m ! k = e \<and> (\<forall>j<k. getResults m ! j \<noteq> e)"
  unfolding getResultIndex_def
  using getResultIndexFrom_found[of 0 "getResults m" e] getResultIndexFrom_first[of k "getResults m" e 0]
  by auto

lemma at_Inr_iff: "at xs i = Inr x \<longleftrightarrow> 0 \<le> i \<and> i < int (length xs) \<and> xs ! nat i = x"
  by (auto simp: at_def)

lemma iterationBound_Inr:
  "iterationBound op i t = Inr b \<longleftrightarrow>
     (\<exists>m k. at (getIndexingMapsArray op) (if t = reduction then 0 else 2) = Inr m \<and>
            k < length (getResults m) \<and> getResults m ! k = AffineDimExpr i \<and>
            (\<forall>j<k. getResults m ! j \<noteq> AffineDimExpr i) \<and>
            at (getShape (if t = reduction then getLhsType op else getResultType op)) (int k) = Inr b)"
  (is "?L \<longleftrightarrow> ?R")
proof
  assume L: ?L
  define mi :: int where "mi = (if t = reduction then 0 else 2)"
  from L obtain m where m: "at (getIndexingMapsArray op) mi = Inr m"
    by (auto simp: iterationBound_def mi_def Let_def split: sum.splits if_splits)
  from L m have nn: "0 \<le> getResultIndex m (AffineDimExpr i)"
    by (auto simp: iterationBound_def mi_def Let_def split: sum.splits if_splits)
  then obtain k where k: "getResultIndex m (AffineDimExpr i) = int k"
    using nonneg_int_cases by blast
  with nn have kk: "k < length (getResults m)" "getResults m ! k = AffineDimExpr i"
      "\<forall>j<k. getResults m ! j \<noteq> AffineDimExpr i"
    using getResultIndex_nonneg_iff[of m "AffineDimExpr i" k] by auto
  from L m k have "at (getShape (if t = reduction then getLhsType op else getResultType op)) (int k) = Inr b"
    by (auto simp: iterationBound_def mi_def Let_def split: sum.splits if_splits)
  with m kk show ?R unfolding mi_def by blast
next
  assume ?R
  then obtain m k where m: "at (getIndexingMapsArray op) (if t = reduction then 0 else 2) = Inr m"
    and kk: "k < length (getResults m)" "getResults m ! k = AffineDimExpr i"
      "\<forall>j<k. getResults m ! j \<noteq> AffineDimExpr i"
    and b: "at (getShape (if t = reduction then getLhsType op else getResultType op)) (int k) = Inr b"
    by blast
  from kk have "getResultIndex m (AffineDimExpr i) = int k"
    using getResultIndex_nonneg_iff[of m "AffineDimExpr i" k] by auto
  with m b show ?L
    by (auto simp: iterationBound_def Let_def split: if_splits)
qed

text \<open>
  Claim C5. The derived iteration bounds have one entry per iterator position, in the
  declared order. The entry of a reduction position \<open>i\<close> is the entry of the lhs shape at
  the (first) result of the lhs map that is the dimension \<open>i\<close>; the entry of a parallel
  position is the entry of the result type's shape, which is the accumulator's type, at
  the result of the accumulator map that is the dimension \<open>i\<close>. The derivation returns
  such a sequence exactly when every iterator's dimension is found that way; otherwise
  it aborts.
\<close>

theorem getIterationBounds_spec:
  "getIterationBounds op = Inr bounds \<longleftrightarrow>
     length bounds = length (getIteratorTypes op) \<and>
     (\<forall>i<length (getIteratorTypes op).
        (getIteratorTypes op ! i = reduction \<longrightarrow>
           (\<exists>lhsMap k. at (getIndexingMapsArray op) 0 = Inr lhsMap \<and>
              k < length (getResults lhsMap) \<and> getResults lhsMap ! k = AffineDimExpr i \<and>
              (\<forall>j<k. getResults lhsMap ! j \<noteq> AffineDimExpr i) \<and>
              at (getShape (getLhsType op)) (int k) = Inr (bounds ! i))) \<and>
        (getIteratorTypes op ! i = parallel \<longrightarrow>
           (\<exists>accMap k. at (getIndexingMapsArray op) 2 = Inr accMap \<and>
              k < length (getResults accMap) \<and> getResults accMap ! k = AffineDimExpr i \<and>
              (\<forall>j<k. getResults accMap ! j \<noteq> AffineDimExpr i) \<and>
              at (getShape (getResultType op)) (int k) = Inr (bounds ! i))))"
proof -
  have kind: "t = parallel \<longleftrightarrow> t \<noteq> reduction" for t :: IteratorType
    by (cases t) auto
  show ?thesis
    unfolding getIterationBounds_def iterationBoundsFrom_Inr
    by (auto simp: iterationBound_Inr kind)
qed

theorem getIterationBounds_spec_witness:
  "getIterationBounds mma_2x3x4 = Inr [2, 3, 4] \<and>
   length [2, 3, 4 :: int] = length (getIteratorTypes mma_2x3x4) \<and>
   (\<exists>lhsMap k. at (getIndexingMapsArray mma_2x3x4) 0 = Inr lhsMap \<and>
      k < length (getResults lhsMap) \<and> getResults lhsMap ! k = AffineDimExpr 2 \<and>
      at (getShape (getLhsType mma_2x3x4)) (int k) = Inr 4) \<and>
   (\<exists>accMap k. at (getIndexingMapsArray mma_2x3x4) 2 = Inr accMap \<and>
      k < length (getResults accMap) \<and> getResults accMap ! k = AffineDimExpr 1 \<and>
      at (getShape (getResultType mma_2x3x4)) (int k) = Inr 3)"
proof -
  have run: "getIterationBounds mma_2x3x4 = Inr [2, 3, 4]"
    by code_simp
  have kinds: "getIteratorTypes mma_2x3x4 = [parallel, parallel, reduction]"
    by (simp add: mma_2x3x4_def)
  note spec = getIterationBounds_spec [of mma_2x3x4 "[2, 3, 4]", THEN iffD1, OF run]
  from spec have len: "length [2, 3, 4 :: int] = length (getIteratorTypes mma_2x3x4)"
    by blast
  from spec have all: "\<forall>i<length (getIteratorTypes mma_2x3x4).
        (getIteratorTypes mma_2x3x4 ! i = reduction \<longrightarrow>
           (\<exists>lhsMap k. at (getIndexingMapsArray mma_2x3x4) 0 = Inr lhsMap \<and>
              k < length (getResults lhsMap) \<and> getResults lhsMap ! k = AffineDimExpr i \<and>
              (\<forall>j<k. getResults lhsMap ! j \<noteq> AffineDimExpr i) \<and>
              at (getShape (getLhsType mma_2x3x4)) (int k) = Inr ([2, 3, 4] ! i))) \<and>
        (getIteratorTypes mma_2x3x4 ! i = parallel \<longrightarrow>
           (\<exists>accMap k. at (getIndexingMapsArray mma_2x3x4) 2 = Inr accMap \<and>
              k < length (getResults accMap) \<and> getResults accMap ! k = AffineDimExpr i \<and>
              (\<forall>j<k. getResults accMap ! j \<noteq> AffineDimExpr i) \<and>
              at (getShape (getResultType mma_2x3x4)) (int k) = Inr ([2, 3, 4] ! i)))"
    by blast
  from all [rule_format, of 2] kinds
  have red: "\<exists>lhsMap k. at (getIndexingMapsArray mma_2x3x4) 0 = Inr lhsMap \<and>
      k < length (getResults lhsMap) \<and> getResults lhsMap ! k = AffineDimExpr 2 \<and>
      at (getShape (getLhsType mma_2x3x4)) (int k) = Inr 4"
    by simp blast
  from all [rule_format, of 1] kinds
  have par: "\<exists>accMap k. at (getIndexingMapsArray mma_2x3x4) 2 = Inr accMap \<and>
      k < length (getResults accMap) \<and> getResults accMap ! k = AffineDimExpr 1 \<and>
      at (getShape (getResultType mma_2x3x4)) (int k) = Inr 3"
    by simp blast
  from run len red par show ?thesis by blast
qed

section \<open>Verification\<close>

lemma verifyIndexingMap_success:
  "verifyIndexingMap op n index m = success \<longleftrightarrow>
     getNumSymbols m = 0 \<and> getNumDims m = n \<and>
     getNumResults m < getRank (getType (getOperand op index)) \<and>
     isProjectedPermutation m \<and>
     (\<forall>s\<in>set (drop (getNumResults m) (getShape (getType (getOperand op index)))). \<not> isDynamic s)"
  by (auto simp: verifyIndexingMap_def Let_def list_ex_iff)

lemma verifyIndexingMapsFrom_success:
  "verifyIndexingMapsFrom op n index ms = success \<longleftrightarrow>
     (\<forall>j<length ms. verifyIndexingMap op n (index + j) (ms ! j) = success)"
proof (induction ms arbitrary: index)
  case Nil
  then show ?case by simp
next
  case (Cons m ms)
  show ?case
    using Cons.IH[of "Suc index"]
    by (auto simp: less_Suc_eq_0_disj split: LogicalResult.splits)
qed

lemma verifyOperandShapeZip_success:
  "verifyOperandShapeZip bounds zs = Inr success \<longleftrightarrow>
     (\<forall>k<length zs. \<exists>d. fst (zs ! k) = AffineDimExpr d \<and> d < length bounds \<and> snd (zs ! k) = bounds ! d)"
proof (induction bounds zs rule: verifyOperandShapeZip.induct)
  case (1 bounds)
  then show ?case by simp
next
  case (2 bounds dimIdx dimSize rest)
  then show ?case
    by (auto simp: less_Suc_eq_0_disj at_Inr_iff at_def split: sum.splits)
qed auto

lemma verifyOperandShape_success:
  assumes "getNumResults m < getRank t"
  shows "verifyOperandShape bounds t m = Inr success \<longleftrightarrow>
     (\<forall>k<getNumResults m. \<exists>d. getResults m ! k = AffineDimExpr d \<and> d < length bounds \<and>
         getShape t ! k = bounds ! d)"
  using assms
  by (simp add: verifyOperandShape_def verifyOperandShapeZip_success getNumResults_def getRank_def)

lemma verifyElementTypes_success:
  "verifyElementTypes op = success \<longleftrightarrow>
     getABCElementTypes (getKind op) =
       (getElementType (getLhsType op), getElementType (getRhsType op), getElementType (getAccType op))"
  by (auto simp: verifyElementTypes_def split: prod.splits)

lemma verifyShapes_success:
  "verifyShapes op ms bounds = Inr success \<longleftrightarrow>
     verifyOperandShape bounds (getLhsType op) (ms ! 0) = Inr success \<and>
     verifyOperandShape bounds (getRhsType op) (ms ! 1) = Inr success \<and>
     verifyOperandShape bounds (getAccType op) (ms ! 2) = Inr success \<and>
     verifyElementTypes op = success"
  by (auto simp: verifyShapes_def split: sum.splits LogicalResult.splits)

lemma all_less_3: "(\<forall>i<3::nat. P i) \<longleftrightarrow> P 0 \<and> P 1 \<and> P 2"
proof -
  have "i < 3 \<longleftrightarrow> i = 0 \<or> i = 1 \<or> i = 2" for i :: nat
    by arith
  then show ?thesis by auto
qed

lemma verify_success_unfold:
  "verify icd op = Inr success \<longleftrightarrow>
     length (getIndexingMapsArray op) = 3 \<and>
     verifyIndexingMapsFrom op (length (getIteratorTypes op)) 0 (getIndexingMapsArray op) = success \<and>
     icd (getIndexingMapsArray op) \<and>
     (\<exists>bounds. getIterationBounds op = Inr bounds \<and>
        verifyShapes op (getIndexingMapsArray op) bounds = Inr success)"
  by (auto simp: verify_def Let_def split: LogicalResult.splits sum.splits)

text \<open>
  Claim C1. The verifier succeeds exactly when: there are three indexing maps; every
  map is a projected permutation with no symbols, has as many input dimensions as there
  are iterator kinds and fewer results than its operand's rank, the operand's sizes
  after the map's results being static; the inference of the contraction dimensions
  succeeds on the maps; the iteration bounds are derived and every operand's outer
  shape, read through its map, equals them dimension by dimension; and the element
  types of the operands are those of the intrinsic kind.
\<close>

theorem verify_success_iff:
  "verify inferContractionDims op = Inr success \<longleftrightarrow>
     length (getIndexingMapsArray op) = 3 \<and>
     (\<forall>index<3.
        isProjectedPermutation (getIndexingMapsArray op ! index) \<and>
        getNumSymbols (getIndexingMapsArray op ! index) = 0 \<and>
        getNumDims (getIndexingMapsArray op ! index) = length (getIteratorTypes op) \<and>
        getNumResults (getIndexingMapsArray op ! index) < getRank (getType (getOperand op index)) \<and>
        (\<forall>s\<in>set (drop (getNumResults (getIndexingMapsArray op ! index))
                      (getShape (getType (getOperand op index)))). \<not> isDynamic s)) \<and>
     inferContractionDims (getIndexingMapsArray op) \<and>
     (\<exists>bounds. getIterationBounds op = Inr bounds \<and>
        (\<forall>index<3. \<forall>k<getNumResults (getIndexingMapsArray op ! index).
           \<exists>d. getResults (getIndexingMapsArray op ! index) ! k = AffineDimExpr d \<and>
               d < length bounds \<and>
               getShape (getType (getOperand op index)) ! k = bounds ! d)) \<and>
     getABCElementTypes (getKind op) =
       (getElementType (getLhsType op), getElementType (getRhsType op),
        getElementType (getAccType op))"
  (is "?L \<longleftrightarrow> ?len \<and> ?maps \<and> ?icd \<and> ?shapes \<and> ?elems")
proof (cases "length (getIndexingMapsArray op) = 3")
  case False
  then show ?thesis by (simp add: verify_success_unfold)
next
  case len: True
  have ops: "getOperand op 0 = getLhs op" "getOperand op 1 = getRhs op"
    "getOperand op (Suc 0) = getRhs op" "getOperand op 2 = getAcc op"
    by (simp_all add: getOperand_def)
  have maps: "verifyIndexingMapsFrom op (length (getIteratorTypes op)) 0 (getIndexingMapsArray op)
      = success \<longleftrightarrow> ?maps"
    unfolding verifyIndexingMapsFrom_success len all_less_3 verifyIndexingMap_success
    by (simp only: add_0) blast
  show ?thesis
  proof (cases ?maps)
    case False
    with maps show ?thesis by (simp add: verify_success_unfold)
  next
    case True
    then have ranks:
      "getNumResults (getIndexingMapsArray op ! 0) < getRank (getLhsType op)"
      "getNumResults (getIndexingMapsArray op ! 1) < getRank (getRhsType op)"
      "getNumResults (getIndexingMapsArray op ! 2) < getRank (getAccType op)"
      by (simp_all add: all_less_3 ops getLhsType_def getRhsType_def getAccType_def)
    have shapes: "(\<exists>bounds. getIterationBounds op = Inr bounds \<and>
        verifyShapes op (getIndexingMapsArray op) bounds = Inr success) \<longleftrightarrow> ?shapes \<and> ?elems"
      unfolding verifyShapes_success verifyElementTypes_success all_less_3
        verifyOperandShape_success[OF ranks(1)] verifyOperandShape_success[OF ranks(2)]
        verifyOperandShape_success[OF ranks(3)] ops
      by (auto simp: getLhsType_def getRhsType_def getAccType_def)
    show ?thesis
      unfolding verify_success_unfold maps shapes using len True by blast
  qed
qed

theorem verify_success_iff_witness:
  "verify (\<lambda>maps. True) mma_2x3x4 = Inr success \<and>
   length (getIndexingMapsArray mma_2x3x4) = 3 \<and>
   (\<exists>bounds. getIterationBounds mma_2x3x4 = Inr bounds) \<and>
   getABCElementTypes (getKind mma_2x3x4) =
     (getElementType (getLhsType mma_2x3x4), getElementType (getRhsType mma_2x3x4),
      getElementType (getAccType mma_2x3x4))"
proof -
  have run: "verify (\<lambda>maps. True) mma_2x3x4 = Inr success"
    by code_simp
  from verify_success_iff [of "\<lambda>maps. True" mma_2x3x4, THEN iffD1, OF run] run
  show ?thesis by blast
qed

section \<open>Unrolling\<close>

lemma andThen_Inr_iff: "andThen r f = Inr y \<longleftrightarrow> (\<exists>x. r = Inr x \<and> f x = Inr y)"
  by (cases r) (simp_all add: andThen_def)

lemma andThen_simps: "andThen (Inr x) f = f x" "andThen (Inl c) f = Inl c"
  by (simp_all add: andThen_def)

lemma applyPermutationResults_Inr:
  "applyPermutationResults es source = Inr xs \<Longrightarrow>
     length xs = length es \<and>
     (\<forall>k<length es. \<exists>p. es ! k = AffineDimExpr p \<and> p < length source \<and> xs ! k = source ! p)"
proof (induction es source arbitrary: xs rule: applyPermutationResults.induct)
  case (1 source)
  then show ?case by simp
next
  case (2 p es source)
  from "2.prems" obtain x ys where x: "at source (int p) = Inr x"
    and ys: "applyPermutationResults es source = Inr ys" and xs: "xs = x # ys"
    by (auto simp: andThen_Inr_iff)
  from "2.IH"[OF ys] x xs show ?case
    by (auto simp: at_Inr_iff less_Suc_eq_0_disj)
qed simp_all

lemma applyPermutationMap_Inr:
  assumes "applyPermutationMap m source = Inr xs"
  shows "length xs = getNumResults m" "getNumDims m = length source"
    "\<And>k. k < getNumResults m \<Longrightarrow>
       \<exists>p. getResults m ! k = AffineDimExpr p \<and> p < length source \<and> xs ! k = source ! p"
  using assms applyPermutationResults_Inr[of "getResults m" source xs]
  by (auto simp: applyPermutationMap_def getNumResults_def split: if_splits)




lemma create_eq: "create rewriter operation =
    (valueAt (length (created rewriter)) operation, rewriter\<lparr>created := created rewriter @ [operation]\<rparr>)"
  by (simp add: create_def)

lemma extractOperand_Inr:
  "extractOperand rewriter targetShape operand m offs = Inr (v, rewriter') \<longleftrightarrow>
     (\<exists>sizes. applyPermutationMap m targetShape = Inr sizes \<and>
        v = valueAt (length (created rewriter)) (sliceOf operand offs sizes) \<and>
        rewriter' = rewriter\<lparr>created := created rewriter @ [sliceOf operand offs sizes]\<rparr>)"
  by (auto simp: extractOperand_def andThen_Inr_iff create_eq)

lemma unrollTile_Inr:
  assumes "unrollTile mmaOp targetShape dstVecType innerAccShape (lhsMap, rhsMap, accMap) offsets
             (rewriter, accCache) = Inr (rewriter', accCache')"
  shows "\<exists>lhsOffets rhsOffets accOffets lhsShape rhsShape accShape fresh accSlice newOp.
     applyPermutationMap lhsMap offsets = Inr lhsOffets \<and>
     applyPermutationMap lhsMap targetShape = Inr lhsShape \<and>
     applyPermutationMap rhsMap offsets = Inr rhsOffets \<and>
     applyPermutationMap rhsMap targetShape = Inr rhsShape \<and>
     applyPermutationMap accMap offsets = Inr accOffets \<and>
     applyPermutationMap accMap targetShape = Inr accShape \<and>
     (mapVectorFind accCache accOffets = Some accSlice \<and> fresh = [] \<or>
      mapVectorFind accCache accOffets = None \<and>
      fresh = [sliceOf (getAcc mmaOp) accOffets accShape] \<and>
      accSlice = valueAt (length (created rewriter) + 2) (sliceOf (getAcc mmaOp) accOffets accShape)) \<and>
     newOp = clone mmaOp (vectorOf (accShape @ innerAccShape) (getElementType dstVecType))
               [valueAt (length (created rewriter)) (sliceOf (getLhs mmaOp) lhsOffets lhsShape),
                valueAt (length (created rewriter) + 1) (sliceOf (getRhs mmaOp) rhsOffets rhsShape),
                accSlice] \<and>
     created rewriter' = created rewriter @
        [sliceOf (getLhs mmaOp) lhsOffets lhsShape, sliceOf (getRhs mmaOp) rhsOffets rhsShape] @
        fresh @ [MultiMma newOp] \<and>
     replacement rewriter' = replacement rewriter \<and>
     accCache' = mapVectorSet accCache accOffets
        (valueAt (length (created rewriter) + 2 + length fresh) (MultiMma newOp))"
proof -
  have "\<exists>lhsOffets lhsSlice rewriter1 rhsOffets rhsSlice rewriter2 accOffets accSlice
      rewriter3 accShape.
    applyPermutationMap lhsMap offsets = Inr lhsOffets
    \<and> extractOperand rewriter targetShape (getLhs mmaOp) lhsMap lhsOffets = Inr (lhsSlice, rewriter1)
    \<and> applyPermutationMap rhsMap offsets = Inr rhsOffets
    \<and> extractOperand rewriter1 targetShape (getRhs mmaOp) rhsMap rhsOffets = Inr (rhsSlice, rewriter2)
    \<and> applyPermutationMap accMap offsets = Inr accOffets
    \<and> (case mapVectorFind accCache accOffets of
                 Some cached \<Rightarrow> Inr (cached, rewriter2)
               | None \<Rightarrow> extractOperand rewriter2 targetShape (getAcc mmaOp) accMap accOffets)
             = Inr (accSlice, rewriter3)
    \<and> applyPermutationMap accMap targetShape = Inr accShape
    \<and> (case create rewriter3 (MultiMma (clone mmaOp
                 (vectorOf (accShape @ innerAccShape) (getElementType dstVecType))
                 [lhsSlice, rhsSlice, accSlice])) of
               (newOp, rewriter4) \<Rightarrow> Inr (rewriter4, mapVectorSet accCache accOffets newOp))
             = Inr (rewriter', accCache')"
    using assms unfolding unrollTile_def
    by (auto simp: andThen_Inr_iff andThen_simps Let_def split: prod.splits)
  then obtain lhsOffets lhsSlice rewriter1 rhsOffets rhsSlice rewriter2 accOffets accSlice
      rewriter3 accShape where
    lo: "applyPermutationMap lhsMap offsets = Inr lhsOffets"
    and le: "extractOperand rewriter targetShape (getLhs mmaOp) lhsMap lhsOffets = Inr (lhsSlice, rewriter1)"
    and ro: "applyPermutationMap rhsMap offsets = Inr rhsOffets"
    and re: "extractOperand rewriter1 targetShape (getRhs mmaOp) rhsMap rhsOffets = Inr (rhsSlice, rewriter2)"
    and ao: "applyPermutationMap accMap offsets = Inr accOffets"
    and ae: "(case mapVectorFind accCache accOffets of
                 Some cached \<Rightarrow> Inr (cached, rewriter2)
               | None \<Rightarrow> extractOperand rewriter2 targetShape (getAcc mmaOp) accMap accOffets)
             = Inr (accSlice, rewriter3)"
    and as: "applyPermutationMap accMap targetShape = Inr accShape"
    and fin: "(case create rewriter3 (MultiMma (clone mmaOp
                 (vectorOf (accShape @ innerAccShape) (getElementType dstVecType))
                 [lhsSlice, rhsSlice, accSlice])) of
               (newOp, rewriter4) \<Rightarrow> Inr (rewriter4, mapVectorSet accCache accOffets newOp))
             = Inr (rewriter', accCache')"
    by blast
  from le obtain lhsShape where ls: "applyPermutationMap lhsMap targetShape = Inr lhsShape"
    and lv: "lhsSlice = valueAt (length (created rewriter)) (sliceOf (getLhs mmaOp) lhsOffets lhsShape)"
    and r1: "rewriter1 = rewriter\<lparr>created := created rewriter @ [sliceOf (getLhs mmaOp) lhsOffets lhsShape]\<rparr>"
    unfolding extractOperand_Inr by blast
  from re obtain rhsShape where rs: "applyPermutationMap rhsMap targetShape = Inr rhsShape"
    and rv: "rhsSlice = valueAt (length (created rewriter1)) (sliceOf (getRhs mmaOp) rhsOffets rhsShape)"
    and r2: "rewriter2 = rewriter1\<lparr>created := created rewriter1 @ [sliceOf (getRhs mmaOp) rhsOffets rhsShape]\<rparr>"
    unfolding extractOperand_Inr by blast
  define fresh where "fresh = (case mapVectorFind accCache accOffets of
      Some cached \<Rightarrow> [] | None \<Rightarrow> [sliceOf (getAcc mmaOp) accOffets accShape])"
  have acc: "(mapVectorFind accCache accOffets = Some accSlice \<and> fresh = [] \<or>
      mapVectorFind accCache accOffets = None \<and>
      fresh = [sliceOf (getAcc mmaOp) accOffets accShape] \<and>
      accSlice = valueAt (length (created rewriter) + 2) (sliceOf (getAcc mmaOp) accOffets accShape))"
    and r3: "created rewriter3 = created rewriter2 @ fresh" "replacement rewriter3 = replacement rewriter2"
    using ae as r1 r2
    by (auto simp: fresh_def extractOperand_Inr split: option.splits)
  define newOp where "newOp = clone mmaOp (vectorOf (accShape @ innerAccShape) (getElementType dstVecType))
               [valueAt (length (created rewriter)) (sliceOf (getLhs mmaOp) lhsOffets lhsShape),
                valueAt (length (created rewriter) + 1) (sliceOf (getRhs mmaOp) rhsOffets rhsShape),
                accSlice]"
  have newOp: "clone mmaOp (vectorOf (accShape @ innerAccShape) (getElementType dstVecType))
                 [lhsSlice, rhsSlice, accSlice] = newOp"
    by (simp add: newOp_def lv rv r1)
  from fin have r': "rewriter' = rewriter3\<lparr>created := created rewriter3 @ [MultiMma newOp]\<rparr>"
    and c': "accCache' = mapVectorSet accCache accOffets (valueAt (length (created rewriter3)) (MultiMma newOp))"
    unfolding newOp create_eq by simp_all
  have len3: "length (created rewriter3) = length (created rewriter) + 2 + length fresh"
    by (simp add: r3 r2 r1)
  have cr: "created rewriter' = created rewriter @
        [sliceOf (getLhs mmaOp) lhsOffets lhsShape, sliceOf (getRhs mmaOp) rhsOffets rhsShape] @
        fresh @ [MultiMma newOp]"
    by (simp add: r' r3 r2 r1)
  have rep: "replacement rewriter' = replacement rewriter"
    by (simp add: r' r3 r2 r1)
  from lo ls ro rs ao as acc newOp_def cr rep c'[unfolded len3] show ?thesis
    by blast
qed





lemma StaticTileOffsetRange_length:
  assumes "StaticTileOffsetRange shape tileShape loopOrder = Inr tiles" "t \<in> set tiles"
  shows "length t = length shape"
proof -
  from assms(1) obtain ratio where r: "computeShapeRatio shape tileShape = Inr (Some ratio)"
    and perm: "isPermutationVector loopOrder" "length loopOrder = length shape"
    and tiles: "tiles = map (\<lambda>linearIndex.
                     map2 (*) (applyPermutation (delinearize (int linearIndex)
                                  (computeStrides (applyPermutation ratio loopOrder)))
                                 (invertPermutationVector loopOrder))
                          (padTileShapeToSize tileShape (length shape)))
                   [0..<nat (prod_list ratio)]"
    by (auto simp: StaticTileOffsetRange_def andThen_Inr_iff Let_def split: option.splits if_splits)
  from r have "length tileShape \<le> length shape"
    by (auto simp: computeShapeRatio_def split: if_splits)
  then have "length (padTileShapeToSize tileShape (length shape)) = length shape"
    by (simp add: padTileShapeToSize_def)
  moreover have "length (applyPermutation xs (invertPermutationVector loopOrder)) = length shape" for xs
    by (simp add: applyPermutation_def invertPermutationVector_def perm)
  ultimately show ?thesis
    using assms(2) unfolding tiles by auto
qed

lemma UnrollMultiMmaPattern_success:
  assumes "UnrollMultiMmaPattern options mmaOp rewriter = Inr (success, rewriter')"
    and "nativeShape options = Some nativeShapeFn" "nativeShapeFn mmaOp = Some targetShape"
  shows "\<exists>bounds ratio lhsMap rhsMap accMap inner tiles rewriter1 cache.
     getIterationBounds mmaOp = Inr bounds \<and>
     computeShapeRatio bounds targetShape = Inr (Some ratio) \<and>
     getShapedKind (getResultType mmaOp) = VectorType \<and>
     at (getIndexingMapsArray mmaOp) 0 = Inr lhsMap \<and>
     at (getIndexingMapsArray mmaOp) 1 = Inr rhsMap \<and>
     at (getIndexingMapsArray mmaOp) 2 = Inr accMap \<and>
     getAccInnerShape mmaOp = Inr inner \<and>
     StaticTileOffsetRange bounds targetShape
       (getUnrollOrder (length (getIteratorTypes mmaOp)) mmaOp options) = Inr tiles \<and>
     unrollTiles mmaOp targetShape (getResultType mmaOp) inner (lhsMap, rhsMap, accMap) tiles
       (rewriter, []) = Inr (rewriter1, cache) \<and>
     rewriter' = replaceOp
        (snd (assembleAccumulator (length inner) cache
                (create rewriter1 (ConstantZeroOp (getResultType mmaOp)))))
        (fst (assembleAccumulator (length inner) cache
                (create rewriter1 (ConstantZeroOp (getResultType mmaOp)))))"
proof -
  note run = assms(1)[unfolded UnrollMultiMmaPattern_def getShapeForUnroll_def]
  from run have nofilter:
    "\<not> (case filterConstraint options of None \<Rightarrow> False | Some f \<Rightarrow> failed (f mmaOp))"
    by (auto split: if_splits)
  from run nofilter assms(2) obtain bounds where bounds: "getIterationBounds mmaOp = Inr bounds"
    by (cases "getIterationBounds mmaOp") (simp_all add: andThen_simps)
  from run nofilter assms(2,3) bounds obtain ratio where
    ratio: "computeShapeRatio bounds targetShape = Inr (Some ratio)"
    by (cases "computeShapeRatio bounds targetShape")
      (auto simp: andThen_simps split: option.splits)
  from run nofilter assms(2,3) bounds ratio have ones: "\<not> list_all (\<lambda>v. v = 1) ratio"
    by (auto simp: andThen_simps)
  from run nofilter assms(2,3) bounds ratio ones
  have kind: "getShapedKind (getResultType mmaOp) = VectorType"
    by (auto simp: andThen_simps split: if_splits)
  from run nofilter assms(2,3) bounds ratio ones kind
  have rest: "andThen (at (getIndexingMapsArray mmaOp) 0) (\<lambda>lhsPermutationMap.
          andThen (at (getIndexingMapsArray mmaOp) 1) (\<lambda>rhsPermutationMap.
          andThen (at (getIndexingMapsArray mmaOp) 2) (\<lambda>accPermutationMap.
          andThen (getAccInnerShape mmaOp) (\<lambda>innerAccShape.
          andThen (StaticTileOffsetRange bounds targetShape
             (getUnrollOrder (length (getIteratorTypes mmaOp)) mmaOp options)) (\<lambda>tiles.
          andThen (unrollTiles mmaOp targetShape (getResultType mmaOp) innerAccShape
                     (lhsPermutationMap, rhsPermutationMap, accPermutationMap) tiles
                     (rewriter, [])) (\<lambda>(rewriter1, accCache1).
          case assembleAccumulator (length innerAccShape) accCache1
                 (create rewriter1 (ConstantZeroOp (getResultType mmaOp))) of
            (result, rewriter2) \<Rightarrow>
          Inr (success, replaceOp rewriter2 result))))))) = Inr (success, rewriter')"
    by (simp add: andThen_simps Let_def)
  then obtain lhsMap rhsMap accMap inner tiles st1 where
    m: "at (getIndexingMapsArray mmaOp) 0 = Inr lhsMap" "at (getIndexingMapsArray mmaOp) 1 = Inr rhsMap"
      "at (getIndexingMapsArray mmaOp) 2 = Inr accMap"
    and inner: "getAccInnerShape mmaOp = Inr inner"
    and tiles: "StaticTileOffsetRange bounds targetShape
       (getUnrollOrder (length (getIteratorTypes mmaOp)) mmaOp options) = Inr tiles"
    and loop: "unrollTiles mmaOp targetShape (getResultType mmaOp) inner (lhsMap, rhsMap, accMap)
       tiles (rewriter, []) = Inr st1"
    and fin: "(case st1 of (rewriter1, accCache1) \<Rightarrow>
          case assembleAccumulator (length inner) accCache1
                 (create rewriter1 (ConstantZeroOp (getResultType mmaOp))) of
            (result, rewriter2) \<Rightarrow>
          Inr (success, replaceOp rewriter2 result)) = (Inr (success, rewriter') :: crash + _)"
    unfolding andThen_Inr_iff by blast
  obtain rewriter1 cache where st1: "st1 = (rewriter1, cache)" by (cases st1)
  from fin have "rewriter' = replaceOp
        (snd (assembleAccumulator (length inner) cache
                (create rewriter1 (ConstantZeroOp (getResultType mmaOp)))))
        (fst (assembleAccumulator (length inner) cache
                (create rewriter1 (ConstantZeroOp (getResultType mmaOp)))))"
    by (auto simp: st1 split: prod.splits)
  with bounds ratio kind m inner tiles loop[unfolded st1] show ?thesis by blast
qed

lemma clone_bounds:
  assumes bounds: "getIterationBounds mmaOp = Inr bounds"
    and maps: "at (getIndexingMapsArray mmaOp) 0 = Inr lhsMap" "at (getIndexingMapsArray mmaOp) 2 = Inr accMap"
    and lhs: "applyPermutationMap lhsMap targetShape = Inr lhsShape"
    and acc: "applyPermutationMap accMap targetShape = Inr accShape"
    and len: "length targetShape = length (getIteratorTypes mmaOp)"
    and newOp: "getIndexingMapsArray newOp = getIndexingMapsArray mmaOp"
      "getIteratorTypes newOp = getIteratorTypes mmaOp"
      "getShape (getLhsType newOp) = lhsShape @ lhsInner"
      "getShape (getResultType newOp) = accShape @ accInner"
  shows "getIterationBounds newOp = Inr targetShape"
proof -
  have "iterationBound newOp i (getIteratorTypes mmaOp ! i) = Inr (targetShape ! i)"
    if i: "i < length (getIteratorTypes mmaOp)" for i
  proof -
    from bounds i have "iterationBound mmaOp i (getIteratorTypes mmaOp ! i) = Inr (bounds ! i)"
      by (simp add: getIterationBounds_def iterationBoundsFrom_Inr)
    then obtain m k where m: "at (getIndexingMapsArray mmaOp)
          (if getIteratorTypes mmaOp ! i = reduction then 0 else 2) = Inr m"
      and k: "k < length (getResults m)" "getResults m ! k = AffineDimExpr i"
        "\<forall>j<k. getResults m ! j \<noteq> AffineDimExpr i"
      unfolding iterationBound_Inr by blast
    show ?thesis
    proof (cases "getIteratorTypes mmaOp ! i = reduction")
      case True
      with m maps have m_eq: "m = lhsMap" by simp
      from applyPermutationMap_Inr(1)[OF lhs] applyPermutationMap_Inr(3)[OF lhs, of k] k
      have "length lhsShape = length (getResults lhsMap)" "lhsShape ! k = targetShape ! i"
        by (auto simp: m_eq getNumResults_def)
      with k have "at (getShape (getLhsType newOp)) (int k) = Inr (targetShape ! i)"
        by (simp add: newOp at_def m_eq nth_append)
      with True m k show ?thesis
        unfolding iterationBound_Inr by (auto simp: m_eq newOp)
    next
      case False
      with m maps have m_eq: "m = accMap" by simp
      from applyPermutationMap_Inr(1)[OF acc] applyPermutationMap_Inr(3)[OF acc, of k] k
      have "length accShape = length (getResults accMap)" "accShape ! k = targetShape ! i"
        by (auto simp: m_eq getNumResults_def)
      with k have "at (getShape (getResultType newOp)) (int k) = Inr (targetShape ! i)"
        by (simp add: newOp at_def m_eq nth_append)
      with False m k show ?thesis
        unfolding iterationBound_Inr by (auto simp: m_eq newOp)
    qed
  qed
  then show ?thesis
    by (simp add: getIterationBounds_def iterationBoundsFrom_Inr newOp len)
qed

lemma unrollTile_clone:
  assumes step: "unrollTile mmaOp targetShape D I (lhsMap, rhsMap, accMap) offsets (rewriter, cache) =
      Inr (rewriter', cache')"
    and bounds: "getIterationBounds mmaOp = Inr bounds"
    and maps: "at (getIndexingMapsArray mmaOp) 0 = Inr lhsMap" "at (getIndexingMapsArray mmaOp) 2 = Inr accMap"
    and len: "length offsets = length (getIteratorTypes mmaOp)"
  shows "\<exists>new. created rewriter' = created rewriter @ new \<and>
     replacement rewriter' = replacement rewriter \<and>
     (\<forall>newOp. MultiMma newOp \<in> set new \<longrightarrow>
        isClone mmaOp newOp \<and> getIterationBounds newOp = Inr targetShape)"
proof -
  from unrollTile_Inr[OF step] obtain lhsOffets rhsOffets accOffets lhsShape rhsShape accShape
      fresh accSlice newOp where
    lo: "applyPermutationMap lhsMap offsets = Inr lhsOffets"
    and ls: "applyPermutationMap lhsMap targetShape = Inr lhsShape"
    and ao: "applyPermutationMap accMap offsets = Inr accOffets"
    and as: "applyPermutationMap accMap targetShape = Inr accShape"
    and acc: "mapVectorFind cache accOffets = Some accSlice \<and> fresh = [] \<or>
      mapVectorFind cache accOffets = None \<and>
      fresh = [sliceOf (getAcc mmaOp) accOffets accShape] \<and>
      accSlice = valueAt (length (created rewriter) + 2) (sliceOf (getAcc mmaOp) accOffets accShape)"
    and newOp: "newOp = clone mmaOp (vectorOf (accShape @ I) (getElementType D))
               [valueAt (length (created rewriter)) (sliceOf (getLhs mmaOp) lhsOffets lhsShape),
                valueAt (length (created rewriter) + 1) (sliceOf (getRhs mmaOp) rhsOffets rhsShape),
                accSlice]"
    and cr: "created rewriter' = created rewriter @
        [sliceOf (getLhs mmaOp) lhsOffets lhsShape, sliceOf (getRhs mmaOp) rhsOffets rhsShape] @
        fresh @ [MultiMma newOp]"
    and rep: "replacement rewriter' = replacement rewriter"
    by blast
  have lenT: "length targetShape = length (getIteratorTypes mmaOp)"
    using applyPermutationMap_Inr(2)[OF ao] applyPermutationMap_Inr(2)[OF as] len by simp
  have cl: "isClone mmaOp newOp"
    by (simp add: isClone_def newOp clone_def)
  have "getShape (getLhsType newOp) = lhsShape @ drop (length lhsOffets) (getShape (getType (getLhs mmaOp)))"
    by (simp add: newOp clone_def getLhsType_def valueAt_def sliceOf_def)
  moreover have "getShape (getResultType newOp) = accShape @ I"
    by (simp add: newOp clone_def vectorOf_def)
  ultimately have b: "getIterationBounds newOp = Inr targetShape"
    using cl by (intro clone_bounds[OF bounds maps ls as lenT]) (simp_all add: isClone_def)
  have "MultiMma c \<in> set ([sliceOf (getLhs mmaOp) lhsOffets lhsShape,
        sliceOf (getRhs mmaOp) rhsOffets rhsShape] @ fresh @ [MultiMma newOp]) \<Longrightarrow> c = newOp" for c
    using acc by (auto simp: sliceOf_def)
  with cl b cr rep show ?thesis by blast
qed

lemma unrollTiles_clones:
  assumes "unrollTiles mmaOp targetShape D I (lhsMap, rhsMap, accMap) tiles (rewriter, cache) =
      Inr (rewriter', cache')"
    and bounds: "getIterationBounds mmaOp = Inr bounds"
    and maps: "at (getIndexingMapsArray mmaOp) 0 = Inr lhsMap" "at (getIndexingMapsArray mmaOp) 2 = Inr accMap"
    and len: "\<forall>t\<in>set tiles. length t = length (getIteratorTypes mmaOp)"
  shows "\<exists>new. created rewriter' = created rewriter @ new \<and>
     replacement rewriter' = replacement rewriter \<and>
     (\<forall>newOp. MultiMma newOp \<in> set new \<longrightarrow>
        isClone mmaOp newOp \<and> getIterationBounds newOp = Inr targetShape)"
  using assms(1) len
proof (induction tiles arbitrary: rewriter cache)
  case Nil
  then show ?case by simp
next
  case (Cons t tiles)
  from Cons.prems(1) obtain rewriter1 cache1 where
    step: "unrollTile mmaOp targetShape D I (lhsMap, rhsMap, accMap) t (rewriter, cache) =
      Inr (rewriter1, cache1)"
    and rest: "unrollTiles mmaOp targetShape D I (lhsMap, rhsMap, accMap) tiles (rewriter1, cache1) =
      Inr (rewriter', cache')"
    by (auto simp: andThen_Inr_iff)
  from unrollTile_clone[OF step bounds maps] Cons.prems(2) obtain new1 where
    n1: "created rewriter1 = created rewriter @ new1" "replacement rewriter1 = replacement rewriter"
    "\<forall>newOp. MultiMma newOp \<in> set new1 \<longrightarrow>
        isClone mmaOp newOp \<and> getIterationBounds newOp = Inr targetShape"
    by auto
  from Cons.IH[OF rest] Cons.prems(2) obtain new2 where
    n2: "created rewriter' = created rewriter1 @ new2" "replacement rewriter' = replacement rewriter1"
    "\<forall>newOp. MultiMma newOp \<in> set new2 \<longrightarrow>
        isClone mmaOp newOp \<and> getIterationBounds newOp = Inr targetShape"
    by auto
  show ?case
    using n1 n2 by (intro exI[of _ "new1 @ new2"]) auto
qed

lemma assembleAccumulator_created:
  "\<exists>new. created (snd (assembleAccumulator n cache (result, rewriter))) = created rewriter @ new \<and>
     length new = length cache \<and>
     (\<forall>j<length cache. new ! j =
        InsertStridedSliceOp (snd (cache ! j)) (destOf result (length (created rewriter)) j)
          (fst (cache ! j) @ replicate n 0) (replicate (length (fst (cache ! j)) + n) 1)) \<and>
     fst (assembleAccumulator n cache (result, rewriter)) =
       destOf result (length (created rewriter)) (length cache) \<and>
     replacement (snd (assembleAccumulator n cache (result, rewriter))) = replacement rewriter"
proof (induction cache arbitrary: result rewriter)
  case Nil
  then show ?case by (simp add: destOf_def)
next
  case (Cons entry cache)
  obtain offsets partialResult where entry: "entry = (offsets, partialResult)" by (cases entry)
  define operation where "operation = InsertStridedSliceOp partialResult result
      (offsets @ replicate n 0) (replicate (length offsets + n) 1)"
  define result1 where "result1 = valueAt (length (created rewriter)) operation"
  define rewriter1 where "rewriter1 = rewriter\<lparr>created := created rewriter @ [operation]\<rparr>"
  have step: "assembleAccumulator n (entry # cache) (result, rewriter) =
      assembleAccumulator n cache (result1, rewriter1)"
    by (simp add: entry Let_def create_eq operation_def result1_def rewriter1_def)
  have r1: "result1 = \<lparr>getValueId = OpResult (length (created rewriter)), getType = getType result\<rparr>"
    by (simp add: result1_def valueAt_def operation_def)
  have base: "length (created rewriter1) = Suc (length (created rewriter))"
    by (simp add: rewriter1_def)
  have dest: "destOf result1 (length (created rewriter1)) j =
      destOf result (length (created rewriter)) (Suc j)" for j
    by (simp add: destOf_def base r1)
  from Cons.IH[of result1 rewriter1] obtain new where
    new: "created (snd (assembleAccumulator n cache (result1, rewriter1))) = created rewriter1 @ new"
      "length new = length cache"
      "\<forall>j<length cache. new ! j =
        InsertStridedSliceOp (snd (cache ! j)) (destOf result1 (length (created rewriter1)) j)
          (fst (cache ! j) @ replicate n 0) (replicate (length (fst (cache ! j)) + n) 1)"
      "fst (assembleAccumulator n cache (result1, rewriter1)) =
         destOf result1 (length (created rewriter1)) (length cache)"
      "replacement (snd (assembleAccumulator n cache (result1, rewriter1))) = replacement rewriter1"
    by blast
  have nth: "(operation # new) ! j =
        InsertStridedSliceOp (snd ((entry # cache) ! j)) (destOf result (length (created rewriter)) j)
          (fst ((entry # cache) ! j) @ replicate n 0)
          (replicate (length (fst ((entry # cache) ! j)) + n) 1)"
    if "j < length (entry # cache)" for j
  proof (cases j)
    case 0
    then show ?thesis by (simp add: operation_def entry destOf_def)
  next
    case (Suc j')
    with that new(3) show ?thesis by (simp add: dest)
  qed
  have c: "created (snd (assembleAccumulator n cache (result1, rewriter1))) =
      created rewriter @ operation # new"
    using new(1) by (simp add: rewriter1_def)
  have f: "fst (assembleAccumulator n cache (result1, rewriter1)) =
      destOf result (length (created rewriter)) (length (entry # cache))"
    using new(4) by (simp add: dest)
  have r: "replacement (snd (assembleAccumulator n cache (result1, rewriter1))) = replacement rewriter"
    using new(5) by (simp add: rewriter1_def)
  show ?case
    unfolding step
    using c f r nth new(2) by (intro exI[of _ "operation # new"]) simp
qed






lemma succeeded_iff: "succeeded outcome \<longleftrightarrow> (\<exists>r. outcome = Inr (success, r))"
  by (auto simp: succeeded_def split: sum.splits LogicalResult.splits)

lemma succeeded_eq: "succeeded outcome \<Longrightarrow> outcome = Inr (success, snd (projr outcome))"
  by (auto simp: succeeded_def split: sum.splits LogicalResult.splits)






text \<open>
  Claim C3, as amended. Every contraction the unrolling creates is a clone of the
  original operation: it carries the indexing maps, the iterator kinds and the intrinsic
  kind of the original unchanged (they are not emptied), on the slices as operands. Its
  derived iteration bounds are the native shape the operation was unrolled to, one per
  iterator, and not the empty sequence.
\<close>

theorem UnrollMultiMmaPattern_clones:
  assumes run: "UnrollMultiMmaPattern options mmaOp rewriter = Inr (success, rewriter')"
    and native: "nativeShape options = Some nativeShapeFn" "nativeShapeFn mmaOp = Some targetShape"
  shows "\<forall>newOp. MultiMma newOp \<in> set (drop (length (created rewriter)) (created rewriter')) \<longrightarrow>
     getIndexingMapsArray newOp = getIndexingMapsArray mmaOp \<and>
     getIteratorTypes newOp = getIteratorTypes mmaOp \<and>
     getKind newOp = getKind mmaOp \<and>
     getIterationBounds newOp = Inr targetShape"
proof -
  from UnrollMultiMmaPattern_success[OF run native] obtain bounds ratio lhsMap rhsMap accMap inner
      tiles rewriter1 cache where
    b: "getIterationBounds mmaOp = Inr bounds"
    and m: "at (getIndexingMapsArray mmaOp) 0 = Inr lhsMap" "at (getIndexingMapsArray mmaOp) 2 = Inr accMap"
    and tiles: "StaticTileOffsetRange bounds targetShape
       (getUnrollOrder (length (getIteratorTypes mmaOp)) mmaOp options) = Inr tiles"
    and loop: "unrollTiles mmaOp targetShape (getResultType mmaOp) inner (lhsMap, rhsMap, accMap) tiles
       (rewriter, []) = Inr (rewriter1, cache)"
    and r': "rewriter' = replaceOp
        (snd (assembleAccumulator (length inner) cache
                (create rewriter1 (ConstantZeroOp (getResultType mmaOp)))))
        (fst (assembleAccumulator (length inner) cache
                (create rewriter1 (ConstantZeroOp (getResultType mmaOp)))))"
    by blast
  from b have "length bounds = length (getIteratorTypes mmaOp)"
    by (simp add: getIterationBounds_def iterationBoundsFrom_Inr)
  with StaticTileOffsetRange_length[OF tiles]
  have len: "\<forall>t\<in>set tiles. length t = length (getIteratorTypes mmaOp)" by simp
  from unrollTiles_clones[OF loop b m len] obtain new where
    new: "created rewriter1 = created rewriter @ new"
    "\<forall>newOp. MultiMma newOp \<in> set new \<longrightarrow>
        isClone mmaOp newOp \<and> getIterationBounds newOp = Inr targetShape"
    by blast
  define zero where "zero = valueAt (length (created rewriter1)) (ConstantZeroOp (getResultType mmaOp))"
  define rewriterZ where "rewriterZ = rewriter1\<lparr>created := created rewriter1 @ [ConstantZeroOp (getResultType mmaOp)]\<rparr>"
  have cz: "create rewriter1 (ConstantZeroOp (getResultType mmaOp)) = (zero, rewriterZ)"
    by (simp add: create_eq zero_def rewriterZ_def)
  from assembleAccumulator_created[of "length inner" cache zero rewriterZ] obtain ins where
    ins: "created (snd (assembleAccumulator (length inner) cache (zero, rewriterZ))) =
        created rewriterZ @ ins"
      "length ins = length cache"
      "\<forall>j<length cache. ins ! j =
        InsertStridedSliceOp (snd (cache ! j)) (destOf zero (length (created rewriterZ)) j)
          (fst (cache ! j) @ replicate (length inner) 0)
          (replicate (length (fst (cache ! j)) + length inner) 1)"
    by blast
  have noMma: "MultiMma c \<notin> set ins" for c
  proof
    assume "MultiMma c \<in> set ins"
    then obtain j where "j < length ins" "ins ! j = MultiMma c"
      by (auto simp: in_set_conv_nth)
    with ins(2,3) show False by auto
  qed
  have cr: "created rewriter' = created rewriter @ new @ ConstantZeroOp (getResultType mmaOp) # ins"
    using ins(1) by (simp add: r' cz replaceOp_def) (simp add: rewriterZ_def new(1))
  show ?thesis
    using new(2) noMma by (auto simp: cr isClone_def)
qed

theorem UnrollMultiMmaPattern_clones_witness:
  "MultiMma (hd (multiMmaOps (created unrolled_2x2))) \<in> set (created unrolled_2x2) \<and>
   getIndexingMapsArray (hd (multiMmaOps (created unrolled_2x2))) = getIndexingMapsArray mma_2x2 \<and>
   getIteratorTypes (hd (multiMmaOps (created unrolled_2x2))) = getIteratorTypes mma_2x2 \<and>
   getKind (hd (multiMmaOps (created unrolled_2x2))) = getKind mma_2x2 \<and>
   getIterationBounds (hd (multiMmaOps (created unrolled_2x2))) = Inr [1, 1]"
proof -
  have "succeeded (UnrollMultiMmaPattern (unrollTo [1, 1]) mma_2x2 emptyRewriter)"
    by code_simp
  from succeeded_eq[OF this]
  have run: "UnrollMultiMmaPattern (unrollTo [1, 1]) mma_2x2 emptyRewriter =
      Inr (success, unrolled_2x2)"
    by (simp add: unrolled_2x2_def)
  have native: "nativeShape (unrollTo [1, 1]) = Some (\<lambda>op. Some [1, 1])"
    "(\<lambda>op. Some [1, 1]) mma_2x2 = Some [1, 1]"
    by (simp_all add: unrollTo_def)
  have mem: "MultiMma (hd (multiMmaOps (created unrolled_2x2))) \<in> set (created unrolled_2x2)"
    by code_simp
  then have "MultiMma (hd (multiMmaOps (created unrolled_2x2))) \<in>
      set (drop (length (created emptyRewriter)) (created unrolled_2x2))"
    by (simp add: emptyRewriter_def)
  with UnrollMultiMmaPattern_clones[OF run native] mem show ?thesis
    by blast
qed


theorem UnrollMultiMmaPattern_clones_counterexample:
  "succeeded (UnrollMultiMmaPattern (unrollTo [1, 1]) mma_2x2 emptyRewriter) \<and>
   map getIndexingMapsArray
     (multiMmaOps (createdBy (UnrollMultiMmaPattern (unrollTo [1, 1]) mma_2x2 emptyRewriter))) =
     [getIndexingMapsArray mma_2x2, getIndexingMapsArray mma_2x2,
      getIndexingMapsArray mma_2x2, getIndexingMapsArray mma_2x2] \<and>
   getIndexingMapsArray mma_2x2 = [affineMapOf 2 [0, 1], affineMapOf 2 [1], affineMapOf 2 [0]] \<and>
   map getIteratorTypes
     (multiMmaOps (createdBy (UnrollMultiMmaPattern (unrollTo [1, 1]) mma_2x2 emptyRewriter))) =
     [[parallel, reduction], [parallel, reduction], [parallel, reduction], [parallel, reduction]] \<and>
   map getIterationBounds
     (multiMmaOps (createdBy (UnrollMultiMmaPattern (unrollTo [1, 1]) mma_2x2 emptyRewriter))) =
     [Inr [1, 1], Inr [1, 1], Inr [1, 1], Inr [1, 1]]"
  by code_simp


lemma length_padTileShapeToSize:
  "length tileShape \<le> n \<Longrightarrow> length (padTileShapeToSize tileShape n) = n"
  by (simp add: padTileShapeToSize_def)

lemma computeShapeRatio_positive:
  assumes "\<forall>s\<in>set shape. 0 < s" "\<forall>s\<in>set subShape. 0 < s"
  shows "computeShapeRatio shape subShape =
     (if length shape < length subShape then Inr None
      else if \<forall>i<length shape. shape ! i mod padTileShapeToSize subShape (length shape) ! i = 0
        then Inr (Some (map (\<lambda>i. shape ! i div padTileShapeToSize subShape (length shape) ! i)
                          [0..<length shape]))
      else Inr None)"
proof (cases "length shape < length subShape")
  case True
  then show ?thesis by (simp add: computeShapeRatio_def)
next
  case False
  define aligned where "aligned = padTileShapeToSize subShape (length shape)"
  from False have len: "length aligned = length shape"
    by (simp add: aligned_def length_padTileShapeToSize)
  have all: "list_all (\<lambda>(dimSize, subSize). dimSize mod subSize = 0) (zip shape aligned) \<longleftrightarrow>
      (\<forall>i<length shape. shape ! i mod aligned ! i = 0)"
    using len by (simp add: list_all_length)
  have quot: "map (\<lambda>(dimSize, subSize). dimSize div subSize) (zip shape aligned) =
      map (\<lambda>i. shape ! i div aligned ! i) [0..<length shape]"
    using len by (intro nth_equalityI) simp_all
  have pos: "list_all (\<lambda>s. 0 < s) shape" "list_all (\<lambda>s. 0 < s) subShape"
    using assms by (simp_all add: list_all_iff)
  have "computeShapeRatio shape subShape =
     (if list_all (\<lambda>(dimSize, subSize). dimSize mod subSize = 0) (zip shape aligned)
        then Inr (Some (map (\<lambda>(dimSize, subSize). dimSize div subSize) (zip shape aligned)))
      else Inr None)"
    using False pos by (simp add: computeShapeRatio_def Let_def aligned_def)
  also have "\<dots> = (if \<forall>i<length shape. shape ! i mod aligned ! i = 0
        then Inr (Some (map (\<lambda>i. shape ! i div aligned ! i) [0..<length shape]))
      else Inr None)"
    by (simp only: all quot)
  finally show ?thesis using False by (simp add: aligned_def)
qed

lemma UnrollMultiMmaPattern_prefix:
  assumes "nativeShape options = Some nativeShapeFn" "nativeShapeFn mmaOp = Some targetShape"
    and "getIterationBounds mmaOp = Inr bounds"
    and "computeShapeRatio bounds targetShape = Inr None \<or>
         (\<exists>r. computeShapeRatio bounds targetShape = Inr (Some r) \<and> list_all (\<lambda>v. v = 1) r)"
  shows "\<exists>msg. UnrollMultiMmaPattern options mmaOp rewriter = Inr (failure msg, rewriter)"
  using assms
  by (auto simp: UnrollMultiMmaPattern_def getShapeForUnroll_def andThen_def
      split: option.splits)

lemma UnrollMultiMmaPattern_success_ratio:
  assumes "UnrollMultiMmaPattern options mmaOp rewriter = Inr (success, rewriter')"
    and "nativeShape options = Some nativeShapeFn" "nativeShapeFn mmaOp = Some targetShape"
    and "getIterationBounds mmaOp = Inr bounds"
  shows "\<exists>r. computeShapeRatio bounds targetShape = Inr (Some r) \<and> \<not> list_all (\<lambda>v. v = 1) r"
  using assms
  by (auto simp: UnrollMultiMmaPattern_def getShapeForUnroll_def andThen_def
      split: option.splits if_splits sum.splits)

text \<open>
  Claim C4. With a native shape given and sizes that are positive, the unrolling pattern
  returns a match failure and leaves the rewriter as it found it (nothing created, the
  operation not replaced) whenever a bound is not a multiple of its entry of the native
  shape (or the native shape is longer than the bounds), and also whenever every bound
  equals its entry of the native shape, so that the ratio is all ones. When the pattern
  succeeds every bound is an exact multiple of its entry: no ratio is rounded.
\<close>

theorem UnrollMultiMmaPattern_rejects:
  assumes native: "nativeShape options = Some nativeShapeFn" "nativeShapeFn mmaOp = Some targetShape"
    and bounds: "getIterationBounds mmaOp = Inr bounds"
    and positive: "\<forall>b\<in>set bounds. 0 < b" "\<forall>t\<in>set targetShape. 0 < t"
  shows
    "((length bounds < length targetShape \<or>
       (\<exists>i<length bounds.
          bounds ! i mod padTileShapeToSize targetShape (length bounds) ! i \<noteq> 0)) \<longrightarrow>
      (\<exists>msg. UnrollMultiMmaPattern options mmaOp rewriter = Inr (failure msg, rewriter))) \<and>
     ((length targetShape \<le> length bounds \<and>
       (\<forall>i<length bounds. bounds ! i = padTileShapeToSize targetShape (length bounds) ! i)) \<longrightarrow>
      (\<exists>msg. UnrollMultiMmaPattern options mmaOp rewriter = Inr (failure msg, rewriter))) \<and>
     (\<forall>rewriter'. UnrollMultiMmaPattern options mmaOp rewriter = Inr (success, rewriter') \<longrightarrow>
        length targetShape \<le> length bounds \<and>
        (\<forall>i<length bounds.
           bounds ! i mod padTileShapeToSize targetShape (length bounds) ! i = 0) \<and>
        (\<exists>i<length bounds. bounds ! i \<noteq> padTileShapeToSize targetShape (length bounds) ! i))"
proof -
  note ratio = computeShapeRatio_positive[OF positive]
  define aligned where "aligned = padTileShapeToSize targetShape (length bounds)"
  have pos_aligned: "0 < aligned ! i" if "i < length bounds" "length targetShape \<le> length bounds" for i
  proof -
    have "aligned ! i \<in> set aligned"
      using that by (simp add: aligned_def length_padTileShapeToSize)
    then show ?thesis using positive(2) by (auto simp: aligned_def padTileShapeToSize_def)
  qed
  have one: "bounds ! i div aligned ! i = 1 \<longleftrightarrow> bounds ! i = aligned ! i"
    if "i < length bounds" "length targetShape \<le> length bounds"
      "bounds ! i mod aligned ! i = 0" for i
  proof -
    from that(3) have "bounds ! i = aligned ! i * (bounds ! i div aligned ! i)"
      by auto
    with pos_aligned[OF that(1,2)] show ?thesis
      by (metis mult.right_neutral mult_cancel_left less_irrefl)
  qed
  have A: "\<exists>msg. UnrollMultiMmaPattern options mmaOp rewriter = Inr (failure msg, rewriter)"
    if "length bounds < length targetShape \<or>
       (\<exists>i<length bounds. bounds ! i mod aligned ! i \<noteq> 0)"
  proof -
    from that have "computeShapeRatio bounds targetShape = Inr None"
      unfolding ratio aligned_def by auto
    then show ?thesis
      using UnrollMultiMmaPattern_prefix[OF native bounds] by blast
  qed
  have B: "\<exists>msg. UnrollMultiMmaPattern options mmaOp rewriter = Inr (failure msg, rewriter)"
    if a: "length targetShape \<le> length bounds \<and> (\<forall>i<length bounds. bounds ! i = aligned ! i)"
  proof -
    from a have eq: "\<forall>i<length bounds. bounds ! i = aligned ! i" by simp
    have d: "bounds ! i div aligned ! i = 1" if "i < length bounds" for i
      using pos_aligned[OF that] a eq that by simp
    have m: "bounds ! i mod aligned ! i = 0" if "i < length bounds" for i
      using eq that by simp
    have "computeShapeRatio bounds targetShape =
        Inr (Some (map (\<lambda>i. bounds ! i div aligned ! i) [0..<length bounds]))"
      unfolding ratio aligned_def[symmetric] using a m by auto
    moreover have "list_all (\<lambda>v. v = 1) (map (\<lambda>i. bounds ! i div aligned ! i) [0..<length bounds])"
      using d by (simp add: list_all_iff)
    ultimately show ?thesis
      using UnrollMultiMmaPattern_prefix[OF native bounds] by blast
  qed
  have C: "length targetShape \<le> length bounds \<and>
        (\<forall>i<length bounds. bounds ! i mod aligned ! i = 0) \<and>
        (\<exists>i<length bounds. bounds ! i \<noteq> aligned ! i)"
    if "UnrollMultiMmaPattern options mmaOp rewriter = Inr (success, rewriter')" for rewriter'
  proof -
    from UnrollMultiMmaPattern_success_ratio[OF that native bounds]
    obtain r where r: "computeShapeRatio bounds targetShape = Inr (Some r)"
      "\<not> list_all (\<lambda>v. v = 1) r" by blast
    from r(1) have len: "length targetShape \<le> length bounds"
      and dvd: "\<forall>i<length bounds. bounds ! i mod aligned ! i = 0"
      and r_eq: "r = map (\<lambda>i. bounds ! i div aligned ! i) [0..<length bounds]"
      unfolding ratio aligned_def[symmetric] by (auto split: if_splits)
    from r(2) r_eq obtain i where i: "i < length bounds" "bounds ! i div aligned ! i \<noteq> 1"
      by (auto simp: list_all_iff)
    with one[OF i(1) len] dvd have "bounds ! i \<noteq> aligned ! i" by blast
    with i(1) len dvd show ?thesis by blast
  qed
  from A B C show ?thesis unfolding aligned_def by blast
qed

theorem UnrollMultiMmaPattern_rejects_witness:
  "(\<exists>msg. UnrollMultiMmaPattern (unrollTo [3, 1]) mma_2x2 emptyRewriter =
      Inr (failure msg, emptyRewriter)) \<and>
   (\<exists>msg. UnrollMultiMmaPattern (unrollTo [2, 2]) mma_2x2 emptyRewriter =
      Inr (failure msg, emptyRewriter))"
proof -
  have bounds: "getIterationBounds mma_2x2 = Inr [2, 2]"
    by code_simp
  have native: "nativeShape (unrollTo s) = Some (\<lambda>op. Some s)" "(\<lambda>op. Some s) mma_2x2 = Some s" for s
    by (simp_all add: unrollTo_def)
  have pos: "\<forall>b\<in>set [2, 2 :: int]. 0 < b" "\<forall>t\<in>set [3, 1 :: int]. 0 < t"
    by simp_all
  have nondiv: "length [2, 2 :: int] < length [3, 1 :: int] \<or>
      (\<exists>i<length [2, 2 :: int]. [2, 2] ! i mod padTileShapeToSize [3, 1] (length [2, 2 :: int]) ! i \<noteq> 0)"
    by (auto simp: padTileShapeToSize_def intro: exI[of _ 0])
  have ones: "length [2, 2 :: int] \<le> length [2, 2 :: int] \<and>
      (\<forall>i<length [2, 2 :: int]. [2, 2] ! i = padTileShapeToSize [2, 2] (length [2, 2 :: int]) ! i)"
    by (simp add: padTileShapeToSize_def)
  from UnrollMultiMmaPattern_rejects[OF native bounds pos, of emptyRewriter, THEN conjunct1, rule_format, OF nondiv]
  have a: "\<exists>msg. UnrollMultiMmaPattern (unrollTo [3, 1]) mma_2x2 emptyRewriter =
      Inr (failure msg, emptyRewriter)" .
  from UnrollMultiMmaPattern_rejects[OF native bounds pos(1) pos(1), of emptyRewriter,
      THEN conjunct2, THEN conjunct1, rule_format, OF ones]
  have b: "\<exists>msg. UnrollMultiMmaPattern (unrollTo [2, 2]) mma_2x2 emptyRewriter =
      Inr (failure msg, emptyRewriter)" .
  from a b show ?thesis by (rule conjI)
qed


section \<open>Folding of unit dimensions\<close>

lemma at_in_range: "i < length xs \<Longrightarrow> at xs (int i) = Inr (xs ! i)"
  by (simp add: at_def)

lemma outerRanks_3:
  assumes "length (getIndexingMapsArray mmaOp) = 3"
  shows "getLhsOuterRank mmaOp = Inr (getNumResults (getIndexingMapsArray mmaOp ! 0))"
    and "getRhsOuterRank mmaOp = Inr (getNumResults (getIndexingMapsArray mmaOp ! 1))"
    and "getAccOuterRank mmaOp = Inr (getNumResults (getIndexingMapsArray mmaOp ! 2))"
  using assms
  by (simp_all add: getLhsOuterRank_def getRhsOuterRank_def getAccOuterRank_def andThen_def at_def)

lemma DropMultiMmaUnitDimsPattern_run:
  assumes len: "length (getIndexingMapsArray mmaOp) = 3"
    and sem: "\<not> hasTensorSemantics mmaOp"
    and bounds: "getIterationBounds mmaOp = Inr bounds" "bounds \<noteq> []" "\<forall>b\<in>set bounds. b = 1"
  shows "DropMultiMmaUnitDimsPattern mmaOp rewriter =
     (case dropLeadUnitDims rewriter (getLhs mmaOp) (getNumResults (getIndexingMapsArray mmaOp ! 0)) of
        (newLhs, rewriter1) \<Rightarrow>
      case dropLeadUnitDims rewriter1 (getRhs mmaOp) (getNumResults (getIndexingMapsArray mmaOp ! 1)) of
        (newRhs, rewriter2) \<Rightarrow>
      case dropLeadUnitDims rewriter2 (getAcc mmaOp) (getNumResults (getIndexingMapsArray mmaOp ! 2)) of
        (newAcc, rewriter3) \<Rightarrow>
      case create rewriter3
             (MultiMma (buildMultiMmaOp newLhs newRhs newAcc
                [emptyAffineMap, emptyAffineMap, emptyAffineMap] [] (getKind mmaOp))) of
        (newMmaOp, rewriter4) \<Rightarrow>
      case create rewriter4 (BroadcastOp (getResultType mmaOp) newMmaOp) of
        (broadcast, rewriter5) \<Rightarrow>
      Inr (success, replaceOp rewriter5 broadcast))"
  using sem bounds
  by (simp add: DropMultiMmaUnitDimsPattern_def outerRanks_3[OF len] andThen_def list_all_iff
      split: prod.splits)

lemma DropMultiMmaUnitDimsPattern_success_iff:
  assumes len: "length (getIndexingMapsArray mmaOp) = 3"
  shows "(\<exists>rewriter'. DropMultiMmaUnitDimsPattern mmaOp rewriter = Inr (success, rewriter')) \<longleftrightarrow>
     \<not> hasTensorSemantics mmaOp \<and>
     (\<exists>bounds. getIterationBounds mmaOp = Inr bounds \<and> bounds \<noteq> [] \<and> (\<forall>b\<in>set bounds. b = 1))"
proof
  assume "\<exists>rewriter'. DropMultiMmaUnitDimsPattern mmaOp rewriter = Inr (success, rewriter')"
  then show "\<not> hasTensorSemantics mmaOp \<and>
     (\<exists>bounds. getIterationBounds mmaOp = Inr bounds \<and> bounds \<noteq> [] \<and> (\<forall>b\<in>set bounds. b = 1))"
    by (auto simp: DropMultiMmaUnitDimsPattern_def andThen_def list_all_iff
        split: if_splits sum.splits)
next
  assume "\<not> hasTensorSemantics mmaOp \<and>
     (\<exists>bounds. getIterationBounds mmaOp = Inr bounds \<and> bounds \<noteq> [] \<and> (\<forall>b\<in>set bounds. b = 1))"
  then obtain bounds where "\<not> hasTensorSemantics mmaOp" "getIterationBounds mmaOp = Inr bounds"
    "bounds \<noteq> []" "\<forall>b\<in>set bounds. b = 1" by blast
  from DropMultiMmaUnitDimsPattern_run[OF len this]
  show "\<exists>rewriter'. DropMultiMmaUnitDimsPattern mmaOp rewriter = Inr (success, rewriter')"
    by (auto split: prod.splits)
qed

text \<open>
  Claim C6. On an operation with its three maps, the folding of unit dimensions succeeds
  exactly when the operation has no tensor semantics and its derived bounds are not
  empty and all one. When it succeeds and every operand has outer rank two, it extracts
  position \<open>[0, 0]\<close> of each operand, which drops the two leading dimensions of its type,
  creates the contraction whose operands are the three extracted values, whose maps are
  three empty maps (no dimension, no symbol, no result), which has no iterator, the
  intrinsic kind of the original and the type of the extracted accumulator as its
  result type, and replaces the operation by a broadcast of the new result to the
  original result type.
\<close>

theorem DropMultiMmaUnitDimsPattern_spec:
  assumes len: "length (getIndexingMapsArray mmaOp) = 3"
  shows "((\<exists>rewriter'. DropMultiMmaUnitDimsPattern mmaOp rewriter = Inr (success, rewriter')) \<longleftrightarrow>
           \<not> hasTensorSemantics mmaOp \<and>
           (\<exists>bounds. getIterationBounds mmaOp = Inr bounds \<and> bounds \<noteq> [] \<and>
              (\<forall>b\<in>set bounds. b = 1))) \<and>
         (\<forall>rewriter'.
            DropMultiMmaUnitDimsPattern mmaOp rewriter = Inr (success, rewriter') \<and>
            (\<forall>index<3. getNumResults (getIndexingMapsArray mmaOp ! index) = 2) \<longrightarrow>
            (\<exists>newLhs newRhs newAcc newOp newMmaOp broadcast.
               created rewriter' = created rewriter @
                 [ExtractOp (getLhs mmaOp) [0, 0], ExtractOp (getRhs mmaOp) [0, 0],
                  ExtractOp (getAcc mmaOp) [0, 0],
                  MultiMma newOp,
                  BroadcastOp (getResultType mmaOp) newMmaOp] \<and>
               newLhs =
                 \<lparr>getValueId = OpResult (length (created rewriter)),
                  getType = (getLhsType mmaOp)\<lparr>getShape := drop 2 (getShape (getLhsType mmaOp))\<rparr>\<rparr> \<and>
               newRhs =
                 \<lparr>getValueId = OpResult (length (created rewriter) + 1),
                  getType = (getRhsType mmaOp)\<lparr>getShape := drop 2 (getShape (getRhsType mmaOp))\<rparr>\<rparr> \<and>
               newAcc =
                 \<lparr>getValueId = OpResult (length (created rewriter) + 2),
                  getType = (getAccType mmaOp)\<lparr>getShape := drop 2 (getShape (getAccType mmaOp))\<rparr>\<rparr> \<and>
               getLhs newOp = newLhs \<and> getRhs newOp = newRhs \<and> getAcc newOp = newAcc \<and>
               getIndexingMapsArray newOp =
                 [\<lparr>getNumDims = 0, getNumSymbols = 0, getResults = []\<rparr>,
                  \<lparr>getNumDims = 0, getNumSymbols = 0, getResults = []\<rparr>,
                  \<lparr>getNumDims = 0, getNumSymbols = 0, getResults = []\<rparr>] \<and>
               getIteratorTypes newOp = [] \<and>
               getKind newOp = getKind mmaOp \<and>
               getResultType newOp = getType newAcc \<and>
               newMmaOp =
                 \<lparr>getValueId = OpResult (length (created rewriter) + 3),
                  getType = getType newAcc\<rparr> \<and>
               broadcast =
                 \<lparr>getValueId = OpResult (length (created rewriter) + 4),
                  getType = getResultType mmaOp\<rparr> \<and>
               replacement rewriter' = Some broadcast))"
proof (intro conjI allI impI)
  show "(\<exists>rewriter'. DropMultiMmaUnitDimsPattern mmaOp rewriter = Inr (success, rewriter')) \<longleftrightarrow>
           \<not> hasTensorSemantics mmaOp \<and>
           (\<exists>bounds. getIterationBounds mmaOp = Inr bounds \<and> bounds \<noteq> [] \<and>
              (\<forall>b\<in>set bounds. b = 1))"
    by (rule DropMultiMmaUnitDimsPattern_success_iff[OF len])
next
  fix rewriter'
  assume a: "DropMultiMmaUnitDimsPattern mmaOp rewriter = Inr (success, rewriter') \<and>
            (\<forall>index<3. getNumResults (getIndexingMapsArray mmaOp ! index) = 2)"
  then have ranks: "getNumResults (getIndexingMapsArray mmaOp ! 0) = 2"
    "getNumResults (getIndexingMapsArray mmaOp ! 1) = 2"
    "getNumResults (getIndexingMapsArray mmaOp ! 2) = 2"
    by simp_all
  from a have "\<exists>r. DropMultiMmaUnitDimsPattern mmaOp rewriter = Inr (success, r)" by blast
  then obtain bounds where "\<not> hasTensorSemantics mmaOp" "getIterationBounds mmaOp = Inr bounds"
    "bounds \<noteq> []" "\<forall>b\<in>set bounds. b = 1"
    unfolding DropMultiMmaUnitDimsPattern_success_iff[OF len] by blast
  note run = DropMultiMmaUnitDimsPattern_run[OF len this, of rewriter, unfolded ranks]
  have two: "replicate 2 (0::int) = [0, 0]" by (simp add: numeral_2_eq_2)
  define n where "n = length (created rewriter)"
  define newLhs where "newLhs = \<lparr>getValueId = OpResult n,
     getType = (getLhsType mmaOp)\<lparr>getShape := drop 2 (getShape (getLhsType mmaOp))\<rparr>\<rparr>"
  define newRhs where "newRhs = \<lparr>getValueId = OpResult (n + 1),
     getType = (getRhsType mmaOp)\<lparr>getShape := drop 2 (getShape (getRhsType mmaOp))\<rparr>\<rparr>"
  define newAcc where "newAcc = \<lparr>getValueId = OpResult (n + 2),
     getType = (getAccType mmaOp)\<lparr>getShape := drop 2 (getShape (getAccType mmaOp))\<rparr>\<rparr>"
  define newOp where "newOp =
     \<lparr>getLhs = newLhs, getRhs = newRhs, getAcc = newAcc,
      getIndexingMapsArray =
        [\<lparr>getNumDims = 0, getNumSymbols = 0, getResults = []\<rparr>,
         \<lparr>getNumDims = 0, getNumSymbols = 0, getResults = []\<rparr>,
         \<lparr>getNumDims = 0, getNumSymbols = 0, getResults = []\<rparr>],
      getIteratorTypes = [], getKind = getKind mmaOp, getResultType = getType newAcc\<rparr>"
  define newMmaOp where "newMmaOp = \<lparr>getValueId = OpResult (n + 3), getType = getType newAcc\<rparr>"
  define broadcast where "broadcast = \<lparr>getValueId = OpResult (n + 4),
     getType = getResultType mmaOp\<rparr>"
  from a run have r': "rewriter' = rewriter
      \<lparr>created := created rewriter @
         [ExtractOp (getLhs mmaOp) [0, 0], ExtractOp (getRhs mmaOp) [0, 0],
          ExtractOp (getAcc mmaOp) [0, 0],
          MultiMma newOp,
          BroadcastOp (getResultType mmaOp) newMmaOp],
       replacement := Some broadcast\<rparr>"
    by (auto simp add: dropLeadUnitDims_def create_def valueAt_def replaceOp_def Let_def two
        buildMultiMmaOp_def emptyAffineMap_def newOp_def newLhs_def newRhs_def newAcc_def
        newMmaOp_def broadcast_def n_def getLhsType_def getRhsType_def getAccType_def
        numeral_2_eq_2)
  show "\<exists>newLhs newRhs newAcc newOp newMmaOp broadcast.
               created rewriter' = created rewriter @
                 [ExtractOp (getLhs mmaOp) [0, 0], ExtractOp (getRhs mmaOp) [0, 0],
                  ExtractOp (getAcc mmaOp) [0, 0],
                  MultiMma newOp,
                  BroadcastOp (getResultType mmaOp) newMmaOp] \<and>
               newLhs =
                 \<lparr>getValueId = OpResult (length (created rewriter)),
                  getType = (getLhsType mmaOp)\<lparr>getShape := drop 2 (getShape (getLhsType mmaOp))\<rparr>\<rparr> \<and>
               newRhs =
                 \<lparr>getValueId = OpResult (length (created rewriter) + 1),
                  getType = (getRhsType mmaOp)\<lparr>getShape := drop 2 (getShape (getRhsType mmaOp))\<rparr>\<rparr> \<and>
               newAcc =
                 \<lparr>getValueId = OpResult (length (created rewriter) + 2),
                  getType = (getAccType mmaOp)\<lparr>getShape := drop 2 (getShape (getAccType mmaOp))\<rparr>\<rparr> \<and>
               getLhs newOp = newLhs \<and> getRhs newOp = newRhs \<and> getAcc newOp = newAcc \<and>
               getIndexingMapsArray newOp =
                 [\<lparr>getNumDims = 0, getNumSymbols = 0, getResults = []\<rparr>,
                  \<lparr>getNumDims = 0, getNumSymbols = 0, getResults = []\<rparr>,
                  \<lparr>getNumDims = 0, getNumSymbols = 0, getResults = []\<rparr>] \<and>
               getIteratorTypes newOp = [] \<and>
               getKind newOp = getKind mmaOp \<and>
               getResultType newOp = getType newAcc \<and>
               newMmaOp =
                 \<lparr>getValueId = OpResult (length (created rewriter) + 3),
                  getType = getType newAcc\<rparr> \<and>
               broadcast =
                 \<lparr>getValueId = OpResult (length (created rewriter) + 4),
                  getType = getResultType mmaOp\<rparr> \<and>
               replacement rewriter' = Some broadcast"
    apply (rule exI[of _ newLhs], rule exI[of _ newRhs], rule exI[of _ newAcc],
        rule exI[of _ newOp], rule exI[of _ newMmaOp], rule exI[of _ broadcast])
    apply (simp add: r')
    apply (simp add: newOp_def newLhs_def newRhs_def newAcc_def newMmaOp_def broadcast_def n_def)
    done
qed

theorem DropMultiMmaUnitDimsPattern_spec_witness:
  "(\<exists>rewriter'. DropMultiMmaUnitDimsPattern mma_1x1x1 emptyRewriter = Inr (success, rewriter')) \<and>
   created folded_1x1x1 =
     [ExtractOp (getLhs mma_1x1x1) [0, 0], ExtractOp (getRhs mma_1x1x1) [0, 0],
      ExtractOp (getAcc mma_1x1x1) [0, 0],
      MultiMma
        \<lparr>getLhs = \<lparr>getValueId = OpResult 0, getType = vectorOf [4] ''f16''\<rparr>,
         getRhs = \<lparr>getValueId = OpResult 1, getType = vectorOf [4] ''f16''\<rparr>,
         getAcc = \<lparr>getValueId = OpResult 2, getType = vectorOf [4] ''f32''\<rparr>,
         getIndexingMapsArray =
           [\<lparr>getNumDims = 0, getNumSymbols = 0, getResults = []\<rparr>,
            \<lparr>getNumDims = 0, getNumSymbols = 0, getResults = []\<rparr>,
            \<lparr>getNumDims = 0, getNumSymbols = 0, getResults = []\<rparr>],
         getIteratorTypes = [], getKind = mfma_f16, getResultType = vectorOf [4] ''f32''\<rparr>,
      BroadcastOp (vectorOf [1, 1, 4] ''f32'')
        \<lparr>getValueId = OpResult 3, getType = vectorOf [4] ''f32''\<rparr>] \<and>
   replacement folded_1x1x1 =
     Some \<lparr>getValueId = OpResult 4, getType = vectorOf [1, 1, 4] ''f32''\<rparr>"
proof -
  have len: "length (getIndexingMapsArray mma_1x1x1) = 3"
    by (simp add: mma_1x1x1_def)
  have sem: "\<not> hasTensorSemantics mma_1x1x1"
    by (simp add: hasTensorSemantics_def mma_1x1x1_def vectorOf_def)
  have bounds: "getIterationBounds mma_1x1x1 = Inr [1, 1, 1]"
    by code_simp
  note spec = DropMultiMmaUnitDimsPattern_spec[OF len, of emptyRewriter]
  from spec[THEN conjunct1] sem bounds
  have ex: "\<exists>rewriter'. DropMultiMmaUnitDimsPattern mma_1x1x1 emptyRewriter = Inr (success, rewriter')"
    by simp
  then have run: "DropMultiMmaUnitDimsPattern mma_1x1x1 emptyRewriter = Inr (success, folded_1x1x1)"
    by (auto simp: folded_1x1x1_def)
  have ranks: "\<forall>index<3. getNumResults (getIndexingMapsArray mma_1x1x1 ! index) = 2"
    by (simp add: all_less_3 mma_1x1x1_def affineMapOf_def getNumResults_def)
  from spec[THEN conjunct2, rule_format, of folded_1x1x1] run ranks
  obtain newLhs newRhs newAcc newOp newMmaOp broadcast where
    created: "created folded_1x1x1 = created emptyRewriter @
       [ExtractOp (getLhs mma_1x1x1) [0, 0], ExtractOp (getRhs mma_1x1x1) [0, 0],
        ExtractOp (getAcc mma_1x1x1) [0, 0],
        MultiMma newOp,
        BroadcastOp (getResultType mma_1x1x1) newMmaOp]"
    and vals: "newLhs =
        \<lparr>getValueId = OpResult (length (created emptyRewriter)),
         getType = (getLhsType mma_1x1x1)\<lparr>getShape := drop 2 (getShape (getLhsType mma_1x1x1))\<rparr>\<rparr>"
      "newRhs =
        \<lparr>getValueId = OpResult (length (created emptyRewriter) + 1),
         getType = (getRhsType mma_1x1x1)\<lparr>getShape := drop 2 (getShape (getRhsType mma_1x1x1))\<rparr>\<rparr>"
      "newAcc =
        \<lparr>getValueId = OpResult (length (created emptyRewriter) + 2),
         getType = (getAccType mma_1x1x1)\<lparr>getShape := drop 2 (getShape (getAccType mma_1x1x1))\<rparr>\<rparr>"
      "newMmaOp =
        \<lparr>getValueId = OpResult (length (created emptyRewriter) + 3), getType = getType newAcc\<rparr>"
      "broadcast =
        \<lparr>getValueId = OpResult (length (created emptyRewriter) + 4),
         getType = getResultType mma_1x1x1\<rparr>"
    and fields: "getLhs newOp = newLhs" "getRhs newOp = newRhs" "getAcc newOp = newAcc"
      "getIndexingMapsArray newOp =
         [\<lparr>getNumDims = 0, getNumSymbols = 0, getResults = []\<rparr>,
          \<lparr>getNumDims = 0, getNumSymbols = 0, getResults = []\<rparr>,
          \<lparr>getNumDims = 0, getNumSymbols = 0, getResults = []\<rparr>]"
      "getIteratorTypes newOp = []" "getKind newOp = getKind mma_1x1x1"
      "getResultType newOp = getType newAcc"
    and replaced: "replacement folded_1x1x1 = Some broadcast"
    by blast
  have newOp: "newOp =
      \<lparr>getLhs = newLhs, getRhs = newRhs, getAcc = newAcc,
       getIndexingMapsArray =
         [\<lparr>getNumDims = 0, getNumSymbols = 0, getResults = []\<rparr>,
          \<lparr>getNumDims = 0, getNumSymbols = 0, getResults = []\<rparr>,
          \<lparr>getNumDims = 0, getNumSymbols = 0, getResults = []\<rparr>],
       getIteratorTypes = [], getKind = getKind mma_1x1x1, getResultType = getType newAcc\<rparr>"
    using fields by (cases newOp) simp
  have types: "getLhsType mma_1x1x1 = vectorOf [1, 1, 4] ''f16''"
    "getRhsType mma_1x1x1 = vectorOf [1, 1, 4] ''f16''"
    "getAccType mma_1x1x1 = vectorOf [1, 1, 4] ''f32''"
    "getResultType mma_1x1x1 = vectorOf [1, 1, 4] ''f32''"
    "getKind mma_1x1x1 = mfma_f16"
    by (simp_all add: mma_1x1x1_def getLhsType_def getRhsType_def getAccType_def)
  have dropped: "\<And>elementType. (vectorOf [1, 1, 4] elementType)
      \<lparr>getShape := drop 2 (getShape (vectorOf [1, 1, 4] elementType))\<rparr> = vectorOf [4] elementType"
    by (simp add: vectorOf_def)
  have "created folded_1x1x1 =
     [ExtractOp (getLhs mma_1x1x1) [0, 0], ExtractOp (getRhs mma_1x1x1) [0, 0],
      ExtractOp (getAcc mma_1x1x1) [0, 0],
      MultiMma
        \<lparr>getLhs = \<lparr>getValueId = OpResult 0, getType = vectorOf [4] ''f16''\<rparr>,
         getRhs = \<lparr>getValueId = OpResult 1, getType = vectorOf [4] ''f16''\<rparr>,
         getAcc = \<lparr>getValueId = OpResult 2, getType = vectorOf [4] ''f32''\<rparr>,
         getIndexingMapsArray =
           [\<lparr>getNumDims = 0, getNumSymbols = 0, getResults = []\<rparr>,
            \<lparr>getNumDims = 0, getNumSymbols = 0, getResults = []\<rparr>,
            \<lparr>getNumDims = 0, getNumSymbols = 0, getResults = []\<rparr>],
         getIteratorTypes = [], getKind = mfma_f16, getResultType = vectorOf [4] ''f32''\<rparr>,
      BroadcastOp (vectorOf [1, 1, 4] ''f32'')
        \<lparr>getValueId = OpResult 3, getType = vectorOf [4] ''f32''\<rparr>]"
    unfolding created newOp vals types dropped by (simp add: emptyRewriter_def)
  moreover have "replacement folded_1x1x1 =
     Some \<lparr>getValueId = OpResult 4, getType = vectorOf [1, 1, 4] ''f32''\<rparr>"
    unfolding replaced vals types by (simp add: emptyRewriter_def)
  ultimately show ?thesis using ex by blast
qed

section \<open>Lowering of shuffles\<close>

lemma LowerShuffleTensor_sliceShuffle:
  "LowerShuffleTensor 10 sliceShuffle (blockWith sliceShuffle) =
     Inr (success,
          \<lparr>irBlock =
             [Plain 20 (InsertSliceOp (OpResultOf 1 0) (OpResultOf 2 0) [IntegerAttr 0]
                          [IntegerAttr 4] [IntegerAttr 1]),
              Plain 21 (ValueBarrierOp (OpResultOf 20 0)),
              Plain 12 (ExtractSliceOp (OpResultOf 21 0) [IntegerAttr 0] [IntegerAttr 2]
                          [IntegerAttr 1]),
              Plain 22 (ValueBarrierOp (OpResultOf 12 0)),
              ShuffleTensor 10 (sliceShuffle\<lparr>getBody := []\<rparr>),
              Plain 14 (OtherOp ''use'' [OpResultOf 22 0])],
           nextId = 23, erasedBlocks = [11], erasedOps = [13], createdElsewhere = []\<rparr>)"
  by code_simp

text \<open>
  Claim C7. The pattern reads the value that the terminator of the body yields before
  the body is inlined. When the body yields its block argument, that value is the
  argument itself: inlining replaces the uses of the argument by the result of the
  write barrier and erases the block with its argument, and the pattern then asks for
  the insertion point after the erased argument and builds the read barrier on it.
  The lowering of such a region does not produce a read barrier on the result of the
  write barrier: it stops on a value that no longer exists. (For a body that yields the
  result of one of its operations the four steps are as described: see
  \<open>LowerShuffleTensor_sliceShuffle\<close>.)
\<close>

theorem LowerShuffleTensor_identity_body:
  assumes "getBody shuffleOp \<noteq> []"
    and "snd (last (getBody shuffleOp)) = YieldOp (BlockArgumentOf (getBodyBlock shuffleOp) 0)"
  shows "LowerShuffleTensor shuffleId shuffleOp rewriter = Inl DanglingValue"
  using assms
  by (simp add: LowerShuffleTensor_def Let_def createOp_def getTerminator_def andThen_simps
      at_def inlineBlockBefore_def setInsertionPointAfterValue_def split: prod.splits)

theorem LowerShuffleTensor_identity_body_witness:
  "getBody identityShuffle \<noteq> [] \<and>
   snd (last (getBody identityShuffle)) = YieldOp (BlockArgumentOf (getBodyBlock identityShuffle) 0) \<and>
   LowerShuffleTensor 10 identityShuffle (blockWith identityShuffle) = Inl DanglingValue"
  using LowerShuffleTensor_identity_body[of identityShuffle 10 "blockWith identityShuffle"]
  by (simp add: identityShuffle_def)


section \<open>Fusion of worker-parallel regions\<close>

lemma tripCountLoop_returns:
  "\<forall>(lb, ub, step) \<in> set triples. step \<noteq> 0 \<Longrightarrow> \<exists>n. tripCountLoop acc triples = Inr n"
proof (induction triples arbitrary: acc)
  case Nil
  then show ?case by simp
next
  case (Cons t triples)
  obtain lb ub step where t: "t = (lb, ub, step)" by (cases t)
  with Cons.prems have "step \<noteq> 0" by simp
  then obtain count where "ceilDiv (wrap64 (ub - lb)) step = Inr count"
    by (simp add: ceilDiv_def Let_def)
  with Cons t show ?case by (simp add: andThen_simps)
qed

lemma getTripCount_returns:
  assumes "hasValidBounds loop"
  shows "\<exists>r. getTripCount loop = Inr r"
proof (cases "isDynamicShape (getStaticLowerBound loop) \<or> isDynamicShape (getStaticUpperBound loop) \<or>
    isDynamicShape (getStaticStep loop)")
  case True
  then show ?thesis by (simp add: getTripCount_def Let_def)
next
  case False
  from assms have len: "length (getStaticLowerBound loop) = length (getStaticUpperBound loop)"
    "length (getStaticUpperBound loop) = length (getStaticStep loop)"
    and nz: "0 \<notin> set (getStaticStep loop)"
    by (simp_all add: hasValidBounds_def)
  have "\<forall>(lb, ub, step) \<in> set (zip (getStaticLowerBound loop)
      (zip (getStaticUpperBound loop) (getStaticStep loop))). step \<noteq> 0"
    using nz by (auto dest!: set_zip_rightD)
  from tripCountLoop_returns[OF this, of 1] obtain n where
    "tripCountLoop 1 (zip (getStaticLowerBound loop)
      (zip (getStaticUpperBound loop) (getStaticStep loop))) = Inr n" by blast
  with False len show ?thesis
    by (simp add: getTripCount_def Let_def zip_equal_def andThen_simps)
qed

lemma getTripCount_dynamic:
  "isDynamicShape (getStaticLowerBound loop) \<or> isDynamicShape (getStaticUpperBound loop) \<or>
    isDynamicShape (getStaticStep loop) \<Longrightarrow> getTripCount loop = Inr None"
  by (simp add: getTripCount_def Let_def)

lemma getTripCount_Some_static:
  "getTripCount loop = Inr (Some n) \<Longrightarrow>
     \<not> isDynamicShape (getStaticLowerBound loop) \<and> \<not> isDynamicShape (getStaticUpperBound loop) \<and>
     \<not> isDynamicShape (getStaticStep loop)"
  by (auto simp: getTripCount_def Let_def split: if_splits)

lemma getMixedValues_static:
  "\<not> isDynamicShape staticValues \<Longrightarrow>
     getMixedValues staticValues dynamic = Inr (map IntegerAttr staticValues)"
  by (induction staticValues) (auto simp: isDynamicShape_def andThen_simps)

lemma isAll_static:
  "isAll constantOf (map IntegerAttr xs) cmp \<longleftrightarrow> (\<forall>x\<in>set xs. x = cmp)"
  by (simp add: isAll_def isConstantIntValue_def list_all_iff)

lemma compareWorkerCountsAndTypes_success:
  "compareWorkerCountsAndTypes producer consumer = Inr success \<longleftrightarrow>
     (\<exists>n. getTripCount producer = Inr (Some n) \<and> getTripCount consumer = Inr (Some n)) \<and>
     getMappingAttr producer = getMappingAttr consumer \<and>
     checkMappingTypes (getMappingAttr producer) \<and> checkMappingTypes (getMappingAttr consumer)"
  by (auto simp: compareWorkerCountsAndTypes_def andThen_def split: sum.splits)

lemma compareWorkerCountsAndTypes_returns:
  assumes "hasValidBounds producer" "hasValidBounds consumer"
  shows "\<exists>r. compareWorkerCountsAndTypes producer consumer = Inr r"
  using getTripCount_returns[OF assms(1)] getTripCount_returns[OF assms(2)]
  by (auto simp: compareWorkerCountsAndTypes_def andThen_simps)

text \<open>The checks of fuseForallIntoSlice, up to the first mutation.\<close>

lemma fuseForallIntoSlice_early:
  "consumerChain = [] \<or> \<not> isExtractSliceOp (snd (last consumerChain)) \<or>
   getNumOpResults producer \<noteq> 1 \<Longrightarrow>
   fuseForallIntoSlice constantOf rewriter producer consumer consumerChain =
     Inr (failure [], rewriter)"
  by (auto simp: fuseForallIntoSlice_def isExtractSliceOp_def Let_def split: Op.splits)

lemma fuseForallIntoSlice_compare_failed:
  assumes "compareWorkerCountsAndTypes producer consumer = Inr r" "r \<noteq> success"
  shows "fuseForallIntoSlice constantOf rewriter producer consumer consumerChain =
     Inr (failure [], rewriter)"
  using assms
  by (auto simp: fuseForallIntoSlice_def andThen_simps failed_def Let_def split: Op.splits)

lemma fuseForallIntoSlice_bounds_failed:
  assumes "compareWorkerCountsAndTypes producer consumer = Inr success"
    and "(\<exists>x\<in>set (getStaticStep producer). x \<noteq> 1) \<or>
         (\<exists>x\<in>set (getStaticLowerBound producer). x \<noteq> 0) \<or>
         (\<exists>x\<in>set (getStaticStep consumer). x \<noteq> 1) \<or>
         (\<exists>x\<in>set (getStaticLowerBound consumer). x \<noteq> 0)"
  shows "fuseForallIntoSlice constantOf rewriter producer consumer consumerChain =
     Inr (failure [], rewriter)"
proof -
  from assms(1) obtain n where n: "getTripCount producer = Inr (Some n)"
    "getTripCount consumer = Inr (Some n)"
    unfolding compareWorkerCountsAndTypes_success by blast
  note st = getTripCount_Some_static[OF n(1)] getTripCount_Some_static[OF n(2)]
  have mixed: "getMixedStep producer = Inr (map IntegerAttr (getStaticStep producer))"
    "getMixedLowerBound producer = Inr (map IntegerAttr (getStaticLowerBound producer))"
    "getMixedStep consumer = Inr (map IntegerAttr (getStaticStep consumer))"
    "getMixedLowerBound consumer = Inr (map IntegerAttr (getStaticLowerBound consumer))"
    using st by (simp_all add: getMixedStep_def getMixedLowerBound_def getMixedValues_static)
  from assms(2) have "\<not> isAll constantOf (map IntegerAttr (getStaticStep producer)) 1 \<or>
      \<not> isAll constantOf (map IntegerAttr (getStaticLowerBound producer)) 0 \<or>
      \<not> isAll constantOf (map IntegerAttr (getStaticStep consumer)) 1 \<or>
      \<not> isAll constantOf (map IntegerAttr (getStaticLowerBound consumer)) 0"
    unfolding isAll_static by blast
  then show ?thesis
    using assms(1) mixed
    by (auto simp: fuseForallIntoSlice_def andThen_simps failed_def Let_def split: Op.splits)
qed

text \<open>The wrap-around leaves the integers of the 64-bit range as they are; the product
  of the counts of \<open>producerHuge\<close> is outside the range and wraps to zero.\<close>

lemma wrap64_id: "- (2 ^ 63) \<le> x \<Longrightarrow> x < 2 ^ 63 \<Longrightarrow> wrap64 x = x"
  by (simp add: wrap64_def)

lemma getTripCount_wraps: "getTripCount producerHuge = Inr (Some 0)"
  by code_simp

lemma tripCountLoop_crash: "tripCountLoop acc triples = Inl c \<Longrightarrow> c = AssertionFailed"
proof (induction triples arbitrary: acc)
  case Nil
  then show ?case by simp
next
  case (Cons t triples)
  obtain lb ub step where t: "t = (lb, ub, step)" by (cases t)
  show ?case
  proof (cases "ceilDiv (wrap64 (ub - lb)) step")
    case (Inl c')
    with Cons.prems t show ?thesis
      by (auto simp: andThen_simps ceilDiv_def Let_def split: if_splits)
  next
    case (Inr count)
    with Cons t show ?thesis by (simp add: andThen_simps)
  qed
qed

lemma getTripCount_crash: "getTripCount loop = Inl c \<Longrightarrow> c = AssertionFailed"
  by (auto simp: getTripCount_def Let_def zip_equal_def andThen_def
      split: if_splits sum.splits dest: tripCountLoop_crash)

lemma compareWorkerCountsAndTypes_crash:
  "compareWorkerCountsAndTypes producer consumer = Inl c \<Longrightarrow> c = AssertionFailed"
  by (auto simp: compareWorkerCountsAndTypes_def andThen_def
      split: if_splits sum.splits dest: getTripCount_crash)

lemma fuseForallIntoSlice_compare_crashed:
  assumes "compareWorkerCountsAndTypes producer consumer = Inl c"
    and "consumerChain \<noteq> []" "isExtractSliceOp (snd (last consumerChain))"
      "getNumOpResults producer = 1"
  shows "fuseForallIntoSlice constantOf rewriter producer consumer consumerChain = Inl c"
  using assms
  by (auto simp: fuseForallIntoSlice_def andThen_simps isExtractSliceOp_def Let_def split: Op.splits)

lemma fuseForallIntoSlice_violated:
  assumes violated:
      "consumerChain = [] \<or> \<not> isExtractSliceOp (snd (last consumerChain)) \<or>
       getNumOpResults producer \<noteq> 1 \<or>
       getTripCount producer = Inr None \<or> getTripCount consumer = Inr None \<or>
       (\<exists>m n. getTripCount producer = Inr (Some m) \<and> getTripCount consumer = Inr (Some n) \<and> m \<noteq> n) \<or>
       getMappingAttr producer \<noteq> getMappingAttr consumer \<or>
       \<not> checkMappingTypes (getMappingAttr producer) \<or>
       \<not> checkMappingTypes (getMappingAttr consumer) \<or>
       (\<exists>lb\<in>set (getStaticLowerBound producer) \<union> set (getStaticLowerBound consumer). lb \<noteq> 0) \<or>
       (\<exists>step\<in>set (getStaticStep producer) \<union> set (getStaticStep consumer). step \<noteq> 1)"
  shows "(fuseForallIntoSlice constantOf rewriter producer consumer consumerChain =
            Inr (failure [], rewriter) \<or>
          fuseForallIntoSlice constantOf rewriter producer consumer consumerChain =
            Inl AssertionFailed) \<and>
         (hasValidBounds producer \<and> hasValidBounds consumer \<longrightarrow>
          fuseForallIntoSlice constantOf rewriter producer consumer consumerChain =
            Inr (failure [], rewriter))"
proof (cases "consumerChain = [] \<or> \<not> isExtractSliceOp (snd (last consumerChain)) \<or>
       getNumOpResults producer \<noteq> 1")
  case True
  then show ?thesis by (simp only: fuseForallIntoSlice_early) simp
next
  case early: False
  show ?thesis
  proof (cases "compareWorkerCountsAndTypes producer consumer")
    case (Inl c)
    then have c: "c = AssertionFailed" by (rule compareWorkerCountsAndTypes_crash)
    from Inl early have "fuseForallIntoSlice constantOf rewriter producer consumer consumerChain = Inl c"
      by (intro fuseForallIntoSlice_compare_crashed) auto
    moreover have "\<not> (hasValidBounds producer \<and> hasValidBounds consumer)"
      using compareWorkerCountsAndTypes_returns[of producer consumer] Inl by auto
    ultimately show ?thesis using c by simp
  next
    case (Inr r)
    have "fuseForallIntoSlice constantOf rewriter producer consumer consumerChain =
        Inr (failure [], rewriter)"
    proof (cases "r = success")
      case False
      with Inr show ?thesis by (rule fuseForallIntoSlice_compare_failed)
    next
      case True
      with Inr have ok: "compareWorkerCountsAndTypes producer consumer = Inr success" by simp
      then have "(\<exists>n. getTripCount producer = Inr (Some n) \<and> getTripCount consumer = Inr (Some n))"
        "getMappingAttr producer = getMappingAttr consumer"
        "checkMappingTypes (getMappingAttr producer)" "checkMappingTypes (getMappingAttr consumer)"
        unfolding compareWorkerCountsAndTypes_success by blast+
      with violated early
      have "(\<exists>x\<in>set (getStaticStep producer). x \<noteq> 1) \<or>
           (\<exists>x\<in>set (getStaticLowerBound producer). x \<noteq> 0) \<or>
           (\<exists>x\<in>set (getStaticStep consumer). x \<noteq> 1) \<or>
           (\<exists>x\<in>set (getStaticLowerBound consumer). x \<noteq> 0)"
        by auto
      with ok show ?thesis by (rule fuseForallIntoSlice_bounds_failed)
    qed
    then show ?thesis by simp
  qed
qed



text \<open>
  Claim C10. When a lower bound, an upper bound or a step of the producer or of the
  consumer is dynamic, the fusion returns failure with the rewriter it was given, on
  regions with well-formed bounds; the only other outcome is the failed assertion of
  \<open>getTripCount\<close> on the other region when its bounds are static and not well formed,
  which happens before any change.
\<close>

theorem fuseForallIntoSlice_dynamic_bounds:
  assumes dynamic:
      "isDynamicShape (getStaticLowerBound producer) \<or> isDynamicShape (getStaticUpperBound producer) \<or>
       isDynamicShape (getStaticStep producer) \<or>
       isDynamicShape (getStaticLowerBound consumer) \<or> isDynamicShape (getStaticUpperBound consumer) \<or>
       isDynamicShape (getStaticStep consumer)"
  shows "(fuseForallIntoSlice constantOf rewriter producer consumer consumerChain =
            Inr (failure [], rewriter) \<or>
          fuseForallIntoSlice constantOf rewriter producer consumer consumerChain =
            Inl AssertionFailed) \<and>
         (hasValidBounds producer \<and> hasValidBounds consumer \<longrightarrow>
          fuseForallIntoSlice constantOf rewriter producer consumer consumerChain =
            Inr (failure [], rewriter))"
proof -
  from dynamic have "getTripCount producer = Inr None \<or> getTripCount consumer = Inr None"
    using getTripCount_dynamic[of producer] getTripCount_dynamic[of consumer] by blast
  then show ?thesis
    by (intro fuseForallIntoSlice_violated) blast
qed

theorem fuseForallIntoSlice_dynamic_bounds_witness:
  "isDynamicShape (getStaticUpperBound producerDynamic) \<and>
   hasValidBounds producerDynamic \<and> hasValidBounds consumer4 \<and>
   fuseForallIntoSlice noConstants consumerBlock producerDynamic consumer4 [slice42] =
     Inr (failure [], consumerBlock)"
proof -
  have dynamic: "isDynamicShape (getStaticUpperBound producerDynamic)"
    by code_simp
  have valid: "hasValidBounds producerDynamic" "hasValidBounds consumer4"
    by (simp_all add: hasValidBounds_def producerDynamic_def producer4_def consumer4_def)
  have "fuseForallIntoSlice noConstants consumerBlock producerDynamic consumer4 [slice42] =
      Inr (failure [], consumerBlock)"
    using fuseForallIntoSlice_dynamic_bounds[of producerDynamic consumer4
        noConstants consumerBlock "[slice42]"] dynamic valid
    by blast
  with dynamic valid show ?thesis by simp
qed

subsection \<open>The fused region\<close>

lemma insertBefore_split:
  "itemId x = s \<Longrightarrow> s \<notin> itemId ` set pre \<Longrightarrow>
   insertBefore s new (pre @ x # post) = pre @ new @ x # post"
  by (induction pre) auto

lemma insertAfter_split:
  "itemId x = s \<Longrightarrow> s \<notin> itemId ` set pre \<Longrightarrow>
   insertAfter s new (pre @ x # post) = pre @ x # new @ post"
  by (induction pre) auto

lemma createOp_before:
  assumes "irBlock rw = pre @ x # post" "itemId x = s" "s \<notin> itemId ` set pre"
  shows "createOp (Before s) operation rw =
     (OpResultOf (nextId rw) 0,
      rw\<lparr>irBlock := (pre @ [Plain (nextId rw) operation]) @ x # post,
         nextId := Suc (nextId rw)\<rparr>)"
  using assms by (simp add: createOp_def insertAt_def insertBefore_split)

lemma createRanges_before:
  assumes "irBlock rw = pre @ x # post" "itemId x = s" "s \<notin> itemId ` set pre" "s < nextId rw"
  shows "createRanges (Before s) ubs rw =
     (map (\<lambda>j. OpResultOf (nextId rw + j) 0) [0..<length ubs],
      rw\<lparr>irBlock := (pre @ map (\<lambda>j. Plain (nextId rw + j) (ConstantIndexOp (ubs ! j)))
                              [0..<length ubs]) @ x # post,
         nextId := nextId rw + length ubs\<rparr>)"
  using assms
proof (induction ubs arbitrary: rw pre)
  case Nil
  then show ?case by simp
next
  case (Cons ub ubs)
  let ?rw1 = "rw\<lparr>irBlock := (pre @ [Plain (nextId rw) (ConstantIndexOp ub)]) @ x # post,
                 nextId := Suc (nextId rw)\<rparr>"
  have one: "createOp (Before s) (ConstantIndexOp ub) rw = (OpResultOf (nextId rw) 0, ?rw1)"
    using Cons.prems by (intro createOp_before) auto
  have rest: "createRanges (Before s) ubs ?rw1 =
     (map (\<lambda>j. OpResultOf (nextId ?rw1 + j) 0) [0..<length ubs],
      ?rw1\<lparr>irBlock := ((pre @ [Plain (nextId rw) (ConstantIndexOp ub)]) @
                        map (\<lambda>j. Plain (nextId ?rw1 + j) (ConstantIndexOp (ubs ! j)))
                              [0..<length ubs]) @ x # post,
         nextId := nextId ?rw1 + length ubs\<rparr>)"
    using Cons.prems by (intro Cons.IH) auto
  have shift: "\<And>f :: nat \<Rightarrow> 'b. map f [0..<Suc (length ubs)] = f 0 # map (\<lambda>j. f (Suc j)) [0..<length ubs]"
    by (simp add: map_upt_Suc del: upt_Suc)
  show ?case
    using rest by (simp add: one shift del: upt_Suc)
qed


lemma createDelinearizeIndex_before:
  assumes "irBlock rw = pre @ x # post" "itemId x = s" "s \<notin> itemId ` set pre"
  shows "createDelinearizeIndex (Before s) linearIndex ranges rw =
     (map (OpResultOf (nextId rw)) [0..<length ranges],
      rw\<lparr>irBlock := (pre @ [Plain (nextId rw) (AffineDelinearizeIndexOp linearIndex ranges)]) @
                        x # post,
         nextId := Suc (nextId rw)\<rparr>)"
  using assms by (simp add: createDelinearizeIndex_def insertAt_def insertBefore_split)

lemma replaceUsesInItem_Plain_map:
  "map (replaceUsesInItem [] from to) (map (\<lambda>(i, operation). Plain i operation) ops) =
     map (\<lambda>(i, operation). Plain i operation) (replaceUsesInOps [] from to ops)"
  by (induction ops) (auto simp: replaceUsesInOps_def)

lemma replaceBlockArguments_producer:
  "replaceBlockArguments b k args
     (map (\<lambda>(i, operation). Plain i operation) body @ [InParallel t ys]) =
   map (\<lambda>(i, operation). Plain i operation) (substituteArguments b k args body) @
     [InParallel t (substituteArguments b k args ys)]"
proof (induction args arbitrary: k body ys)
  case Nil
  then show ?case by simp
next
  case (Cons a args)
  have "replaceBlockArguments b k (a # args)
          (map (\<lambda>(i, operation). Plain i operation) body @ [InParallel t ys]) =
        replaceBlockArguments b (Suc k) args
          (map (\<lambda>(i, operation). Plain i operation)
             (replaceUsesInOps [] (BlockArgumentOf b k) a body) @
           [InParallel t (replaceUsesInOps [] (BlockArgumentOf b k) a ys)])"
    using replaceUsesInItem_Plain_map[of "BlockArgumentOf b k" a body] by simp
  then show ?case by (simp add: Cons.IH)
qed

lemma replaceUsesInOps_ids: "map fst (replaceUsesInOps except from to ops) = map fst ops"
  by (induction ops) (auto simp: replaceUsesInOps_def)

lemma substituteArguments_ids: "map fst (substituteArguments b k args ops) = map fst ops"
  by (induction args arbitrary: k ops) (simp_all add: replaceUsesInOps_ids)

lemma foldl_takeFromBlock:
  "foldl (\<lambda>r c. takeFromBlock (fst c) r) rw chain =
     rw\<lparr>irBlock := filter (\<lambda>item. itemId item \<notin> fst ` set chain) (irBlock rw)\<rparr>"
proof (induction chain arbitrary: rw)
  case Nil
  then show ?case by simp
next
  case (Cons c chain)
  have "foldl (\<lambda>r c. takeFromBlock (fst c) r) rw (c # chain) =
      foldl (\<lambda>r c. takeFromBlock (fst c) r) (takeFromBlock (fst c) rw) chain"
    by simp
  also have "\<dots> = (takeFromBlock (fst c) rw)
      \<lparr>irBlock := filter (\<lambda>item. itemId item \<notin> fst ` set chain)
         (irBlock (takeFromBlock (fst c) rw))\<rparr>"
    by (rule Cons.IH)
  also have "\<dots> = rw\<lparr>irBlock := filter (\<lambda>item. itemId item \<notin> fst ` set (c # chain)) (irBlock rw)\<rparr>"
    by (simp add: takeFromBlock_def conj_commute)
  finally show ?case .
qed

lemma itemId_replaceUsesInItem: "itemId (replaceUsesInItem e from to item) = itemId item"
  by (cases item) auto

lemma opIds_replaceUsesInItem: "opIds (replaceUsesInItem e from to item) = opIds item"
  by (cases item) (auto simp: replaceUsesInOps_ids)

lemma eraseInItem_id: "i \<notin> set (opIds item) \<Longrightarrow> eraseInItem i item = item"
proof (cases item)
  case (InParallel j ys)
  assume "i \<notin> set (opIds item)"
  with InParallel have "\<forall>y\<in>set ys. fst y \<noteq> i" by auto
  then have "filter (\<lambda>(k, operation). k \<noteq> i) ys = ys"
    by (induction ys) auto
  with InParallel show ?thesis by simp
qed simp_all

lemma getTripCount_Some_lengths:
  assumes "getTripCount loop = Inr (Some m)"
  shows "length (getStaticLowerBound loop) = length (getStaticUpperBound loop) \<and>
         length (getStaticUpperBound loop) = length (getStaticStep loop)"
  using assms
  by (auto simp: getTripCount_def Let_def zip_equal_def andThen_def split: if_splits sum.splits)

lemma evalFoldResult_foldLinearId:
  "evalFoldResult env (foldLinearId acc (zip (map ValueOf ivs) (map IntegerAttr counts))) =
     foldl (\<lambda>linearId (iv, extent). linearId * extent + env iv) (evalFoldResult env acc) (zip ivs counts)"
proof (induction ivs arbitrary: acc counts)
  case Nil
  then show ?case by simp
next
  case (Cons iv ivs)
  then show ?case by (cases counts) simp_all
qed

lemma foldLinearId_MulAdd: "\<exists>a' b' c'. foldLinearId (MulAdd a b c) rest = MulAdd a' b' c'"
  by (induction rest arbitrary: a b c) auto

lemma ball_append3:
  "(\<And>x. x \<in> set A \<Longrightarrow> P x) \<Longrightarrow> (\<And>x. x \<in> set B \<Longrightarrow> P x) \<Longrightarrow>
   (\<And>x. x \<in> set C \<Longrightarrow> P x) \<Longrightarrow> \<forall>x\<in>set (A @ B @ C). P x"
  by auto

lemma eraseOp_absent:
  assumes "\<forall>item\<in>set (irBlock rw). i \<notin> set (opIds item)"
  shows "eraseOp i rw = rw\<lparr>erasedOps := erasedOps rw @ [i]\<rparr>"
proof -
  have ids: "\<forall>item\<in>set (irBlock rw). itemId item \<noteq> i"
  proof
    fix item assume "item \<in> set (irBlock rw)"
    with assms have "i \<notin> set (opIds item)" by blast
    then show "itemId item \<noteq> i" by (cases item) auto
  qed
  then have "filter (\<lambda>item. itemId item \<noteq> i) (irBlock rw) = irBlock rw"
    by simp
  moreover have "map (eraseInItem i) (irBlock rw) = irBlock rw"
    using assms by (intro map_idI) (simp add: eraseInItem_id)
  ultimately show ?thesis by (simp add: eraseOp_def)
qed

lemma eraseOp_yielding:
  assumes "irBlock rw = xs @ InParallel t ys # zs"
    and "\<forall>item\<in>set (xs @ zs). i \<notin> set (opIds item)" and "i \<noteq> t"
  shows "eraseOp i rw =
     rw\<lparr>irBlock := xs @ InParallel t (filter (\<lambda>(k, operation). k \<noteq> i) ys) # zs,
        erasedOps := erasedOps rw @ [i]\<rparr>"
proof -
  have ids: "\<forall>item\<in>set (xs @ zs). itemId item \<noteq> i"
  proof
    fix item assume "item \<in> set (xs @ zs)"
    with assms(2) have "i \<notin> set (opIds item)" by blast
    then show "itemId item \<noteq> i" by (cases item) auto
  qed
  then have "filter (\<lambda>item. itemId item \<noteq> i) xs = xs" "filter (\<lambda>item. itemId item \<noteq> i) zs = zs"
    by simp_all
  moreover have "map (eraseInItem i) xs = xs" "map (eraseInItem i) zs = zs"
    using assms(2) by (auto intro!: map_idI simp: eraseInItem_id)
  ultimately show ?thesis using assms(1,3) by (simp add: eraseOp_def)
qed

lemma eraseOp_terminator:
  assumes "irBlock rw = xs @ InParallel t ys # zs"
    and "\<forall>item\<in>set (xs @ zs). t \<notin> set (opIds item)"
  shows "eraseOp t rw = rw\<lparr>irBlock := xs @ zs, erasedOps := erasedOps rw @ [t]\<rparr>"
proof -
  have ids: "\<forall>item\<in>set (xs @ zs). itemId item \<noteq> t"
  proof
    fix item assume "item \<in> set (xs @ zs)"
    with assms(2) have "t \<notin> set (opIds item)" by blast
    then show "itemId item \<noteq> t" by (cases item) auto
  qed
  then have "filter (\<lambda>item. itemId item \<noteq> t) xs = xs" "filter (\<lambda>item. itemId item \<noteq> t) zs = zs"
    by simp_all
  moreover have "map (eraseInItem t) xs = xs" "map (eraseInItem t) zs = zs"
    using assms(2) by (auto intro!: map_idI simp: eraseInItem_id)
  ultimately show ?thesis using assms(1) by (simp add: eraseOp_def)
qed

text \<open>
  Claim C8. Let the checks pass (a chain that ends in the slice extraction \<open>s\<close>, one
  result, equal trip counts and mappings, lower bounds zero and steps one), let the
  operations of the chain be in the edited block, the first yielding operation of the
  producer's terminator be a partial insertion, and the identities be unique. Then the
  fusion succeeds, and the block it leaves is the block it found, without the
  operations of the chain, and with the following in the place of the slice extraction:
  the constants of the producer's upper bounds, one per axis; the delinearization of
  the linear identity against these constants; the operations of the body of the
  producer, once, with the results of the delinearization in the place of the induction
  variables and the outputs in the place of the other arguments of its block; and one
  \<open>ShuffleTensorOp\<close>, whose source, destination, offsets, sizes and strides are those of
  the partial insertion and whose body is the chain followed by the yield of the slice.
  The uses of the slice's result are replaced by the result of the shuffle; the block
  of the producer, the partial insertion, the terminator and the producer are erased.
  The linear identity denotes the fold of \<open>id * extent + index\<close> from zero over the axes
  of the consumer in order, the extents being its upper bounds. (A consumer without
  axes has the constant zero created for the linear identity.)
\<close>

theorem fuseForallIntoSlice_fuses:
  fixes rewriter :: IRRewriter and producer consumer :: ForallOp
    and consumerChain :: "(nat \<times> Op) list"
  defines "linearId \<equiv>
      foldLinearId (IntegerAttr 0)
        (zip (map ValueOf (getInductionVars consumer))
           (map IntegerAttr (getStaticUpperBound consumer)))"
  defines "zero \<equiv>
      (if getStaticUpperBound consumer = [] then [Plain (nextId rewriter) (ConstantIndexOp 0)]
       else [])"
  defines "linearIdVal \<equiv>
      (if getStaticUpperBound consumer = [] then ValueOf (OpResultOf (nextId rewriter) 0)
       else linearId)"
  defines "r \<equiv> nextId rewriter + length zero"
  defines "ranges \<equiv>
      map (\<lambda>j. Plain (r + j) (ConstantIndexOp (getStaticUpperBound producer ! j)))
        [0..<length (getStaticUpperBound producer)]"
  defines "d \<equiv> r + length (getStaticUpperBound producer)"
  defines "delinearizeOp \<equiv>
      Plain d (AffineDelinearizeIndexOp linearIdVal
        (map (\<lambda>j. OpResultOf (r + j) 0) [0..<length (getStaticUpperBound producer)]))"
  defines "argValues \<equiv>
      map (OpResultOf d) [0..<length (getStaticUpperBound producer)] @ getOutputs producer"
  defines "shuffleId \<equiv> Suc d"
  defines "keep \<equiv> filter (\<lambda>item. itemId item \<notin> fst ` set consumerChain)"
  assumes chain: "consumerChain \<noteq> []"
      "last consumerChain = (s, ExtractSliceOp sliceSource sliceOffsets sliceSizes sliceStrides)"
      "\<forall>c\<in>set consumerChain. Plain (fst c) (snd c) \<in> set (irBlock rewriter)"
    and block:
      "irBlock rewriter =
         pre @ Plain s (ExtractSliceOp sliceSource sliceOffsets sliceSizes sliceStrides) # post"
      "s \<notin> itemId ` set pre"
    and results: "getNumOpResults producer = 1"
    and compared: "compareWorkerCountsAndTypes producer consumer = Inr success"
    and lowerBounds:
      "\<forall>lb\<in>set (getStaticLowerBound producer) \<union> set (getStaticLowerBound consumer). lb = 0"
    and steps: "\<forall>step\<in>set (getStaticStep producer) \<union> set (getStaticStep consumer). step = 1"
    and insertion:
      "substituteArguments (getForallBlock producer) 0 argValues (getYieldingOps producer) =
         (insertId, ParallelInsertSliceOp insertSource insertDest offsets sizes strides) # moreYielding"
    and unique: "uniqueIds rewriter producer"
  shows "fuseForallIntoSlice constantOf rewriter producer consumer consumerChain =
      Inr (success,
        rewriter
          \<lparr>irBlock :=
             map (replaceUsesInItem [shuffleId + 2] (OpResultOf s 0) (OpResultOf shuffleId 0))
               (keep pre @ zero @ ranges @ [delinearizeOp] @
                map (\<lambda>(i, operation). Plain i operation)
                  (substituteArguments (getForallBlock producer) 0 argValues
                     (getForallBody producer)) @
                [ShuffleTensor shuffleId
                   \<lparr>getSource = insertSource, getDest = insertDest,
                    getMixedOffsets = offsets, getMixedSizes = sizes, getMixedStrides = strides,
                    getBodyBlock = shuffleId + 1,
                    getBody =
                      (fst (hd consumerChain),
                       replaceUsesOfWith (OpResultOf (getForallId producer) 0)
                         (BlockArgumentOf (shuffleId + 1) 0) (snd (hd consumerChain))) #
                      tl consumerChain @ [(shuffleId + 2, YieldOp (OpResultOf s 0))]\<rparr>] @
                keep post),
           nextId := shuffleId + 3,
           erasedBlocks := erasedBlocks rewriter @ [getForallBlock producer],
           erasedOps :=
             erasedOps rewriter @ [insertId, getTerminatorId producer, getForallId producer],
           createdElsewhere :=
             map (\<lambda>(point, item).
                    (point,
                     replaceUsesInItem [shuffleId + 2] (OpResultOf s 0) (OpResultOf shuffleId 0)
                       item))
               (createdElsewhere rewriter)\<rparr>) \<and>
    evalFoldResult env linearId =
      foldl (\<lambda>linear (inductionVar, extent). linear * extent + env inductionVar) 0
        (zip (getInductionVars consumer) (getStaticUpperBound consumer))"
proof -
  let ?x = "Plain s (ExtractSliceOp sliceSource sliceOffsets sliceSizes sliceStrides)"
  let ?pb = "getForallBlock producer"
  let ?t = "getTerminatorId producer"
  let ?P = "getForallId producer"
  let ?pubs = "getStaticUpperBound producer"
  let ?cubs = "getStaticUpperBound consumer"
  let ?n = "nextId rewriter"
  let ?body' = "map (\<lambda>(i, operation). Plain i operation)
                  (substituteArguments ?pb 0 argValues (getForallBody producer))"
  let ?ys' = "(insertId, ParallelInsertSliceOp insertSource insertDest offsets sizes strides) # moreYielding"
  \<comment> \<open>the checks\<close>
  from compared obtain m where m: "getTripCount producer = Inr (Some m)"
    "getTripCount consumer = Inr (Some m)"
    unfolding compareWorkerCountsAndTypes_success by blast
  note st = getTripCount_Some_static[OF m(1)] getTripCount_Some_static[OF m(2)]
  note len = getTripCount_Some_lengths[OF m(1)] getTripCount_Some_lengths[OF m(2)]
  have mixed: "getMixedStep producer = Inr (map IntegerAttr (getStaticStep producer))"
    "getMixedLowerBound producer = Inr (map IntegerAttr (getStaticLowerBound producer))"
    "getMixedStep consumer = Inr (map IntegerAttr (getStaticStep consumer))"
    "getMixedLowerBound consumer = Inr (map IntegerAttr (getStaticLowerBound consumer))"
    "getMixedUpperBound consumer = Inr (map IntegerAttr ?cubs)"
    using st
    by (simp_all add: getMixedStep_def getMixedLowerBound_def getMixedUpperBound_def
        getMixedValues_static)
  have all: "isAll constantOf (map IntegerAttr (getStaticStep producer)) 1"
    "isAll constantOf (map IntegerAttr (getStaticLowerBound producer)) 0"
    "isAll constantOf (map IntegerAttr (getStaticStep consumer)) 1"
    "isAll constantOf (map IntegerAttr (getStaticLowerBound consumer)) 0"
    unfolding isAll_static using lowerBounds steps by blast+
  have zipped: "zip_equal (map ValueOf (getInductionVars consumer)) (map IntegerAttr ?cubs) =
      Inr (zip (map ValueOf (getInductionVars consumer)) (map IntegerAttr ?cubs))"
    using len by (simp add: zip_equal_def getInductionVars_def getForallRank_def)
  \<comment> \<open>the identities\<close>
  have s_lt: "s < ?n"
    using unique block(1) by (simp add: uniqueIds_def)
  have prodIds: "insertId \<in> set (producerIds producer)" "?t \<in> set (producerIds producer)"
    "?P \<in> set (producerIds producer)"
    "fst ` set (getForallBody producer) \<subseteq> set (producerIds producer)"
  proof -
    have "map fst (getYieldingOps producer) = insertId # map fst moreYielding"
      using substituteArguments_ids[of ?pb 0 argValues "getYieldingOps producer"] insertion
      by simp
    then show "insertId \<in> set (producerIds producer)" by (simp add: producerIds_def)
  qed (auto simp: producerIds_def)
  have prodDistinct: "insertId \<noteq> ?t" "?P \<noteq> ?t" "?t \<notin> fst ` set (getForallBody producer)"
    "insertId \<notin> fst ` set (getForallBody producer)" "?P \<notin> fst ` set (getForallBody producer)"
  proof -
    have yielding: "map fst (getYieldingOps producer) = insertId # map fst moreYielding"
      using substituteArguments_ids[of ?pb 0 argValues "getYieldingOps producer"] insertion
      by simp
    from unique have "distinct (producerIds producer)" by (simp add: uniqueIds_def)
    then show "insertId \<noteq> ?t" "?P \<noteq> ?t" "?t \<notin> fst ` set (getForallBody producer)"
      "insertId \<notin> fst ` set (getForallBody producer)" "?P \<notin> fst ` set (getForallBody producer)"
      by (auto simp: producerIds_def yielding)
  qed
  have prodFresh: "\<And>q. q \<in> set (producerIds producer) \<Longrightarrow>
      q < ?n \<and> (\<forall>item\<in>set (irBlock rewriter). q \<notin> set (opIds item))"
    using unique by (auto simp: uniqueIds_def list_all_iff)
  have blockFresh: "\<And>item i. item \<in> set (irBlock rewriter) \<Longrightarrow> i \<in> set (opIds item) \<Longrightarrow> i < ?n"
    using unique by (auto simp: uniqueIds_def list_all_iff)
  have itemId_opIds: "\<And>item. itemId item \<in> set (opIds item)"
    subgoal for item by (cases item) auto
    done
  have chainIds: "\<And>c. c \<in> set consumerChain \<Longrightarrow>
      fst c < ?n \<and> fst c \<notin> set (producerIds producer)"
  proof -
    fix c assume "c \<in> set consumerChain"
    with chain(3) have mem: "Plain (fst c) (snd c) \<in> set (irBlock rewriter)" by blast
    from blockFresh[OF mem, of "fst c"] have "fst c < ?n" by simp
    moreover have "fst c \<notin> set (producerIds producer)"
    proof
      assume "fst c \<in> set (producerIds producer)"
      from prodFresh[OF this] mem show False by auto
    qed
    ultimately show "fst c < ?n \<and> fst c \<notin> set (producerIds producer)" by simp
  qed
  \<comment> \<open>the linear identity and the delinearization\<close>
  let ?rw1 = "rewriter\<lparr>irBlock := (pre @ zero) @ ?x # post, nextId := r\<rparr>"
  have step1: "getValueOrCreateConstantIndexOp (Before s) linearId rewriter = (linearIdVal, ?rw1)"
  proof (cases "?cubs = []")
    case True
    then have "linearId = IntegerAttr 0" by (simp add: linearId_def)
    moreover have "createOp (Before s) (ConstantIndexOp 0) rewriter =
        (OpResultOf ?n 0,
         rewriter\<lparr>irBlock := (pre @ [Plain ?n (ConstantIndexOp 0)]) @ ?x # post,
            nextId := Suc ?n\<rparr>)"
      using block by (intro createOp_before) auto
    ultimately show ?thesis
      using True
      by (simp add: getValueOrCreateConstantIndexOp_def linearIdVal_def zero_def r_def)
  next
    case False
    then obtain c cs where cubs: "?cubs = c # cs" by (cases ?cubs) auto
    have "length (getInductionVars consumer) = length ?cubs"
      using len by (simp add: getInductionVars_def getForallRank_def)
    with cubs obtain iv ivs where ivs: "getInductionVars consumer = iv # ivs"
      by (cases "getInductionVars consumer") auto
    from cubs ivs obtain a' b' c' where "linearId = MulAdd a' b' c'"
      unfolding linearId_def using foldLinearId_MulAdd by fastforce
    moreover have "?rw1 = rewriter" using False block(1) by (simp add: zero_def r_def)
    ultimately show ?thesis
      using False by (simp add: getValueOrCreateConstantIndexOp_def linearIdVal_def)
  qed
  have zeroIds: "\<And>item. item \<in> set zero \<Longrightarrow> opIds item = [?n]"
    by (auto simp: zero_def split: if_splits)
  have rangesIds: "\<And>item. item \<in> set ranges \<Longrightarrow> \<exists>j. opIds item = [r + j]"
    by (auto simp: ranges_def)
  have r_ge: "?n \<le> r" by (simp add: r_def)
  have d_ge: "r \<le> d" by (simp add: d_def)
  have s_pre1: "s \<notin> itemId ` set (pre @ zero)"
    using block(2) s_lt by (auto simp: zero_def split: if_splits)
  let ?rangeVals = "map (\<lambda>j. OpResultOf (r + j) 0) [0..<length ?pubs]"
  let ?rw2 = "rewriter\<lparr>irBlock := (pre @ zero @ ranges) @ ?x # post, nextId := d\<rparr>"
  have step2: "createRanges (Before s) ?pubs ?rw1 = (?rangeVals, ?rw2)"
  proof -
    have "createRanges (Before s) ?pubs ?rw1 =
       (map (\<lambda>j. OpResultOf (nextId ?rw1 + j) 0) [0..<length ?pubs],
        ?rw1\<lparr>irBlock := ((pre @ zero) @ map (\<lambda>j. Plain (nextId ?rw1 + j) (ConstantIndexOp (?pubs ! j)))
                              [0..<length ?pubs]) @ ?x # post,
           nextId := nextId ?rw1 + length ?pubs\<rparr>)"
      using s_pre1 s_lt r_ge by (intro createRanges_before) auto
    then show ?thesis by (simp add: ranges_def d_def)
  qed
  have s_pre2: "s \<notin> itemId ` set (pre @ zero @ ranges)"
    using s_pre1 s_lt r_ge by (auto simp: ranges_def)
  let ?newIds = "map (OpResultOf d) [0..<length ?pubs]"
  let ?rw3 = "rewriter\<lparr>irBlock := (pre @ zero @ ranges @ [delinearizeOp]) @ ?x # post,
                nextId := shuffleId\<rparr>"
  have step3: "createDelinearizeIndex (Before s) linearIdVal ?rangeVals ?rw2 = (?newIds, ?rw3)"
  proof -
    have "createDelinearizeIndex (Before s) linearIdVal ?rangeVals ?rw2 =
       (map (OpResultOf (nextId ?rw2)) [0..<length ?rangeVals],
        ?rw2\<lparr>irBlock := ((pre @ zero @ ranges) @
                 [Plain (nextId ?rw2) (AffineDelinearizeIndexOp linearIdVal ?rangeVals)]) @ ?x # post,
           nextId := Suc (nextId ?rw2)\<rparr>)"
      using s_pre2 by (intro createDelinearizeIndex_before) auto
    then show ?thesis by (simp add: delinearizeOp_def shuffleId_def)
  qed
  have s_pre3: "s \<notin> itemId ` set (pre @ zero @ ranges @ [delinearizeOp])"
    using s_pre2 s_lt r_ge d_ge by (auto simp: delinearizeOp_def)
  \<comment> \<open>the body of the producer\<close>
  let ?inlined = "?body' @ [InParallel ?t ?ys']"
  let ?rw4 = "rewriter\<lparr>irBlock := (pre @ zero @ ranges @ [delinearizeOp]) @ ?inlined @ ?x # post,
                nextId := shuffleId,
                erasedBlocks := erasedBlocks rewriter @ [?pb]\<rparr>"
  have step4: "inlineBlockBefore ?pb (getForallRank producer + length (getOutputs producer))
       (map (\<lambda>(i, operation). Plain i operation) (getForallBody producer) @
        [InParallel ?t (getYieldingOps producer)]) s argValues ?rw3 = Inr (?inlined, ?rw4)"
  proof -
    have "length argValues = getForallRank producer + length (getOutputs producer)"
      using len by (simp add: argValues_def getForallRank_def)
    moreover have "replaceBlockArguments ?pb 0 argValues
        (map (\<lambda>(i, operation). Plain i operation) (getForallBody producer) @
         [InParallel ?t (getYieldingOps producer)]) = ?inlined"
      by (simp add: replaceBlockArguments_producer insertion)
    moreover have "insertBefore s ?inlined ((pre @ zero @ ranges @ [delinearizeOp]) @ ?x # post) =
        (pre @ zero @ ranges @ [delinearizeOp]) @ ?inlined @ ?x # post"
      using s_pre3 by (intro insertBefore_split) auto
    ultimately show ?thesis
      by (simp add: inlineBlockBefore_def Let_def)
  qed
  \<comment> \<open>the shuffle\<close>
  let ?new = "zero @ ranges @ [delinearizeOp]"
  let ?shuffle = "ShuffleTensor shuffleId
       \<lparr>getSource = insertSource, getDest = insertDest,
        getMixedOffsets = offsets, getMixedSizes = sizes, getMixedStrides = strides,
        getBodyBlock = shuffleId + 1,
        getBody =
          (fst (hd consumerChain),
           replaceUsesOfWith (OpResultOf ?P 0)
             (BlockArgumentOf (shuffleId + 1) 0) (snd (hd consumerChain))) #
          tl consumerChain @ [(shuffleId + 2, YieldOp (OpResultOf s 0))]\<rparr>"
  let ?rho = "replaceUsesInItem [shuffleId + 2] (OpResultOf s 0) (OpResultOf shuffleId 0)"
  have newIds: "\<And>item. item \<in> set ?new \<Longrightarrow> \<exists>i. opIds item = [i] \<and> ?n \<le> i"
    using zeroIds rangesIds r_ge d_ge by (fastforce simp: delinearizeOp_def)
  have newItemIds: "\<And>item. item \<in> set ?new \<Longrightarrow> ?n \<le> itemId item"
  proof -
    fix item assume "item \<in> set ?new"
    from newIds[OF this] obtain i where "opIds item = [i]" "?n \<le> i" by blast
    with itemId_opIds[of item] show "?n \<le> itemId item" by simp
  qed
  have bodyIds: "\<And>item. item \<in> set ?body' \<Longrightarrow>
      \<exists>i. opIds item = [i] \<and> itemId item = i \<and> i \<in> fst ` set (getForallBody producer)"
  proof -
    fix item assume "item \<in> set ?body'"
    then obtain i operation where item: "item = Plain i operation"
      and "(i, operation) \<in> set (substituteArguments ?pb 0 argValues (getForallBody producer))"
      by auto
    then have "i \<in> set (map fst (substituteArguments ?pb 0 argValues (getForallBody producer)))"
      by force
    then have "i \<in> fst ` set (getForallBody producer)"
      by (simp only: substituteArguments_ids) simp
    with item show "\<exists>i. opIds item = [i] \<and> itemId item = i \<and> i \<in> fst ` set (getForallBody producer)"
      by simp
  qed
  have s_chain: "s \<in> fst ` set consumerChain"
    using chain(1,2) by (metis fst_conv image_eqI last_in_set)
  have keepNew: "keep ?new = ?new"
    unfolding keep_def
  proof (rule filter_True, rule)
    fix item assume item: "item \<in> set ?new"
    show "itemId item \<notin> fst ` set consumerChain"
    proof
      assume "itemId item \<in> fst ` set consumerChain"
      then obtain c where "c \<in> set consumerChain" "fst c = itemId item" by auto
      with chainIds[of c] newItemIds[OF item] show False by simp
    qed
  qed
  have keepBody: "keep ?body' = ?body'"
    unfolding keep_def
  proof (rule filter_True, rule)
    fix item assume item: "item \<in> set ?body'"
    show "itemId item \<notin> fst ` set consumerChain"
    proof
      assume "itemId item \<in> fst ` set consumerChain"
      then obtain c where c: "c \<in> set consumerChain" "fst c = itemId item" by auto
      from bodyIds[OF item] prodIds(4) have "itemId item \<in> set (producerIds producer)" by auto
      with chainIds[OF c(1)] c(2) show False by simp
    qed
  qed
  have t_chain: "?t \<notin> fst ` set consumerChain"
  proof
    assume "?t \<in> fst ` set consumerChain"
    then obtain c where c: "c \<in> set consumerChain" "fst c = ?t" by auto
    with chainIds[OF c(1)] prodIds(2) show False by simp
  qed
  have kept: "keep ((pre @ ?new) @ ?inlined @ ?x # post) =
      (keep pre @ ?new @ ?body') @ InParallel ?t ?ys' # keep post"
  proof -
    have "keep ((pre @ ?new) @ ?inlined @ ?x # post) =
        keep pre @ keep ?new @ keep ?body' @ keep [InParallel ?t ?ys'] @ keep [?x] @ keep post"
      unfolding keep_def by (simp only: filter_append append_assoc append_Cons append_Nil)
        (simp only: filter_append[symmetric] append_Cons append_Nil)
    moreover have "keep [InParallel ?t ?ys'] = [InParallel ?t ?ys']"
      using t_chain by (simp add: keep_def)
    moreover have "keep [?x] = []" using s_chain by (simp add: keep_def)
    ultimately show ?thesis by (simp only: keepNew keepBody) simp
  qed
  have t_front: "\<forall>item\<in>set (keep pre @ ?new @ ?body'). itemId item \<noteq> ?t"
  proof (rule ball_append3)
    fix item assume "item \<in> set (keep pre)"
    then have "item \<in> set (irBlock rewriter)" by (simp add: block(1) keep_def)
    with prodFresh[OF prodIds(2)] itemId_opIds[of item] show "itemId item \<noteq> ?t" by auto
  next
    fix item assume "item \<in> set ?new"
    from newItemIds[OF this] prodFresh[OF prodIds(2)] show "itemId item \<noteq> ?t" by simp
  next
    fix item assume "item \<in> set ?body'"
    from bodyIds[OF this] prodDistinct(3) show "itemId item \<noteq> ?t" by metis
  qed
  let ?blk = "(keep pre @ ?new @ ?body') @ InParallel ?t ?ys' # ?shuffle # keep post"
  let ?rw5 = "rewriter
      \<lparr>irBlock := map ?rho ?blk,
       nextId := shuffleId + 3,
       erasedBlocks := erasedBlocks rewriter @ [?pb],
       createdElsewhere := map (\<lambda>(point, item). (point, ?rho item)) (createdElsewhere rewriter)\<rparr>"
  have step5: "replaceConsumerChain (After ?t) (OpResultOf ?P 0)
       (ParallelInsertSliceOp insertSource insertDest offsets sizes strides) consumerChain ?rw4 =
       Inr ?rw5"
  proof -
    have after: "insertAfter ?t [?shuffle]
        ((keep pre @ ?new @ ?body') @ InParallel ?t ?ys' # keep post) = ?blk"
    proof -
      have "insertAfter ?t [?shuffle]
          ((keep pre @ ?new @ ?body') @ InParallel ?t ?ys' # keep post) =
          (keep pre @ ?new @ ?body') @ InParallel ?t ?ys' # [?shuffle] @ keep post"
      proof (rule insertAfter_split)
        show "itemId (InParallel ?t ?ys') = ?t" by simp
        show "?t \<notin> itemId ` set (keep pre @ ?new @ ?body')"
          using t_front by (metis imageE)
      qed
      then show ?thesis by simp
    qed
    have mem: "?t \<in> itemId ` set ((keep pre @ ?new @ ?body') @ InParallel ?t ?ys' # keep post)"
      by simp
    show ?thesis
      using kept after mem chain(2)
      by (simp add: replaceConsumerChain_def Let_def foldl_takeFromBlock insertAt_def
          replaceAllUsesExcept_def keep_def)
  qed
  \<comment> \<open>the erasures\<close>
  have shuffleIds: "set (opIds ?shuffle) = {shuffleId, shuffleId + 2} \<union> fst ` set consumerChain"
  proof -
    from chain(1) obtain c cs where "consumerChain = c # cs" by (cases consumerChain) auto
    then show ?thesis by auto
  qed
  have fresh: "\<forall>item\<in>set ((keep pre @ ?new @ ?body') @ ?shuffle # keep post).
      q \<notin> set (opIds item)"
    if q: "q \<in> set (producerIds producer)" "q \<notin> fst ` set (getForallBody producer)" for q
  proof -
    have front: "\<forall>item\<in>set (keep pre @ ?new @ ?body'). q \<notin> set (opIds item)"
    proof (rule ball_append3)
      fix item assume "item \<in> set (keep pre)"
      then have "item \<in> set (irBlock rewriter)" by (simp add: block(1) keep_def)
      with prodFresh[OF q(1)] show "q \<notin> set (opIds item)" by blast
    next
      fix item assume "item \<in> set ?new"
      from newIds[OF this] prodFresh[OF q(1)] show "q \<notin> set (opIds item)" by auto
    next
      fix item assume "item \<in> set ?body'"
      from bodyIds[OF this] q(2) show "q \<notin> set (opIds item)" by auto
    qed
    have "q \<notin> fst ` set consumerChain"
    proof
      assume "q \<in> fst ` set consumerChain"
      then obtain c where "c \<in> set consumerChain" "fst c = q" by auto
      with chainIds[of c] q(1) show False by simp
    qed
    moreover have "q < shuffleId"
      using prodFresh[OF q(1)] r_ge d_ge by (simp add: shuffleId_def)
    ultimately have shuffle: "q \<notin> set (opIds ?shuffle)"
      unfolding shuffleIds by simp
    have rear: "\<forall>item\<in>set (keep post). q \<notin> set (opIds item)"
    proof
      fix item assume "item \<in> set (keep post)"
      then have "item \<in> set (irBlock rewriter)" by (simp add: block(1) keep_def)
      with prodFresh[OF q(1)] show "q \<notin> set (opIds item)" by blast
    qed
    from front shuffle rear show ?thesis
      by (simp only: set_append set_simps ball_Un ball_simps) simp
  qed
  let ?xs = "map ?rho (keep pre @ ?new @ ?body')"
  let ?zs = "map ?rho (?shuffle # keep post)"
  let ?ys'' = "replaceUsesInOps [shuffleId + 2] (OpResultOf s 0) (OpResultOf shuffleId 0) ?ys'"
  have freshRho: "\<forall>item\<in>set (?xs @ ?zs). q \<notin> set (opIds item)"
    if q: "q \<in> set (producerIds producer)" "q \<notin> fst ` set (getForallBody producer)" for q
  proof
    fix item assume "item \<in> set (?xs @ ?zs)"
    then have "item \<in> ?rho ` set ((keep pre @ ?new @ ?body') @ ?shuffle # keep post)"
      by (simp only: map_append[symmetric] set_map)
    then obtain it where "it \<in> set ((keep pre @ ?new @ ?body') @ ?shuffle # keep post)"
      "item = ?rho it" by blast
    with fresh[OF q] show "q \<notin> set (opIds item)"
      by (metis opIds_replaceUsesInItem)
  qed
  have blk5: "irBlock ?rw5 = ?xs @ InParallel ?t ?ys'' # ?zs"
    by simp
  let ?rw6 = "?rw5\<lparr>irBlock := ?xs @ InParallel ?t (filter (\<lambda>(k, operation). k \<noteq> insertId) ?ys'') # ?zs,
                  erasedOps := erasedOps ?rw5 @ [insertId]\<rparr>"
  have e1: "eraseOp insertId ?rw5 = ?rw6"
    by (rule eraseOp_yielding[OF blk5 freshRho[OF prodIds(1) prodDistinct(4)] prodDistinct(1)])
  let ?rw7 = "?rw6\<lparr>irBlock := ?xs @ ?zs, erasedOps := erasedOps ?rw6 @ [?t]\<rparr>"
  have e2: "eraseOp ?t ?rw6 = ?rw7"
  proof (rule eraseOp_terminator)
    show "irBlock ?rw6 =
        ?xs @ InParallel ?t (filter (\<lambda>(k, operation). k \<noteq> insertId) ?ys'') # ?zs"
      by simp
    show "\<forall>item\<in>set (?xs @ ?zs). ?t \<notin> set (opIds item)"
      by (rule freshRho[OF prodIds(2) prodDistinct(3)])
  qed
  have e3: "eraseOp ?P ?rw7 = ?rw7\<lparr>erasedOps := erasedOps ?rw7 @ [?P]\<rparr>"
  proof (rule eraseOp_absent)
    have "irBlock ?rw7 = ?xs @ ?zs" by simp
    with freshRho[OF prodIds(3) prodDistinct(5)]
    show "\<forall>item\<in>set (irBlock ?rw7). ?P \<notin> set (opIds item)" by (simp only:)
  qed
  let ?result = "rewriter
          \<lparr>irBlock :=
             map ?rho (keep pre @ zero @ ranges @ [delinearizeOp] @ ?body' @ [?shuffle] @ keep post),
           nextId := shuffleId + 3,
           erasedBlocks := erasedBlocks rewriter @ [?pb],
           erasedOps := erasedOps rewriter @ [insertId, ?t, ?P],
           createdElsewhere :=
             map (\<lambda>(point, item). (point, ?rho item)) (createdElsewhere rewriter)\<rparr>"
  have erased: "eraseOp ?P (eraseOp ?t (eraseOp insertId ?rw5)) = ?result"
    by (simp only: e1 e2 e3) simp
  \<comment> \<open>the run\<close>
  define rw1 where "rw1 = ?rw1"
  define rw2 where "rw2 = ?rw2"
  define rw3 where "rw3 = ?rw3"
  define rw4 where "rw4 = ?rw4"
  define rw5 where "rw5 = ?rw5"
  define rangeVals where "rangeVals = ?rangeVals"
  define newIds where "newIds = ?newIds"
  define inlined where "inlined = ?inlined"
  define idsAndCounts where
    "idsAndCounts = zip (map ValueOf (getInductionVars consumer)) (map IntegerAttr ?cubs)"
  have argVals: "newIds @ getOutputs producer = argValues"
    by (simp add: newIds_def argValues_def)
  have run:
    "zip_equal (map ValueOf (getInductionVars consumer)) (map IntegerAttr ?cubs) = Inr idsAndCounts"
    "foldLinearId (IntegerAttr 0) idsAndCounts = linearId"
    "getValueOrCreateConstantIndexOp (Before s) linearId rewriter = (linearIdVal, rw1)"
    "createRanges (Before s) ?pubs rw1 = (rangeVals, rw2)"
    "createDelinearizeIndex (Before s) linearIdVal rangeVals rw2 = (newIds, rw3)"
    "inlineBlockBefore ?pb (getForallRank producer + length (getOutputs producer))
       (map (\<lambda>(i, operation). Plain i operation) (getForallBody producer) @
        [InParallel ?t (getYieldingOps producer)]) s argValues rw3 =
       Inr (inlined, rw4)"
    "last inlined = InParallel ?t ?ys'"
    "replaceConsumerChain (After ?t) (OpResultOf ?P 0)
       (ParallelInsertSliceOp insertSource insertDest offsets sizes strides) consumerChain rw4 =
       Inr rw5"
    "eraseOp ?P (eraseOp ?t (eraseOp insertId rw5)) = ?result"
    unfolding rw1_def rw2_def rw3_def rw4_def rw5_def rangeVals_def newIds_def inlined_def
      idsAndCounts_def
    subgoal by (rule zipped)
    subgoal by (simp only: linearId_def)
    subgoal by (rule step1)
    subgoal by (rule step2)
    subgoal by (rule step3)
    subgoal by (rule step4)
    subgoal by (simp only: last_snoc)
    subgoal by (rule step5)
    subgoal by (rule erased)
    done
  have fused: "fuseForallIntoSlice constantOf rewriter producer consumer consumerChain =
      Inr (success, ?result)"
    using chain(1)
    by (simp add: fuseForallIntoSlice_def chain(2) results compared failed_def mixed all run
        argVals andThen_simps Let_def)
  have "evalFoldResult env linearId =
      foldl (\<lambda>linear (inductionVar, extent). linear * extent + env inductionVar) 0
        (zip (getInductionVars consumer) ?cubs)"
    unfolding linearId_def by (simp add: evalFoldResult_foldLinearId)
  with fused show ?thesis by simp
qed

theorem fuseForallIntoSlice_fuses_witness:
  "uniqueIds consumerBlock producer4 \<and>
   compareWorkerCountsAndTypes producer4 consumer4 = Inr success \<and>
   fuseForallIntoSlice noConstants consumerBlock producer4 consumer4 [slice42] =
     Inr (success,
          \<lparr>irBlock =
             [Plain 50 (ConstantIndexOp 4),
              Plain 51 (AffineDelinearizeIndexOp
                          (MulAdd (IntegerAttr 0) (IntegerAttr 4) (ValueOf (BlockArgumentOf 41 0)))
                          [OpResultOf 50 0]),
              Plain 32 (OtherOp ''compute'' [OpResultOf 51 0]),
              ShuffleTensor 52
                \<lparr>getSource = OpResultOf 32 0, getDest = OpResultOf 1 0,
                 getMixedOffsets = [ValueOf (OpResultOf 51 0)],
                 getMixedSizes = [IntegerAttr 1], getMixedStrides = [IntegerAttr 1],
                 getBodyBlock = 53,
                 getBody =
                   [(42, ExtractSliceOp (BlockArgumentOf 53 0) [ValueOf (BlockArgumentOf 41 0)]
                           [IntegerAttr 1] [IntegerAttr 1]),
                    (54, YieldOp (OpResultOf 42 0))]\<rparr>,
              Plain 43 (OtherOp ''use'' [OpResultOf 52 0])],
           nextId = 55, erasedBlocks = [31], erasedOps = [34, 33, 30],
           createdElsewhere = []\<rparr>)"
proof (intro conjI)
  show "uniqueIds consumerBlock producer4" by code_simp
  show "compareWorkerCountsAndTypes producer4 consumer4 = Inr success" by code_simp
  show "fuseForallIntoSlice noConstants consumerBlock producer4 consumer4 [slice42] =
     Inr (success,
          \<lparr>irBlock =
             [Plain 50 (ConstantIndexOp 4),
              Plain 51 (AffineDelinearizeIndexOp
                          (MulAdd (IntegerAttr 0) (IntegerAttr 4) (ValueOf (BlockArgumentOf 41 0)))
                          [OpResultOf 50 0]),
              Plain 32 (OtherOp ''compute'' [OpResultOf 51 0]),
              ShuffleTensor 52
                \<lparr>getSource = OpResultOf 32 0, getDest = OpResultOf 1 0,
                 getMixedOffsets = [ValueOf (OpResultOf 51 0)],
                 getMixedSizes = [IntegerAttr 1], getMixedStrides = [IntegerAttr 1],
                 getBodyBlock = 53,
                 getBody =
                   [(42, ExtractSliceOp (BlockArgumentOf 53 0) [ValueOf (BlockArgumentOf 41 0)]
                           [IntegerAttr 1] [IntegerAttr 1]),
                    (54, YieldOp (OpResultOf 42 0))]\<rparr>,
              Plain 43 (OtherOp ''use'' [OpResultOf 52 0])],
           nextId = 55, erasedBlocks = [31], erasedOps = [34, 33, 30],
           createdElsewhere = []\<rparr>)"
    by (rule trans[OF fuseForallIntoSlice_fuses[where rewriter = consumerBlock
            and producer = producer4 and consumer = consumer4 and consumerChain = "[slice42]"
            and constantOf = noConstants and env = "\<lambda>v. 0"
            and s = 42 and sliceSource = "OpResultOf 30 0"
            and sliceOffsets = "[ValueOf (BlockArgumentOf 41 0)]"
            and sliceSizes = "[IntegerAttr 1]" and sliceStrides = "[IntegerAttr 1]"
            and pre = "[]" and post = "[Plain 43 (OtherOp ''use'' [OpResultOf 42 0])]"
            and insertId = 34 and insertSource = "OpResultOf 32 0"
            and insertDest = "OpResultOf 1 0" and offsets = "[ValueOf (OpResultOf 51 0)]"
            and sizes = "[IntegerAttr 1]" and strides = "[IntegerAttr 1]"
            and moreYielding = "[]", THEN conjunct1]])
      code_simp+
qed


end
